theory Spec2Isabelle
  imports Complex_Main "HOL-Library.Multiset"
begin

section \<open>Kibana resource resolution and export: a model of the content script\<close>

text \<open>
  The content script classifies the page URL into a saved-object type and identifier,
  harvests the panels embedded in a dashboard (from the dashboard's saved object, or from
  the rendered page when that fails), routes an export request to the matching backend
  call, and synthesizes a standalone saved object for a panel that has no identifier of
  its own.  This theory embeds those functions of \<^verbatim>\<open>content/content.js\<close> and proves the
  properties the specification states about them.

  Conventions of the embedding.
  \<^item> A JavaScript value that came out of \<^verbatim>\<open>JSON.parse\<close> or out of a message is a
    \<open>json\<close>; a property read yields a \<open>json option\<close>, with \<open>None\<close> for
    \<^verbatim>\<open>undefined\<close>.
  \<^item> A number is an exact decimal number of any size.  The engine rounds a number to a
    64-bit float, so the two agree on the numbers of up to 15 significant digits within the
    range of the floats; beyond that the rounding, and the overflow to an infinity, are not
    modelled.  The values \<^verbatim>\<open>NaN\<close> and the infinities arise in the arithmetic of the
    comparators only.
  \<^item> A string is the sequence of its UTF-16 code units, each written as one, two or three
    bytes in the manner of UTF-8: one byte for a unit below 0x80, two below 0x800, three
    otherwise.  An ASCII character is its own byte, so the literals of the script read as
    they are written; concatenation is append, and two strings are equal when their bytes
    are.
  \<^item> An object is the list of its own properties in the order of the text it was parsed
    from, or of the literal that built it.  A property read takes the last entry for a key,
    as \<^verbatim>\<open>JSON.parse\<close> keeps the last duplicate.  The engine keeps one entry for a
    duplicate key and enumerates array-index keys first; the list keeps what the text had,
    and \<open>spread\<close>, which copies the properties one by one, applies the engine's order.
  \<^item> An exception is a value of \<open>js_error\<close> on the left of a sum; every \<^verbatim>\<open>throw\<close>
    and every engine error of the source is a branch of the model.
  \<^item> An \<^verbatim>\<open>async\<close> function returns the list of HTTP requests it issued together
    with its result.  The network, the DOM, the clock and the random identifier are
    fields of a \<open>world\<close> record.
\<close>

subsection \<open>JSON values and their serialization\<close>

text \<open>
  A number is exact: \<open>JNum i\<close> is the integer \<open>i\<close>, and \<open>JFrac neg q d k\<close> is the number
  \<open>(10 q + d) / 10 ^ (k + 1)\<close>, taken negative when \<open>neg\<close> holds.  Its last decimal \<open>d\<close>
  is not zero, so it is not an integer, and a number has exactly one representation.
\<close>

datatype nzdigit = D1 | D2 | D3 | D4 | D5 | D6 | D7 | D8 | D9

datatype json =
    JNull
  | JBool bool
  | JNum int
  | JFrac bool nat nzdigit nat
  | JStr string
  | JArr "json list"
  | JObj "(string \<times> json) list"

type_synonym jsval = "json option"

fun digit_of :: "nzdigit \<Rightarrow> nat" where
  "digit_of D1 = 1"
| "digit_of D2 = 2"
| "digit_of D3 = 3"
| "digit_of D4 = 4"
| "digit_of D5 = 5"
| "digit_of D6 = 6"
| "digit_of D7 = 7"
| "digit_of D8 = 8"
| "digit_of D9 = 9"

definition nzdigit_of :: "nat \<Rightarrow> nzdigit" where
  "nzdigit_of n =
     (if n = 1 then D1 else if n = 2 then D2 else if n = 3 then D3 else if n = 4 then D4
      else if n = 5 then D5 else if n = 6 then D6 else if n = 7 then D7 else if n = 8 then D8
      else D9)"

text \<open>
  \<^verbatim>\<open>Number::toString\<close>, the decimal text of a number, used by \<^verbatim>\<open>JSON.stringify\<close> and
  by a template literal.  \<open>show_decimal ds n\<close> prints the number whose significant digits
  are \<open>ds\<close> (the last one not zero) and whose decimal point comes after \<open>n\<close> digits: in
  full when \<open>n\<close> is between -5 and 21, and otherwise with one digit before the point and an
  exponent.
\<close>

fun digits :: "nat \<Rightarrow> string" where
  "digits n = (if n < 10 then [char_of (48 + n)]
               else digits (n div 10) @ [char_of (48 + n mod 10)])"

declare digits.simps [simp del]

definition strip_zeros :: "string \<Rightarrow> string" where
  "strip_zeros ds = rev (dropWhile (\<lambda>c. c = CHR ''0'') (rev ds))"

definition show_exponent :: "string \<Rightarrow> int \<Rightarrow> string" where
  "show_exponent ds x =
     hd ds # (if tl ds = [] then [] else CHR ''.'' # tl ds)
       @ CHR ''e'' # (if 0 \<le> x then CHR ''+'' else CHR ''-'') # digits (nat \<bar>x\<bar>)"

definition show_decimal :: "string \<Rightarrow> int \<Rightarrow> string" where
  "show_decimal ds n =
     (let k = int (length ds) in
      if k \<le> n \<and> n \<le> 21 then ds @ replicate (nat (n - k)) CHR ''0''
      else if 0 < n \<and> n \<le> 21 then take (nat n) ds @ CHR ''.'' # drop (nat n) ds
      else if - 6 < n \<and> n \<le> 0 then ''0.'' @ replicate (nat (- n)) CHR ''0'' @ ds
      else show_exponent ds (n - 1))"

definition show_int :: "int \<Rightarrow> string" where
  "show_int i =
     (if i = 0 then ''0''
      else (if i < 0 then ''-'' else [])
           @ show_decimal (strip_zeros (digits (nat \<bar>i\<bar>))) (int (length (digits (nat \<bar>i\<bar>)))))"

definition show_frac :: "bool \<Rightarrow> nat \<Rightarrow> nzdigit \<Rightarrow> nat \<Rightarrow> string" where
  "show_frac neg q d k =
     (let ds = digits (10 * q + digit_of d)
      in (if neg then ''-'' else []) @ show_decimal ds (int (length ds) - int k - 1))"

text \<open>
  \<^verbatim>\<open>JSON.stringify\<close> is a built-in of the platform.  Its model quotes a string as the
  built-in does: the quotation mark, the backslash and the control characters are escaped
  (\<^verbatim>\<open>\b \t \n \f \r\<close>, and \<^verbatim>\<open>\u00xx\<close> for the others), a surrogate code unit that is
  not part of a pair is written as a \<^verbatim>\<open>\udxxx\<close> escape, and every other code unit is
  copied.  \<open>encode_unit\<close> gives the bytes of a code unit and \<open>surrogate_at\<close> recognises
  the three bytes of a surrogate.  Elements and members are separated by a comma without
  white space.
\<close>

definition hexdigit :: "nat \<Rightarrow> char" where
  "hexdigit d = (if d < 10 then char_of (48 + d) else char_of (87 + d))"

definition unicode_escape :: "nat \<Rightarrow> string" where
  "unicode_escape u =
     [CHR 0x5C, CHR ''u'', hexdigit (u div 4096), hexdigit (u div 256 mod 16),
      hexdigit (u div 16 mod 16), hexdigit (u mod 16)]"

definition escape_char :: "char \<Rightarrow> string" where
  "escape_char c =
     (if c = CHR 0x22 then [CHR 0x5C, CHR 0x22]
      else if c = CHR 0x5C then [CHR 0x5C, CHR 0x5C]
      else if c = CHR 0x08 then [CHR 0x5C, CHR ''b'']
      else if c = CHR 0x09 then [CHR 0x5C, CHR ''t'']
      else if c = CHR 0x0A then [CHR 0x5C, CHR ''n'']
      else if c = CHR 0x0C then [CHR 0x5C, CHR ''f'']
      else if c = CHR 0x0D then [CHR 0x5C, CHR ''r'']
      else if (of_char c :: nat) < 32 then unicode_escape (of_char c)
      else [c])"

definition encode_unit :: "nat \<Rightarrow> string" where
  "encode_unit u =
     (if u < 0x80 then [char_of u]
      else if u < 0x800 then [char_of (0xC0 + u div 64), char_of (0x80 + u mod 64)]
      else [char_of (0xE0 + u div 4096), char_of (0x80 + u div 64 mod 64),
            char_of (0x80 + u mod 64)])"

definition surrogate_at :: "string \<Rightarrow> nat option" where
  "surrogate_at s =
     (case s of
        a # b # c # _ \<Rightarrow>
          if a = CHR 0xED \<and> 0xA0 \<le> (of_char b :: nat) \<and> (of_char b :: nat) \<le> 0xBF
             \<and> 0x80 \<le> (of_char c :: nat) \<and> (of_char c :: nat) \<le> 0xBF
          then Some (0xD000 + ((of_char b :: nat) - 0x80) * 64 + ((of_char c :: nat) - 0x80))
          else None
      | _ \<Rightarrow> None)"

definition trail_follows :: "string \<Rightarrow> bool" where
  "trail_follows s = (case surrogate_at s of Some t \<Rightarrow> 0xDC00 \<le> t | None \<Rightarrow> False)"

function quote_chars :: "string \<Rightarrow> string" where
  "quote_chars [] = []"
| "quote_chars (c # cs) =
     (case surrogate_at (c # cs) of
        None \<Rightarrow> escape_char c @ quote_chars cs
      | Some u \<Rightarrow>
          if u < 0xDC00 \<and> trail_follows (drop 2 cs)
          then c # take 5 cs @ quote_chars (drop 5 cs)
          else unicode_escape u @ quote_chars (drop 2 cs))"
  by pat_completeness auto

termination
  by (relation "measure length") auto

definition quote :: "string \<Rightarrow> string" where
  "quote s = CHR 0x22 # quote_chars s @ [CHR 0x22]"

fun JSON_stringify :: "json \<Rightarrow> string"
  and stringify_elems :: "json list \<Rightarrow> string"
  and stringify_members :: "(string \<times> json) list \<Rightarrow> string"
where
  "JSON_stringify JNull = ''null''"
| "JSON_stringify (JBool b) = (if b then ''true'' else ''false'')"
| "JSON_stringify (JNum n) = show_int n"
| "JSON_stringify (JFrac neg q d k) = show_frac neg q d k"
| "JSON_stringify (JStr s) = quote s"
| "JSON_stringify (JArr xs) = CHR ''['' # stringify_elems xs"
| "JSON_stringify (JObj kvs) = CHR ''{'' # stringify_members kvs"
| "stringify_elems [] = '']''"
| "stringify_elems [x] = JSON_stringify x @ '']''"
| "stringify_elems (x # y # ys) = JSON_stringify x @ '','' @ stringify_elems (y # ys)"
| "stringify_members [] = ''}''"
| "stringify_members [(k, v)] = quote k @ '':'' @ JSON_stringify v @ ''}''"
| "stringify_members ((k, v) # m # ms) =
     quote k @ '':'' @ JSON_stringify v @ '','' @ stringify_members (m # ms)"

text \<open>
  \<^verbatim>\<open>JSON.stringify(data, null, 2)\<close>: the same serialization with one element or member
  per line, indented by two more spaces at each level, and a space after the colon.
\<close>

fun pretty :: "nat \<Rightarrow> json \<Rightarrow> string"
  and pretty_elems :: "nat \<Rightarrow> json list \<Rightarrow> string"
  and pretty_members :: "nat \<Rightarrow> (string \<times> json) list \<Rightarrow> string"
where
  "pretty i JNull = ''null''"
| "pretty i (JBool b) = (if b then ''true'' else ''false'')"
| "pretty i (JNum n) = show_int n"
| "pretty i (JFrac neg q d k) = show_frac neg q d k"
| "pretty i (JStr s) = quote s"
| "pretty i (JArr xs) =
     (if xs = [] then ''[]''
      else CHR ''['' # CHR 0x0A # pretty_elems (i + 2) xs @ CHR 0x0A # replicate i CHR '' '' @ '']'')"
| "pretty i (JObj kvs) =
     (if kvs = [] then ''{}''
      else CHR ''{'' # CHR 0x0A # pretty_members (i + 2) kvs @ CHR 0x0A # replicate i CHR '' '' @ ''}'')"
| "pretty_elems i [] = []"
| "pretty_elems i [x] = replicate i CHR '' '' @ pretty i x"
| "pretty_elems i (x # y # ys) =
     replicate i CHR '' '' @ pretty i x @ CHR '','' # CHR 0x0A # pretty_elems i (y # ys)"
| "pretty_members i [] = []"
| "pretty_members i [(k, v)] = replicate i CHR '' '' @ quote k @ '': '' @ pretty i v"
| "pretty_members i ((k, v) # m # ms) =
     replicate i CHR '' '' @ quote k @ '': '' @ pretty i v @ CHR '','' # CHR 0x0A
       # pretty_members i (m # ms)"

text \<open>
  \<^verbatim>\<open>JSON.parse\<close>, also a built-in: a recursive-descent parser over the remaining
  input.  White space is allowed around every token.  A number is an optional minus sign,
  an integer part without a leading zero, an optional fraction and an optional exponent;
  \<open>decimal neg m e\<close> is the number \<open>m \<times> 10 ^ e\<close>, taken negative when \<open>neg\<close> holds.  A
  string may not contain an unescaped control character, and a \<^verbatim>\<open>\uxxxx\<close> escape stands
  for one code unit.  There are no trailing commas.  Each function returns the value read
  and the rest of the input.  The tests \<open>length r' < length s\<close> hold whenever they are
  reached, since \<open>r'\<close> is what is left of \<open>s\<close> after at least one character was read;
  they make the recursion well-founded.
\<close>

definition is_ws :: "char \<Rightarrow> bool" where
  "is_ws c = (c = CHR '' '' \<or> c = CHR 0x09 \<or> c = CHR 0x0A \<or> c = CHR 0x0D)"

definition skip_ws :: "string \<Rightarrow> string" where
  "skip_ws s = dropWhile is_ws s"

definition is_digit :: "char \<Rightarrow> bool" where
  "is_digit c = (48 \<le> (of_char c :: nat) \<and> (of_char c :: nat) \<le> 57)"

definition hexval :: "char \<Rightarrow> nat option" where
  "hexval c =
     (let n = (of_char c :: nat) in
      if 48 \<le> n \<and> n \<le> 57 then Some (n - 48)
      else if 97 \<le> n \<and> n \<le> 102 then Some (n - 87)
      else if 65 \<le> n \<and> n \<le> 70 then Some (n - 55)
      else None)"

definition hex4 :: "string \<Rightarrow> nat option" where
  "hex4 hs =
     (case map hexval hs of
        [Some a, Some b, Some c, Some d] \<Rightarrow> Some (((a * 16 + b) * 16 + c) * 16 + d)
      | _ \<Rightarrow> None)"

definition unescape :: "char \<Rightarrow> char option" where
  "unescape e =
     (if e = CHR 0x22 then Some (CHR 0x22)
      else if e = CHR 0x5C then Some (CHR 0x5C)
      else if e = CHR ''/'' then Some (CHR ''/'')
      else if e = CHR ''b'' then Some (CHR 0x08)
      else if e = CHR ''f'' then Some (CHR 0x0C)
      else if e = CHR ''n'' then Some (CHR 0x0A)
      else if e = CHR ''r'' then Some (CHR 0x0D)
      else if e = CHR ''t'' then Some (CHR 0x09)
      else None)"

fun parse_string_chars :: "string \<Rightarrow> (string \<times> string) option" where
  "parse_string_chars [] = None"
| "parse_string_chars (c # cs) =
     (if c = CHR 0x22 then Some ([], cs)
      else if c = CHR 0x5C then
        (case cs of
           [] \<Rightarrow> None
         | e # r \<Rightarrow>
             if e = CHR ''u'' then
               (case hex4 (take 4 r) of
                  None \<Rightarrow> None
                | Some u \<Rightarrow>
                    map_option (apfst ((@) (encode_unit u))) (parse_string_chars (drop 4 r)))
             else
               (case unescape e of
                  None \<Rightarrow> None
                | Some ch \<Rightarrow> map_option (apfst ((#) ch)) (parse_string_chars r)))
      else if (of_char c :: nat) < 32 then None
      else map_option (apfst ((#) c)) (parse_string_chars cs))"

definition digit_step :: "nat \<Rightarrow> char \<Rightarrow> nat" where
  "digit_step a c = 10 * a + (of_char c - 48)"

definition nat_of_digits :: "string \<Rightarrow> nat" where
  "nat_of_digits ds = foldl digit_step 0 ds"

fun scale_down :: "bool \<Rightarrow> nat \<Rightarrow> nat \<Rightarrow> json" where
  "scale_down neg m 0 = JNum (if neg then - int m else int m)"
| "scale_down neg m (Suc j) =
     (if m mod 10 = 0 then scale_down neg (m div 10) j
      else JFrac neg (m div 10) (nzdigit_of (m mod 10)) j)"

definition decimal :: "bool \<Rightarrow> nat \<Rightarrow> int \<Rightarrow> json" where
  "decimal neg m e =
     (if 0 \<le> e then JNum ((if neg then - int m else int m) * 10 ^ nat e)
      else scale_down neg m (nat (- e)))"

definition parse_sign :: "string \<Rightarrow> bool \<times> string" where
  "parse_sign s = (case s of [] \<Rightarrow> (False, []) | c # r \<Rightarrow> if c = CHR ''-'' then (True, r) else (False, s))"

definition parse_fraction :: "string \<Rightarrow> (string \<times> string) option" where
  "parse_fraction s =
     (case s of
        [] \<Rightarrow> Some ([], [])
      | c # r \<Rightarrow>
          if c = CHR ''.'' then
            (if takeWhile is_digit r = [] then None
             else Some (takeWhile is_digit r, dropWhile is_digit r))
          else Some ([], s))"

definition parse_exponent :: "string \<Rightarrow> (int \<times> string) option" where
  "parse_exponent s =
     (case s of
        [] \<Rightarrow> Some (0, [])
      | c # r \<Rightarrow>
          if c = CHR ''e'' \<or> c = CHR ''E'' then
            (let neg = (case r of [] \<Rightarrow> False | g # _ \<Rightarrow> g = CHR ''-'');
                 r' = (case r of [] \<Rightarrow> [] | g # t \<Rightarrow> if g = CHR ''+'' \<or> g = CHR ''-'' then t else r);
                 ds = takeWhile is_digit r'
             in if ds = [] then None
                else Some (if neg then - int (nat_of_digits ds) else int (nat_of_digits ds),
                           dropWhile is_digit r'))
          else Some (0, s))"

definition parse_number :: "string \<Rightarrow> (json \<times> string) option" where
  "parse_number s =
     (case parse_sign s of
        (neg, s1) \<Rightarrow>
          (let ip = takeWhile is_digit s1 in
           if ip = [] \<or> (hd ip = CHR ''0'' \<and> tl ip \<noteq> []) then None
           else (case parse_fraction (dropWhile is_digit s1) of
                   None \<Rightarrow> None
                 | Some (fp, s3) \<Rightarrow>
                     (case parse_exponent s3 of
                        None \<Rightarrow> None
                      | Some (x, s4) \<Rightarrow>
                          Some (decimal neg (nat_of_digits (ip @ fp)) (x - int (length fp)), s4)))))"

function (sequential) parse_value :: "string \<Rightarrow> (json \<times> string) option"
  and parse_elems :: "string \<Rightarrow> (json list \<times> string) option"
  and parse_members :: "string \<Rightarrow> ((string \<times> json) list \<times> string) option"
where
  "parse_value [] = None"
| "parse_value (c # cs) =
     (if c = CHR ''['' then
        (case skip_ws cs of
           [] \<Rightarrow> None
         | d # r \<Rightarrow>
             if d = CHR '']'' then Some (JArr [], r)
             else map_option (apfst JArr) (parse_elems (d # r)))
      else if c = CHR ''{'' then
        (case skip_ws cs of
           [] \<Rightarrow> None
         | d # r \<Rightarrow>
             if d = CHR ''}'' then Some (JObj [], r)
             else map_option (apfst JObj) (parse_members (d # r)))
      else if c = CHR 0x22 then map_option (apfst JStr) (parse_string_chars cs)
      else if take 4 (c # cs) = ''null'' then Some (JNull, drop 3 cs)
      else if take 4 (c # cs) = ''true'' then Some (JBool True, drop 3 cs)
      else if take 5 (c # cs) = ''false'' then Some (JBool False, drop 4 cs)
      else parse_number (c # cs))"
| "parse_elems s =
     (case parse_value s of
        None \<Rightarrow> None
      | Some (v, r) \<Rightarrow>
          (case skip_ws r of
             [] \<Rightarrow> None
           | d # r' \<Rightarrow>
               if d = CHR '']'' then Some ([v], r')
               else if d = CHR '','' \<and> length r' < length s then
                 map_option (apfst ((#) v)) (parse_elems (skip_ws r'))
               else None))"
| "parse_members s =
     (case s of
        [] \<Rightarrow> None
      | q # cs \<Rightarrow>
          if q \<noteq> CHR 0x22 then None
          else
            (case parse_string_chars cs of
               None \<Rightarrow> None
             | Some (k, r) \<Rightarrow>
                 (case skip_ws r of
                    [] \<Rightarrow> None
                  | col # r1 \<Rightarrow>
                      if col \<noteq> CHR '':'' \<or> \<not> length r1 < length s then None
                      else
                        (case parse_value (skip_ws r1) of
                           None \<Rightarrow> None
                         | Some (v, r2) \<Rightarrow>
                             (case skip_ws r2 of
                                [] \<Rightarrow> None
                              | d # r3 \<Rightarrow>
                                  if d = CHR ''}'' then Some ([(k, v)], r3)
                                  else if d = CHR '','' \<and> length r3 < length s then
                                    map_option (apfst ((#) (k, v))) (parse_members (skip_ws r3))
                                  else None)))))"
  by pat_completeness auto

termination
proof -
  have ws_len: "length (skip_ws s) \<le> length s" for s
    by (simp add: skip_ws_def length_dropWhile_le)
  have ws_cons: "length r < length s" if "skip_ws s = d # r" for s d r
    using ws_len [of s] that by simp
  show ?thesis
  proof (relation "measure (\<lambda>x. case x of
          Inl s \<Rightarrow> 2 * length s
        | Inr (Inl s) \<Rightarrow> 2 * length s + 1
        | Inr (Inr s) \<Rightarrow> 2 * length s + 1)", goal_cases)
    case 1
    show ?case by simp
  next
    case 2
    then show ?case by (auto dest: ws_cons)
  next
    case 3
    then show ?case by (auto dest: ws_cons)
  next
    case 4
    show ?case by simp
  next
    case (5 s x2 v r x21 r')
    then show ?case using ws_len [of r'] by simp
  next
    case (6 s x21 x22 x2 k r x21a r1)
    then show ?case using ws_len [of r1] by simp
  next
    case (7 s x21 x22 x2 k r x21a r1 x2a v r2 x21b r3)
    then show ?case using ws_len [of r3] by simp
  qed
qed

definition JSON_parse :: "string \<Rightarrow> json option" where
  "JSON_parse s =
     (case parse_value (skip_ws s) of
        None \<Rightarrow> None
      | Some (v, r) \<Rightarrow> if skip_ws r = [] then Some v else None)"

text \<open>
  Auxiliary notions for the proof that \<open>JSON_parse\<close> inverts \<open>JSON_stringify\<close>.
\<close>

definition starts_with :: "(char \<Rightarrow> bool) \<Rightarrow> string \<Rightarrow> bool" where
  "starts_with P s = (case s of [] \<Rightarrow> False | c # _ \<Rightarrow> P c)"

definition num_delim :: "string \<Rightarrow> bool" where
  "num_delim r \<longleftrightarrow> \<not> starts_with (\<lambda>e. is_digit e \<or> e = CHR ''.'' \<or> e = CHR ''e'' \<or> e = CHR ''E'') r"

definition value_start :: "char \<Rightarrow> bool" where
  "value_start c \<longleftrightarrow>
     \<not> is_ws c \<and> c \<noteq> CHR '']'' \<and> c \<noteq> CHR ''}'' \<and> c \<noteq> CHR '','' \<and> c \<noteq> CHR '':''"

definition plain_char :: "char \<Rightarrow> bool" where
  "plain_char c \<longleftrightarrow> c \<noteq> CHR 0x22 \<and> c \<noteq> CHR 0x5C \<and> \<not> (of_char c :: nat) < 32"

subsection \<open>JavaScript values and coercions\<close>

text \<open>
  The coercions the content script relies on.  \<open>truthy\<close> is \<^verbatim>\<open>ToBoolean\<close>, \<open>or_else\<close>
  is \<^verbatim>\<open>a || d\<close> with a default that is never \<^verbatim>\<open>undefined\<close>, \<open>get_prop\<close> is a property
  read \<^verbatim>\<open>x.k\<close> on a value that is neither \<^verbatim>\<open>null\<close> nor \<^verbatim>\<open>undefined\<close> (a read on
  \<^verbatim>\<open>null\<close> raises a \<^verbatim>\<open>TypeError\<close>, which each caller models), \<open>opt_prop\<close> is
  \<^verbatim>\<open>a?.k\<close>, and \<open>obj\<close> builds an object literal as \<^verbatim>\<open>JSON.stringify\<close> sees it, that is
  without the properties whose value is \<^verbatim>\<open>undefined\<close>.  None of the property names the
  script reads is a member of a primitive's prototype, except \<^verbatim>\<open>sort\<close> on an array, which
  the saved-search branch of the synthesizer handles.
\<close>

fun truthy :: "jsval \<Rightarrow> bool" where
  "truthy None = False"
| "truthy (Some JNull) = False"
| "truthy (Some (JBool b)) = b"
| "truthy (Some (JNum n)) = (n \<noteq> 0)"
| "truthy (Some (JFrac neg q d k)) = True"
| "truthy (Some (JStr s)) = (s \<noteq> [])"
| "truthy (Some (JArr xs)) = True"
| "truthy (Some (JObj kvs)) = True"

definition or_else :: "jsval \<Rightarrow> json \<Rightarrow> json" where
  "or_else a d = (if truthy a then the a else d)"

definition get_prop :: "string \<Rightarrow> json \<Rightarrow> jsval" where
  "get_prop k x = (case x of JObj kvs \<Rightarrow> map_of (rev kvs) k | _ \<Rightarrow> None)"

definition opt_prop :: "string \<Rightarrow> jsval \<Rightarrow> jsval" where
  "opt_prop k a = (case a of None \<Rightarrow> None | Some JNull \<Rightarrow> None | Some x \<Rightarrow> get_prop k x)"

definition obj :: "(string \<times> jsval) list \<Rightarrow> json" where
  "obj kvs = JObj (List.map_filter (\<lambda>(k, v). map_option (Pair k) v) kvs)"

text \<open>
  \<^verbatim>\<open>ToString\<close>, as applied by a template literal, by a property key and by
  \<^verbatim>\<open>JSON.parse\<close> to an argument that is not a string: an array is the comma-joined string
  of its elements, with \<^verbatim>\<open>null\<close> elements empty, and an object is
  \<^verbatim>\<open>[object Object]\<close>.
\<close>

fun js_toString :: "json \<Rightarrow> string"
  and js_join :: "json list \<Rightarrow> string"
where
  "js_toString JNull = ''null''"
| "js_toString (JBool b) = (if b then ''true'' else ''false'')"
| "js_toString (JNum n) = show_int n"
| "js_toString (JFrac neg q d k) = show_frac neg q d k"
| "js_toString (JStr s) = s"
| "js_toString (JArr xs) = js_join xs"
| "js_toString (JObj kvs) = ''[object Object]''"
| "js_join [] = []"
| "js_join (x # xs) =
     (if x = JNull then [] else js_toString x) @ (if xs = [] then [] else CHR '','' # js_join xs)"

definition template :: "jsval \<Rightarrow> string" where
  "template v = (case v of None \<Rightarrow> ''undefined'' | Some x \<Rightarrow> js_toString x)"

text \<open>
  \<^verbatim>\<open>===\<close> compares primitives by value; two arrays or objects that were parsed or
  received separately are never identical.
\<close>

definition strict_eq :: "jsval \<Rightarrow> jsval \<Rightarrow> bool" where
  "strict_eq a b =
     (case (a, b) of
        (None, None) \<Rightarrow> True
      | (Some JNull, Some JNull) \<Rightarrow> True
      | (Some (JBool p), Some (JBool q)) \<Rightarrow> p = q
      | (Some (JNum m), Some (JNum n)) \<Rightarrow> m = n
      | (Some (JFrac neg q d k), Some (JFrac neg' q' d' k')) \<Rightarrow>
          neg = neg' \<and> q = q' \<and> d = d' \<and> k = k'
      | (Some (JStr s), Some (JStr t)) \<Rightarrow> s = t
      | _ \<Rightarrow> False)"

text \<open>
  The code units of a string, each as its bytes, and \<^verbatim>\<open>trim\<close> as \<^verbatim>\<open>ToNumber\<close>
  applies it: the white space and the line terminators of the language are removed at both
  ends.
\<close>

function units :: "string \<Rightarrow> string list" where
  "units [] = []"
| "units (c # cs) =
     (let n = (if 0xE0 \<le> (of_char c :: nat) then 2 else if 0xC0 \<le> (of_char c :: nat) then 1 else 0)
      in (c # take n cs) # units (drop n cs))"
  by pat_completeness auto

termination
  by (relation "measure length") auto

definition whitespace_units :: "nat list" where
  "whitespace_units =
     [0x09, 0x0A, 0x0B, 0x0C, 0x0D, 0x20, 0xA0, 0x1680, 0x2000, 0x2001, 0x2002, 0x2003, 0x2004,
      0x2005, 0x2006, 0x2007, 0x2008, 0x2009, 0x200A, 0x2028, 0x2029, 0x202F, 0x205F, 0x3000,
      0xFEFF]"

definition is_space_unit :: "string \<Rightarrow> bool" where
  "is_space_unit u = (u \<in> set (map encode_unit whitespace_units))"

definition js_trim :: "string \<Rightarrow> string" where
  "js_trim s = concat (rev (dropWhile is_space_unit (rev (dropWhile is_space_unit (units s)))))"

text \<open>
  The numbers the arithmetic of the script yields: a real number or an infinity, and
  \<open>None\<close> for \<^verbatim>\<open>NaN\<close>.  \<open>number_value\<close> is the value of a JSON number.
\<close>

datatype extended = MinusInfinity | Finite real | PlusInfinity

instantiation extended :: "{zero, ord}"
begin

definition zero_extended :: extended where
  "zero_extended = Finite 0"

definition less_extended :: "extended \<Rightarrow> extended \<Rightarrow> bool" where
  "less_extended a b =
     (case (a, b) of
        (Finite x, Finite y) \<Rightarrow> x < y
      | (MinusInfinity, MinusInfinity) \<Rightarrow> False
      | (MinusInfinity, _) \<Rightarrow> True
      | (Finite x, PlusInfinity) \<Rightarrow> True
      | _ \<Rightarrow> False)"

definition less_eq_extended :: "extended \<Rightarrow> extended \<Rightarrow> bool" where
  "less_eq_extended a b = (a < b \<or> a = b)"

instance ..

end

fun number_value :: "json \<Rightarrow> real" where
  "number_value (JNum i) = of_int i"
| "number_value (JFrac neg q d k) =
     (if neg then - 1 else 1) * real (10 * q + digit_of d) / 10 ^ Suc k"
| "number_value _ = 0"

text \<open>
  \<^verbatim>\<open>ToNumber\<close> on a string: the trimmed text is empty (the number 0), a binary, octal
  or hexadecimal integer, \<^verbatim>\<open>Infinity\<close> with an optional sign, or a signed decimal literal
  whose integer part or fraction may be missing; any other text is \<^verbatim>\<open>NaN\<close>.
\<close>

definition digit_in :: "nat \<Rightarrow> char \<Rightarrow> nat option" where
  "digit_in radix c =
     (case hexval c of Some v \<Rightarrow> if v < radix then Some v else None | None \<Rightarrow> None)"

definition radix_value :: "nat \<Rightarrow> string \<Rightarrow> nat option" where
  "radix_value radix ds =
     (if ds = [] \<or> \<not> list_all (\<lambda>c. digit_in radix c \<noteq> None) ds then None
      else Some (foldl (\<lambda>a c. radix * a + the (digit_in radix c)) 0 ds))"

definition nondecimal_literal :: "string \<Rightarrow> nat option" where
  "nondecimal_literal t =
     (case t of
        z # x # ds \<Rightarrow>
          if z \<noteq> CHR ''0'' then None
          else if x = CHR ''x'' \<or> x = CHR ''X'' then radix_value 16 ds
          else if x = CHR ''o'' \<or> x = CHR ''O'' then radix_value 8 ds
          else if x = CHR ''b'' \<or> x = CHR ''B'' then radix_value 2 ds
          else None
      | _ \<Rightarrow> None)"

definition unsigned_decimal_literal :: "string \<Rightarrow> (nat \<times> int) option" where
  "unsigned_decimal_literal u =
     (let ip = takeWhile is_digit u;
          r1 = dropWhile is_digit u;
          dot = starts_with (\<lambda>c. c = CHR ''.'') r1;
          fp = (if dot then takeWhile is_digit (tl r1) else []);
          r2 = (if dot then dropWhile is_digit (tl r1) else r1)
      in if ip = [] \<and> fp = [] then None
         else (case parse_exponent r2 of
                 Some (x, []) \<Rightarrow> Some (nat_of_digits (ip @ fp), x - int (length fp))
               | _ \<Rightarrow> None))"

definition string_to_number :: "string \<Rightarrow> extended option" where
  "string_to_number s =
     (let t = js_trim s in
      if t = [] then Some (Finite 0)
      else (case nondecimal_literal t of
              Some n \<Rightarrow> Some (Finite (real n))
            | None \<Rightarrow>
                (let neg = starts_with (\<lambda>c. c = CHR ''-'') t;
                     u = (if starts_with (\<lambda>c. c = CHR ''+'' \<or> c = CHR ''-'') t then tl t else t)
                 in if u = ''Infinity'' then Some (if neg then MinusInfinity else PlusInfinity)
                    else (case unsigned_decimal_literal u of
                            None \<Rightarrow> None
                          | Some (m, e) \<Rightarrow> Some (Finite (number_value (decimal neg m e)))))))"

text \<open>
  \<^verbatim>\<open>ToNumber\<close> on a value: \<^verbatim>\<open>undefined\<close> is \<^verbatim>\<open>NaN\<close>, \<^verbatim>\<open>null\<close> is 0, a boolean is
  0 or 1, a string is converted as above and an array through its string.  An object is
  \<^verbatim>\<open>NaN\<close>: its primitive value is taken to be the text \<^verbatim>\<open>[object Object]\<close>, here and in
  \<open>js_toString\<close>, which is what the engine computes unless the object has an own property
  named \<^verbatim>\<open>toString\<close> or \<^verbatim>\<open>valueOf\<close>.  \<open>js_minus\<close> is the subtraction \<^verbatim>\<open>a - b\<close>.
\<close>

fun to_number :: "jsval \<Rightarrow> extended option" where
  "to_number None = None"
| "to_number (Some JNull) = Some (Finite 0)"
| "to_number (Some (JBool b)) = Some (Finite (if b then 1 else 0))"
| "to_number (Some (JNum i)) = Some (Finite (number_value (JNum i)))"
| "to_number (Some (JFrac neg q d k)) = Some (Finite (number_value (JFrac neg q d k)))"
| "to_number (Some (JStr s)) = string_to_number s"
| "to_number (Some (JArr xs)) = string_to_number (js_join xs)"
| "to_number (Some (JObj kvs)) = None"

fun subtract :: "extended \<Rightarrow> extended \<Rightarrow> extended option" where
  "subtract (Finite x) (Finite y) = Some (Finite (x - y))"
| "subtract PlusInfinity PlusInfinity = None"
| "subtract MinusInfinity MinusInfinity = None"
| "subtract PlusInfinity b = Some PlusInfinity"
| "subtract MinusInfinity b = Some MinusInfinity"
| "subtract (Finite x) PlusInfinity = Some MinusInfinity"
| "subtract (Finite x) MinusInfinity = Some PlusInfinity"

definition js_minus :: "jsval \<Rightarrow> jsval \<Rightarrow> extended option" where
  "js_minus a b =
     (case (to_number a, to_number b) of (Some m, Some n) \<Rightarrow> subtract m n | _ \<Rightarrow> None)"

text \<open>
  A read \<^verbatim>\<open>TABLE[key]\<close> on an object literal finds the literal's own entry, or else a
  member inherited from \<^verbatim>\<open>Object.prototype\<close> (a function or an object, hence truthy), or
  else \<^verbatim>\<open>undefined\<close>.
\<close>

datatype 'a table_entry = Own 'a | Inherited | Missing

definition Object_prototype_names :: "string list" where
  "Object_prototype_names =
     [''constructor'', ''__defineGetter__'', ''__defineSetter__'', ''hasOwnProperty'',
      ''__lookupGetter__'', ''__lookupSetter__'', ''isPrototypeOf'', ''propertyIsEnumerable'',
      ''toString'', ''valueOf'', ''__proto__'', ''toLocaleString'']"

definition lookup :: "(string \<times> 'a) list \<Rightarrow> string \<Rightarrow> 'a table_entry" where
  "lookup table k =
     (case map_of table k of
        Some v \<Rightarrow> Own v
      | None \<Rightarrow> if k \<in> set Object_prototype_names then Inherited else Missing)"

fun js_includes :: "string \<Rightarrow> string \<Rightarrow> bool" where
  "js_includes sub [] = (sub = [])"
| "js_includes sub (c # cs) = (take (length sub) (c # cs) = sub \<or> js_includes sub cs)"

text \<open>
  \<^verbatim>\<open>Array.prototype.sort\<close> with a comparator.  The built-in is a stable sort; a
  comparator result that is \<^verbatim>\<open>NaN\<close> counts as 0.  Its model is the stable insertion sort:
  an element moves behind exactly those elements it sorts after.  For a comparator that is
  not consistent the order the built-in produces is implementation-defined, and the model
  then fixes the order of this insertion sort.
\<close>

definition sorts_after :: "('a \<Rightarrow> 'a \<Rightarrow> ('n::{zero,ord}) option) \<Rightarrow> 'a \<Rightarrow> 'a \<Rightarrow> bool" where
  "sorts_after cmp a b = (case cmp a b of Some v \<Rightarrow> 0 < v | None \<Rightarrow> False)"

fun insert_sorted :: "('a \<Rightarrow> 'a \<Rightarrow> ('n::{zero,ord}) option) \<Rightarrow> 'a \<Rightarrow> 'a list \<Rightarrow> 'a list" where
  "insert_sorted cmp a [] = [a]"
| "insert_sorted cmp a (b # bs) =
     (if sorts_after cmp a b then b # insert_sorted cmp a bs else a # b # bs)"

definition js_sort :: "('a \<Rightarrow> 'a \<Rightarrow> ('n::{zero,ord}) option) \<Rightarrow> 'a list \<Rightarrow> 'a list" where
  "js_sort cmp xs = foldr (insert_sorted cmp) xs []"

subsection \<open>Errors, network and page\<close>

text \<open>
  \<open>Error msg\<close> is \<^verbatim>\<open>new Error(msg)\<close> thrown by the script; \<open>TypeError\<close> and
  \<open>SyntaxError\<close> are raised by the engine (their messages are not modelled) and
  \<open>NetworkError\<close> is a rejected \<^verbatim>\<open>fetch\<close>.  A request records the method, the URL and the
  body; every call of the script also sends the \<^verbatim>\<open>kbn-xsrf\<close> header and the session
  credentials.  An \<open>element\<close> is a panel container of the page with what
  \<^verbatim>\<open>extractPanelInfo\<close> makes of it (a descriptor, \<^verbatim>\<open>null\<close>, or an exception such as the
  \<^verbatim>\<open>TypeError\<close> of \<^verbatim>\<open>className.toLowerCase\<close> on an SVG element) and the top and left
  offsets of its bounding rectangle.  In a \<open>world\<close>, \<open>baseUrl\<close> is what
  \<^verbatim>\<open>getKibanaBaseUrl\<close> computes from the location, \<open>pageTitle\<close> is the result of
  \<^verbatim>\<open>extractTitle\<close>, and \<open>sendMessage\<close> is the answer of the background script to a
  \<^verbatim>\<open>downloadFile\<close> message.
\<close>

datatype js_error = Error string | TypeError | SyntaxError | NetworkError

datatype http_method = GET | POST

record http_request =
  req_method :: http_method
  req_url :: string
  req_body :: "string option"

record http_response =
  resp_ok :: bool
  resp_status :: nat
  resp_statusText :: string
  resp_text :: string

record panel_info =
  pi_type :: string
  pi_id :: "string option"
  pi_title :: string

record element =
  el_info :: "js_error + panel_info option"
  el_top :: real
  el_left :: real

record download_msg =
  dl_content :: string
  dl_title :: jsval
  dl_type :: jsval
  dl_fileExtension :: string

datatype export_response = ExportSuccess string | ExportFailure js_error

record world =
  href :: string
  baseUrl :: string
  pageTitle :: "string option"
  fetch :: "http_request \<Rightarrow> http_response option"
  querySelectorAll :: "string \<Rightarrow> element list"
  now :: string
  randomUUID :: string
  sendMessage :: "download_msg \<Rightarrow> js_error + export_response"

subsection \<open>Type tables\<close>

text \<open>
  Every entry of \<^verbatim>\<open>KIBANA_PATTERNS\<close> is a literal prefix followed by one capture group
  \<^verbatim>\<open>([^...]+)\<close>; a pattern is that prefix and the characters the group excludes.  The
  tables keep the order of the object literals.  \<open>apiPath\<close> is the text that precedes the
  identifier in the alternate endpoint's path.
\<close>

record pattern =
  pat_prefix :: string
  pat_stops :: string

definition KIBANA_PATTERNS :: "(string \<times> pattern) list" where
  "KIBANA_PATTERNS =
     [(''dashboard'', \<lparr>pat_prefix = ''/app/dashboards#/view/'', pat_stops = ''?&''\<rparr>),
      (''visualization'', \<lparr>pat_prefix = ''/app/visualize#/edit/'', pat_stops = ''?&''\<rparr>),
      (''lens'', \<lparr>pat_prefix = ''/app/lens#/edit/'', pat_stops = ''?&''\<rparr>),
      (''search'', \<lparr>pat_prefix = ''/app/discover#/view/'', pat_stops = ''?&''\<rparr>),
      (''map'', \<lparr>pat_prefix = ''/app/maps#/map/'', pat_stops = ''?&''\<rparr>),
      (''index-pattern'',
         \<lparr>pat_prefix = ''/app/management/kibana/indexPatterns/patterns/'', pat_stops = ''?&''\<rparr>),
      (''query'',
         \<lparr>pat_prefix = ''/app/management/kibana/objects/savedQueries/'', pat_stops = ''?&''\<rparr>),
      (''slo'', \<lparr>pat_prefix = ''/app/slos/'', pat_stops = ''?&/''\<rparr>),
      (''alert'',
         \<lparr>pat_prefix = ''/app/management/insightsAndAlerting/triggersActions/rule/'',
          pat_stops = ''?&''\<rparr>),
      (''cases'', \<lparr>pat_prefix = ''/app/security/cases/'', pat_stops = ''?&''\<rparr>)]"

record alt_config =
  apiPath :: string
  fileExtension :: string

definition ALTERNATIVE_API_TYPES :: "(string \<times> alt_config) list" where
  "ALTERNATIVE_API_TYPES =
     [(''slo'', \<lparr>apiPath = ''/api/observability/slos/'', fileExtension = ''json''\<rparr>),
      (''alert'', \<lparr>apiPath = ''/api/alerting/rule/'', fileExtension = ''json''\<rparr>)]"

definition NON_EXPORTABLE_TYPES :: "(string \<times> string) list" where
  "NON_EXPORTABLE_TYPES = [(''cases'', ''Cases are not exportable via any known API'')]"

subsection \<open>URL classifier\<close>

text \<open>
  \<^verbatim>\<open>url.match(pattern)\<close> for such a pattern: the leftmost position where the prefix is
  followed by at least one allowed character, and the longest run of allowed characters
  there.  \<open>detectSavedObject\<close> tries the table in order and answers for the first pattern
  that matches.
\<close>

fun match_pattern :: "pattern \<Rightarrow> string \<Rightarrow> string option" where
  "match_pattern p [] = None"
| "match_pattern p (c # cs) =
     (let seg = takeWhile (\<lambda>x. x \<notin> set (pat_stops p)) (drop (length (pat_prefix p)) (c # cs))
      in if take (length (pat_prefix p)) (c # cs) = pat_prefix p \<and> seg \<noteq> []
         then Some seg
         else match_pattern p cs)"

record detected =
  d_type :: string
  d_id :: string
  d_title :: "string option"
  d_url :: string
  d_useAlternativeApi :: bool
  d_notExportable :: bool
  d_notExportableReason :: "string option"

fun first_match :: "(string \<times> pattern) list \<Rightarrow> string \<Rightarrow> (string \<times> string) option" where
  "first_match [] url = None"
| "first_match ((ty, p) # ps) url =
     (case match_pattern p url of
        Some seg \<Rightarrow> Some (ty, seg)
      | None \<Rightarrow> first_match ps url)"

definition detectSavedObject :: "world \<Rightarrow> detected option" where
  "detectSavedObject w =
     (case first_match KIBANA_PATTERNS (href w) of
        None \<Rightarrow> None
      | Some (ty, seg) \<Rightarrow>
          Some \<lparr>d_type = ty, d_id = seg, d_title = pageTitle w, d_url = href w,
                d_useAlternativeApi = (map_of ALTERNATIVE_API_TYPES ty \<noteq> None),
                d_notExportable = (map_of NON_EXPORTABLE_TYPES ty \<noteq> None),
                d_notExportableReason = map_of NON_EXPORTABLE_TYPES ty\<rparr>)"

subsection \<open>Backend calls\<close>

text \<open>
  The three backend calls.  Each issues one request; a response that is not \<^verbatim>\<open>ok\<close>
  becomes an error carrying the status.
\<close>

definition export_failed :: "http_response \<Rightarrow> js_error" where
  "export_failed r =
     Error (''Export failed: '' @ digits (resp_status r) @ '' '' @ resp_statusText r
            @ '' - '' @ resp_text r)"

definition bulk_request :: "world \<Rightarrow> jsval \<Rightarrow> jsval \<Rightarrow> http_request" where
  "bulk_request w ty ident =
     \<lparr>req_method = POST,
      req_url = baseUrl w @ ''/api/saved_objects/_export'',
      req_body = Some (JSON_stringify
        (obj [(''objects'', Some (JArr [obj [(''type'', ty), (''id'', ident)]])),
              (''includeReferencesDeep'', Some (JBool True))]))\<rparr>"

definition exportSavedObject ::
  "world \<Rightarrow> jsval \<Rightarrow> jsval \<Rightarrow> http_request list \<times> (js_error + string)" where
  "exportSavedObject w ty ident =
     (let req = bulk_request w ty ident in
      ([req],
       case fetch w req of
         None \<Rightarrow> Inl NetworkError
       | Some r \<Rightarrow> if \<not> resp_ok r then Inl (export_failed r) else Inr (resp_text r)))"

definition alt_request :: "world \<Rightarrow> alt_config \<Rightarrow> jsval \<Rightarrow> http_request" where
  "alt_request w cfg ident =
     \<lparr>req_method = GET, req_url = baseUrl w @ apiPath cfg @ template ident, req_body = None\<rparr>"

definition exportViaAlternativeApi ::
  "world \<Rightarrow> jsval \<Rightarrow> jsval \<Rightarrow> http_request list \<times> (js_error + string)" where
  "exportViaAlternativeApi w ty ident =
     (case lookup ALTERNATIVE_API_TYPES (template ty) of
        Missing \<Rightarrow> ([], Inl (Error (''No alternative API configured for type: '' @ template ty)))
      | Inherited \<Rightarrow> ([], Inl TypeError)
      | Own cfg \<Rightarrow>
          (let req = alt_request w cfg ident in
           ([req],
            case fetch w req of
              None \<Rightarrow> Inl NetworkError
            | Some r \<Rightarrow>
                if \<not> resp_ok r then Inl (export_failed r)
                else (case JSON_parse (resp_text r) of
                        None \<Rightarrow> Inl SyntaxError
                      | Some data \<Rightarrow> Inr (pretty 0 data)))))"

definition dashboard_request :: "world \<Rightarrow> jsval \<Rightarrow> http_request" where
  "dashboard_request w dashboardId =
     \<lparr>req_method = GET,
      req_url = baseUrl w @ ''/api/saved_objects/dashboard/'' @ template dashboardId,
      req_body = None\<rparr>"

definition fetchDashboardData ::
  "world \<Rightarrow> jsval \<Rightarrow> http_request list \<times> (js_error + json)" where
  "fetchDashboardData w dashboardId =
     (let req = dashboard_request w dashboardId in
      ([req],
       case fetch w req of
         None \<Rightarrow> Inl NetworkError
       | Some r \<Rightarrow>
           if \<not> resp_ok r
           then Inl (Error (''Failed to fetch dashboard: '' @ digits (resp_status r)))
           else (case JSON_parse (resp_text r) of
                   None \<Rightarrow> Inl SyntaxError
                 | Some d \<Rightarrow> Inr d)))"

subsection \<open>Panel titles and subtypes\<close>

text \<open>
  The six places \<^verbatim>\<open>extractPanelTitle\<close> looks at, in order, and the chart subtype of
  \<^verbatim>\<open>extractPanelSubType\<close>.  A truthy series type or visualization type that is not a string
  has no \<^verbatim>\<open>replace\<close> method, so the call raises a \<^verbatim>\<open>TypeError\<close>.  \<open>toLowerCase\<close>
  changes the capital letters of ASCII and of the Latin-1 supplement (U+00C0 to U+00DE
  without the multiplication sign, two bytes each); the case mappings of the other scripts
  are not modelled.
\<close>

definition extractPanelTitle :: "json \<Rightarrow> json" where
  "extractPanelTitle panel =
     (let embeddableConfig = or_else (get_prop ''embeddableConfig'' panel) (JObj []);
          attributes = get_prop ''attributes'' embeddableConfig
      in if truthy (get_prop ''title'' embeddableConfig)
           then the (get_prop ''title'' embeddableConfig)
         else if truthy (opt_prop ''title'' attributes)
           then the (opt_prop ''title'' attributes)
         else if truthy (opt_prop ''title'' (get_prop ''savedVis'' embeddableConfig))
           then the (opt_prop ''title'' (get_prop ''savedVis'' embeddableConfig))
         else if truthy (opt_prop ''title'' (get_prop ''vis'' embeddableConfig))
           then the (opt_prop ''title'' (get_prop ''vis'' embeddableConfig))
         else if truthy (opt_prop ''title''
                          (opt_prop ''visualization'' (opt_prop ''state'' attributes)))
           then the (opt_prop ''title''
                          (opt_prop ''visualization'' (opt_prop ''state'' attributes)))
         else if truthy (get_prop ''title'' panel)
           then the (get_prop ''title'' panel)
         else JStr ''Untitled Panel'')"

datatype subtype = SubNull | SubValue json | SubInherited string

definition replace_underscores :: "string \<Rightarrow> string" where
  "replace_underscores s = map (\<lambda>c. if c = CHR ''_'' then CHR '' '' else c) s"

definition lower_ascii :: "char \<Rightarrow> char" where
  "lower_ascii c =
     (if 65 \<le> (of_char c :: nat) \<and> (of_char c :: nat) \<le> 90
      then char_of ((of_char c :: nat) + 32) else c)"

fun toLowerCase :: "string \<Rightarrow> string" where
  "toLowerCase [] = []"
| "toLowerCase [c] = [lower_ascii c]"
| "toLowerCase (c # d # cs) =
     (if c = CHR 0xC3 \<and> 0x80 \<le> (of_char d :: nat) \<and> (of_char d :: nat) \<le> 0x9E
         \<and> d \<noteq> CHR 0x97
      then c # char_of ((of_char d :: nat) + 0x20) # toLowerCase cs
      else lower_ascii c # toLowerCase (d # cs))"

definition strip_lns :: "string \<Rightarrow> string" where
  "strip_lns s = (if take 3 s = ''lns'' then drop 3 s else s)"

definition typeMap :: "(string \<times> string) list" where
  "typeMap =
     [(''lnsXY'', ''xy''), (''lnsMetric'', ''metric''), (''lnsPie'', ''pie''),
      (''lnsDatatable'', ''table''), (''lnsLegacyMetric'', ''metric''),
      (''lnsGauge'', ''gauge''), (''lnsHeatmap'', ''heatmap''),
      (''lnsTagcloud'', ''tag cloud''), (''lnsMosaic'', ''mosaic''),
      (''lnsPartition'', ''partition'')]"

definition extractPanelSubType :: "json \<Rightarrow> js_error + subtype" where
  "extractPanelSubType panel =
     (let embeddableConfig = or_else (get_prop ''embeddableConfig'' panel) (JObj []);
          attributes = or_else (get_prop ''attributes'' embeddableConfig) (JObj []);
          state = or_else (get_prop ''state'' attributes) (JObj []);
          visualization = or_else (get_prop ''visualization'' state) (JObj []);
          series = get_prop ''preferredSeriesType'' visualization;
          vizType = get_prop ''visualizationType'' attributes;
          savedVis = or_else (get_prop ''savedVis'' embeddableConfig) (JObj [])
      in if get_prop ''type'' panel = Some (JStr ''lens'') \<and> truthy series then
           (case series of
              Some (JStr s) \<Rightarrow> Inr (SubValue (JStr (replace_underscores s)))
            | _ \<Rightarrow> Inl TypeError)
         else if get_prop ''type'' panel = Some (JStr ''lens'') \<and> truthy vizType then
           (case lookup typeMap (template vizType) of
              Own name \<Rightarrow> Inr (SubValue (JStr name))
            | Inherited \<Rightarrow> Inr (SubInherited (template vizType))
            | Missing \<Rightarrow>
                (case vizType of
                   Some (JStr s) \<Rightarrow> Inr (SubValue (JStr (toLowerCase (strip_lns s))))
                 | _ \<Rightarrow> Inl TypeError))
         else if get_prop ''type'' panel = Some (JStr ''visualization'')
                 \<and> truthy (get_prop ''type'' savedVis) then
           Inr (SubValue (the (get_prop ''type'' savedVis)))
         else Inr SubNull)"

subsection \<open>Record synthesizer\<close>

text \<open>
  \<^verbatim>\<open>constructPanelExport\<close>.  \<open>panelSavedObject\<close> is the \<^verbatim>\<open>savedObject\<close> the function
  builds, branch by branch, and the export is its serialization, a line feed and the
  serialization of the summary.  In the saved-search branch an \<^verbatim>\<open>attributes\<close> that is an
  array has the built-in \<^verbatim>\<open>sort\<close> function as its \<^verbatim>\<open>sort\<close> property, which
  \<^verbatim>\<open>JSON.stringify\<close> leaves out.  \<open>spread\<close> is \<^verbatim>\<open>{title, ...attributes}\<close>: the own
  properties of \<^verbatim>\<open>attributes\<close> (of an array or a string, its elements under their
  indices) are assigned in turn, and the resulting object lists its array-index keys
  first, in ascending order, and then the other keys in the order of their creation.  The
  timestamp and the random identifier are those of the \<open>world\<close>.
\<close>

definition encode_unless_string :: "jsval \<Rightarrow> json \<Rightarrow> json" where
  "encode_unless_string v d =
     (case v of
        Some (JStr s) \<Rightarrow> JStr s
      | _ \<Rightarrow> JStr (JSON_stringify (or_else v d)))"

definition is_array :: "json \<Rightarrow> bool" where
  "is_array x = (case x of JArr xs \<Rightarrow> True | _ \<Rightarrow> False)"

fun assign :: "(string \<times> json) list \<Rightarrow> string \<Rightarrow> json \<Rightarrow> (string \<times> json) list" where
  "assign [] k v = [(k, v)]"
| "assign ((k', v') # kvs) k v = (if k' = k then (k, v) # kvs else (k', v') # assign kvs k v)"

definition own_entries :: "json \<Rightarrow> (string \<times> json) list" where
  "own_entries x =
     (case x of
        JObj kvs \<Rightarrow> kvs
      | JArr xs \<Rightarrow> zip (map digits [0..<length xs]) xs
      | JStr s \<Rightarrow> zip (map digits [0..<length (units s)]) (map JStr (units s))
      | _ \<Rightarrow> [])"

definition is_array_index :: "string \<Rightarrow> bool" where
  "is_array_index k \<longleftrightarrow>
     k \<noteq> [] \<and> list_all is_digit k \<and> (hd k = CHR ''0'' \<longrightarrow> tl k = [])
     \<and> nat_of_digits k \<le> 4294967294"

definition own_keys_order :: "(string \<times> json) list \<Rightarrow> (string \<times> json) list" where
  "own_keys_order kvs =
     sort_key (\<lambda>kv. nat_of_digits (fst kv)) (filter (\<lambda>kv. is_array_index (fst kv)) kvs)
       @ filter (\<lambda>kv. \<not> is_array_index (fst kv)) kvs"

definition spread :: "(string \<times> json) list \<Rightarrow> json \<Rightarrow> (string \<times> json) list" where
  "spread base x = own_keys_order (foldl (\<lambda>acc (k, v). assign acc k v) base (own_entries x))"

definition exportSummary :: json where
  "exportSummary =
     JObj [(''excludedObjects'', JArr []), (''excludedObjectsCount'', JNum 0),
           (''exportedCount'', JNum 1), (''missingRefCount'', JNum 0),
           (''missingReferences'', JArr [])]"

definition panelSavedObject :: "world \<Rightarrow> json \<Rightarrow> json" where
  "panelSavedObject w panel =
     (let panelType = get_prop ''type'' panel;
          embeddableConfig = or_else (get_prop ''embeddableConfig'' panel) (JObj []);
          title = extractPanelTitle panel;
          panelId = or_else (get_prop ''panelIndex'' panel) (JStr (randomUUID w));
          attributes = or_else (get_prop ''attributes'' embeddableConfig) (JObj []);
          stamp = JStr (now w)
      in if panelType = Some (JStr ''lens'') then
           (let state = or_else (get_prop ''state'' attributes) (JObj []) in
            JObj [(''attributes'',
                     JObj [(''title'', title),
                           (''description'', or_else (get_prop ''description'' attributes) (JStr [])),
                           (''visualizationType'',
                              or_else (get_prop ''visualizationType'' attributes) (JStr ''lnsXY'')),
                           (''state'', JStr (JSON_stringify state))]),
                  (''type'', JStr ''lens''),
                  (''id'', panelId),
                  (''managed'', JBool False),
                  (''references'', or_else (get_prop ''references'' attributes) (JArr [])),
                  (''coreMigrationVersion'', JStr ''8.8.0''),
                  (''typeMigrationVersion'', JStr ''8.9.0''),
                  (''created_at'', stamp),
                  (''updated_at'', stamp)])
         else if panelType = Some (JStr ''visualization'') then
           (let savedVis = or_else (get_prop ''savedVis'' embeddableConfig) (JObj []);
                visState =
                  JObj [(''type'', or_else (get_prop ''type'' savedVis) (JStr ''markdown'')),
                        (''params'', or_else (get_prop ''params'' savedVis) (JObj [])),
                        (''aggs'',
                           or_else (opt_prop ''aggs'' (get_prop ''data'' savedVis)) (JArr [])),
                        (''title'', title)];
                searchSource =
                  or_else (opt_prop ''searchSource'' (get_prop ''data'' savedVis))
                    (JObj [(''query'', JObj [(''language'', JStr ''kuery''), (''query'', JStr [])]),
                           (''filter'', JArr [])])
            in
            JObj [(''attributes'',
                     JObj [(''title'', title),
                           (''visState'', JStr (JSON_stringify visState)),
                           (''uiStateJSON'',
                              JStr (JSON_stringify
                                (or_else (get_prop ''uiState'' savedVis) (JObj [])))),
                           (''description'', or_else (get_prop ''description'' savedVis) (JStr [])),
                           (''version'', JNum 1),
                           (''kibanaSavedObjectMeta'',
                              JObj [(''searchSourceJSON'', JStr (JSON_stringify searchSource))])]),
                  (''type'', JStr ''visualization''),
                  (''id'', panelId),
                  (''managed'', JBool False),
                  (''references'', JArr []),
                  (''coreMigrationVersion'', JStr ''8.8.0''),
                  (''typeMigrationVersion'', JStr ''8.5.0''),
                  (''created_at'', stamp),
                  (''updated_at'', stamp)])
         else if panelType = Some (JStr ''map'') then
           JObj [(''attributes'',
                    JObj [(''title'', title),
                          (''description'', or_else (get_prop ''description'' attributes) (JStr [])),
                          (''layerListJSON'',
                             encode_unless_string (get_prop ''layerListJSON'' attributes) (JArr [])),
                          (''mapStateJSON'',
                             encode_unless_string (get_prop ''mapStateJSON'' attributes) (JObj [])),
                          (''uiStateJSON'',
                             encode_unless_string (get_prop ''uiStateJSON'' attributes) (JObj []))]),
                 (''type'', JStr ''map''),
                 (''id'', panelId),
                 (''managed'', JBool False),
                 (''references'', or_else (get_prop ''references'' attributes) (JArr [])),
                 (''coreMigrationVersion'', JStr ''8.8.0''),
                 (''created_at'', stamp),
                 (''updated_at'', stamp)]
         else if panelType = Some (JStr ''search'') then
           JObj [(''attributes'',
                    obj [(''title'', Some title),
                         (''description'',
                            Some (or_else (get_prop ''description'' attributes) (JStr []))),
                         (''columns'', Some (or_else (get_prop ''columns'' attributes) (JArr []))),
                         (''sort'',
                            if is_array attributes then None
                            else Some (or_else (get_prop ''sort'' attributes) (JArr []))),
                         (''kibanaSavedObjectMeta'',
                            Some (or_else (get_prop ''kibanaSavedObjectMeta'' attributes)
                                    (JObj [(''searchSourceJSON'', JStr ''{}'')])))]),
                 (''type'', JStr ''search''),
                 (''id'', panelId),
                 (''managed'', JBool False),
                 (''references'', or_else (get_prop ''references'' attributes) (JArr [])),
                 (''coreMigrationVersion'', JStr ''8.8.0''),
                 (''created_at'', stamp),
                 (''updated_at'', stamp)]
         else
           obj [(''attributes'', Some (JObj (spread [(''title'', title)] attributes))),
                (''type'', panelType),
                (''id'', Some panelId),
                (''managed'', Some (JBool False)),
                (''references'', Some (or_else (get_prop ''references'' attributes) (JArr []))),
                (''coreMigrationVersion'', Some (JStr ''8.8.0'')),
                (''created_at'', Some stamp),
                (''updated_at'', Some stamp)])"

definition constructPanelExport :: "world \<Rightarrow> json \<Rightarrow> js_error + string" where
  "constructPanelExport w panel =
     (if panel = JNull then Inl TypeError
      else Inr (JSON_stringify (panelSavedObject w panel) @ [CHR 0x0A]
                @ JSON_stringify exportSummary))"

subsection \<open>Single-panel export\<close>

text \<open>
  \<^verbatim>\<open>exportEmbeddedPanel\<close>: the dashboard is read, \<^verbatim>\<open>dashboard.attributes?.panelsJSON\<close>
  must be truthy and parse to an array, and the panel is the first element whose
  \<^verbatim>\<open>panelIndex\<close> is strictly equal to the requested one (\<open>find_panel\<close> is
  \<^verbatim>\<open>panels.find\<close>); an element found that is falsy is reported as not found.  The
  dashboard title the function also computes is not used by \<^verbatim>\<open>constructPanelExport\<close>.
\<close>

definition panelsJSON_of :: "json \<Rightarrow> js_error + jsval" where
  "panelsJSON_of dashboard =
     (if dashboard = JNull then Inl TypeError
      else Inr (opt_prop ''panelsJSON'' (get_prop ''attributes'' dashboard)))"

definition parse_panels :: "json \<Rightarrow> js_error + json list" where
  "parse_panels panelsJSON =
     (case JSON_parse (js_toString panelsJSON) of
        None \<Rightarrow> Inl SyntaxError
      | Some (JArr ps) \<Rightarrow> Inr ps
      | Some _ \<Rightarrow> Inl TypeError)"

fun find_panel :: "json list \<Rightarrow> jsval \<Rightarrow> js_error + json option" where
  "find_panel [] panelIndex = Inr None"
| "find_panel (p # ps) panelIndex =
     (if p = JNull then Inl TypeError
      else if strict_eq (get_prop ''panelIndex'' p) panelIndex then Inr (Some p)
      else find_panel ps panelIndex)"

definition exportEmbeddedPanel ::
  "world \<Rightarrow> jsval \<Rightarrow> jsval \<Rightarrow> http_request list \<times> (js_error + string)" where
  "exportEmbeddedPanel w dashboardId panelIndex =
     (case fetchDashboardData w dashboardId of
        (calls, Inl e) \<Rightarrow> (calls, Inl e)
      | (calls, Inr dashboard) \<Rightarrow>
          (calls,
           case panelsJSON_of dashboard of
             Inl e \<Rightarrow> Inl e
           | Inr panelsJSON \<Rightarrow>
               if \<not> truthy panelsJSON then Inl (Error ''Dashboard has no panels'')
               else (case parse_panels (the panelsJSON) of
                       Inl e \<Rightarrow> Inl e
                     | Inr panels \<Rightarrow>
                         (case find_panel panels panelIndex of
                            Inl e \<Rightarrow> Inl e
                          | Inr None \<Rightarrow>
                              Inl (Error (''Panel '' @ template panelIndex
                                          @ '' not found in dashboard''))
                          | Inr (Some panel) \<Rightarrow>
                              if \<not> truthy (Some panel) then
                                Inl (Error (''Panel '' @ template panelIndex
                                            @ '' not found in dashboard''))
                              else constructPanelExport w panel))))"

subsection \<open>Panel harvester, API path\<close>

text \<open>
  \<^verbatim>\<open>getEmbeddedPanelsFromAPI\<close>.  A \<^verbatim>\<open>null\<close> entry of the panel list raises a
  \<^verbatim>\<open>TypeError\<close>, in the comparator or else in the loop.
\<close>

record api_panel =
  ap_type :: jsval
  ap_subType :: subtype
  ap_id :: jsval
  ap_title :: json
  ap_panelIndex :: jsval
  ap_dashboardId :: jsval
  ap_isEmbedded :: bool

definition grid_of :: "json \<Rightarrow> json" where
  "grid_of panel = or_else (get_prop ''gridData'' panel) (JObj [(''y'', JNum 0), (''x'', JNum 0)])"

definition grid_compare :: "json \<Rightarrow> json \<Rightarrow> extended option" where
  "grid_compare a b =
     (let aGrid = grid_of a; bGrid = grid_of b
      in if \<not> strict_eq (get_prop ''y'' aGrid) (get_prop ''y'' bGrid)
         then js_minus (get_prop ''y'' aGrid) (get_prop ''y'' bGrid)
         else js_minus (get_prop ''x'' aGrid) (get_prop ''x'' bGrid))"

definition panel_resource :: "jsval \<Rightarrow> json \<Rightarrow> js_error + api_panel" where
  "panel_resource dashboardId panel =
     (if panel = JNull then Inl TypeError
      else (case extractPanelSubType panel of
              Inl e \<Rightarrow> Inl e
            | Inr subType \<Rightarrow>
                Inr \<lparr>ap_type = get_prop ''type'' panel, ap_subType = subType, ap_id = Some JNull,
                     ap_title = extractPanelTitle panel,
                     ap_panelIndex = get_prop ''panelIndex'' panel,
                     ap_dashboardId = dashboardId, ap_isEmbedded = True\<rparr>))"

fun panel_resources :: "jsval \<Rightarrow> json list \<Rightarrow> js_error + api_panel list" where
  "panel_resources dashboardId [] = Inr []"
| "panel_resources dashboardId (p # ps) =
     (case panel_resource dashboardId p of
        Inl e \<Rightarrow> Inl e
      | Inr r \<Rightarrow>
          (case panel_resources dashboardId ps of
             Inl e \<Rightarrow> Inl e
           | Inr rs \<Rightarrow> Inr (r # rs)))"

definition getEmbeddedPanelsFromAPI ::
  "world \<Rightarrow> jsval \<Rightarrow> http_request list \<times> (js_error + api_panel list)" where
  "getEmbeddedPanelsFromAPI w dashboardId =
     (case fetchDashboardData w dashboardId of
        (calls, Inl e) \<Rightarrow> (calls, Inl e)
      | (calls, Inr dashboard) \<Rightarrow>
          (calls,
           case panelsJSON_of dashboard of
             Inl e \<Rightarrow> Inl e
           | Inr panelsJSON \<Rightarrow>
               if \<not> truthy panelsJSON then Inr []
               else (case parse_panels (the panelsJSON) of
                       Inl e \<Rightarrow> Inl e
                     | Inr panels \<Rightarrow>
                         if JNull \<in> set panels then Inl TypeError
                         else panel_resources dashboardId (js_sort grid_compare panels))))"

subsection \<open>Panel harvester, DOM path\<close>

text \<open>
  \<^verbatim>\<open>detectEmbeddedPanels\<close>: the first selector with a match supplies the containers,
  those for which \<^verbatim>\<open>extractPanelInfo\<close> returns a descriptor are kept with their position,
  sorted, and returned without the position.
\<close>

definition panelSelectors :: "string list" where
  "panelSelectors =
     [''[data-test-subj=\"embeddablePanel\"]'', ''.embPanel'', ''[data-test-embeddable-id]'',
      ''.dshDashboardGrid__item'']"

fun first_nonempty :: "(string \<Rightarrow> element list) \<Rightarrow> string list \<Rightarrow> element list" where
  "first_nonempty q [] = []"
| "first_nonempty q (s # ss) = (if q s \<noteq> [] then q s else first_nonempty q ss)"

fun collect_panels :: "element list \<Rightarrow> js_error + (panel_info \<times> real \<times> real) list" where
  "collect_panels [] = Inr []"
| "collect_panels (e # es) =
     (case el_info e of
        Inl err \<Rightarrow> Inl err
      | Inr info \<Rightarrow>
          (case collect_panels es of
             Inl err \<Rightarrow> Inl err
           | Inr rest \<Rightarrow>
               (case info of
                  None \<Rightarrow> Inr rest
                | Some i \<Rightarrow> Inr ((i, el_top e, el_left e) # rest))))"

definition position_compare ::
  "panel_info \<times> real \<times> real \<Rightarrow> panel_info \<times> real \<times> real \<Rightarrow> real option" where
  "position_compare a b =
     (let rowDiff = fst (snd a) - fst (snd b)
      in if \<bar>rowDiff\<bar> > 50 then Some rowDiff else Some (snd (snd a) - snd (snd b)))"

definition detectEmbeddedPanels :: "world \<Rightarrow> js_error + panel_info list" where
  "detectEmbeddedPanels w =
     (case collect_panels (first_nonempty (querySelectorAll w) panelSelectors) of
        Inl e \<Rightarrow> Inl e
      | Inr panels \<Rightarrow> Inr (map fst (js_sort position_compare panels)))"

subsection \<open>Resource aggregator\<close>

text \<open>
  \<^verbatim>\<open>getAllResources\<close>, with its \<^verbatim>\<open>try\<close> around the API harvest and the DOM harvest
  in the \<^verbatim>\<open>catch\<close>.
\<close>

datatype resource = Primary detected | EmbeddedPanel api_panel | DomPanel panel_info

definition getAllResources :: "world \<Rightarrow> http_request list \<times> (js_error + resource list)" where
  "getAllResources w =
     (let mainResource = detectSavedObject w;
          resources = (case mainResource of None \<Rightarrow> [] | Some m \<Rightarrow> [Primary m])
      in case mainResource of
           None \<Rightarrow> ([], Inr resources)
         | Some m \<Rightarrow>
             if js_includes ''/app/dashboards'' (href w) \<and> d_id m \<noteq> [] then
               (case getEmbeddedPanelsFromAPI w (Some (JStr (d_id m))) of
                  (calls, Inr panels) \<Rightarrow> (calls, Inr (resources @ map EmbeddedPanel panels))
                | (calls, Inl e) \<Rightarrow>
                    (calls,
                     case detectEmbeddedPanels w of
                       Inl e' \<Rightarrow> Inl e'
                     | Inr domPanels \<Rightarrow> Inr (resources @ map DomPanel domPanels)))
             else ([], Inr resources))"

subsection \<open>Message handlers\<close>

text \<open>
  The message handlers for \<^verbatim>\<open>getAllResources\<close> and \<^verbatim>\<open>exportSavedObject\<close>.  A
  request's fields are JSON values or absent.  \<open>ExportFailure e\<close> stands for
  \<^verbatim>\<open>{success: false, error: e.message}\<close>.
\<close>

definition handle_getAllResources :: "world \<Rightarrow> resource list" where
  "handle_getAllResources w =
     (case snd (getAllResources w) of Inl e \<Rightarrow> [] | Inr resources \<Rightarrow> resources)"

record export_request =
  r_type :: jsval
  r_id :: jsval
  r_title :: jsval
  r_panelIndex :: jsval
  r_dashboardId :: jsval
  r_isEmbedded :: jsval
  r_useAlternativeApi :: jsval

definition export_content ::
  "world \<Rightarrow> export_request \<Rightarrow> http_request list \<times> (js_error + string \<times> string)" where
  "export_content w r =
     (if truthy (r_isEmbedded r) \<and> truthy (r_dashboardId r) \<and> truthy (r_panelIndex r) then
        (case exportEmbeddedPanel w (r_dashboardId r) (r_panelIndex r) of
           (calls, Inl e) \<Rightarrow> (calls, Inl e)
         | (calls, Inr content) \<Rightarrow> (calls, Inr (content, ''ndjson'')))
      else if truthy (r_useAlternativeApi r)
              \<and> lookup ALTERNATIVE_API_TYPES (template (r_type r)) \<noteq> Missing then
        (case exportViaAlternativeApi w (r_type r) (r_id r) of
           (calls, Inl e) \<Rightarrow> (calls, Inl e)
         | (calls, Inr content) \<Rightarrow>
             (calls,
              case lookup ALTERNATIVE_API_TYPES (template (r_type r)) of
                Own cfg \<Rightarrow>
                  Inr (content, if fileExtension cfg = [] then ''json'' else fileExtension cfg)
              | _ \<Rightarrow> Inr (content, ''json'')))
      else if truthy (r_id r) then
        (case exportSavedObject w (r_type r) (r_id r) of
           (calls, Inl e) \<Rightarrow> (calls, Inl e)
         | (calls, Inr content) \<Rightarrow> (calls, Inr (content, ''ndjson'')))
      else ([], Inl (Error ''No valid export target specified'')))"

definition handle_exportSavedObject ::
  "world \<Rightarrow> export_request \<Rightarrow> http_request list \<times> export_response" where
  "handle_exportSavedObject w r =
     (case export_content w r of
        (calls, Inl e) \<Rightarrow> (calls, ExportFailure e)
      | (calls, Inr (content, ext)) \<Rightarrow>
          (calls,
           case sendMessage w \<lparr>dl_content = content, dl_title = r_title r, dl_type = r_type r,
                                dl_fileExtension = ext\<rparr> of
             Inl e \<Rightarrow> ExportFailure e
           | Inr downloadResponse \<Rightarrow> downloadResponse))"

subsection \<open>Notions used in the statements\<close>

text \<open>
  The endpoint a request reaches.  \<^verbatim>\<open>fetch\<close> parses the URL before it sends the
  request: control characters and spaces at the end are dropped, tabs and line breaks are
  removed, the path ends at the first \<open>?\<close> or \<open>#\<close>, it is split at \<open>/\<close> and at the backslash, and its
  dot segments are resolved: \<open>.\<close> and \<open>%2e\<close> are skipped, \<open>..\<close> and its percent-encoded
  spellings remove the segment before them.  \<open>baseUrl\<close> is an origin, which the parser
  leaves as it is, and the text the script appends to it begins with a slash; so the path
  is parsed from that text.  The parser also percent-encodes some characters of a segment;
  none of them occurs in the name of an endpoint, so a segment is compared with such a name
  as it is written.  What the server makes of a path is not modelled.

  A request is a bulk export call when it is a \<^verbatim>\<open>POST\<close> whose path is that of the export
  endpoint, and an alternate read when its path starts with the \<open>apiPath\<close> of an entry of
  the alternate-type table.
\<close>

definition url_trim :: "string \<Rightarrow> string" where
  "url_trim t =
     filter (\<lambda>c. c \<notin> set [CHR 0x09, CHR 0x0A, CHR 0x0D])
       (rev (dropWhile (\<lambda>c. (of_char c :: nat) \<le> 0x20) (rev t)))"

definition path_text :: "string \<Rightarrow> string" where
  "path_text t = takeWhile (\<lambda>c. c \<noteq> CHR ''?'' \<and> c \<noteq> CHR ''#'') (url_trim t)"

definition is_slash :: "char \<Rightarrow> bool" where
  "is_slash c \<longleftrightarrow> c = CHR ''/'' \<or> c = CHR 0x5C"

fun split_path :: "string \<Rightarrow> string list" where
  "split_path [] = [[]]"
| "split_path (c # cs) =
     (if is_slash c then [] # split_path cs
      else (case split_path cs of [] \<Rightarrow> [[c]] | s # ss \<Rightarrow> (c # s) # ss))"

definition single_dot :: "string \<Rightarrow> bool" where
  "single_dot s \<longleftrightarrow> s = ''.'' \<or> map lower_ascii s = ''%2e''"

definition double_dot :: "string \<Rightarrow> bool" where
  "double_dot s \<longleftrightarrow>
     s = ''..'' \<or> map lower_ascii s \<in> set [''.%2e'', ''%2e.'', ''%2e%2e'']"

fun resolve_segments :: "string list \<Rightarrow> string list \<Rightarrow> string list" where
  "resolve_segments path [] = path"
| "resolve_segments path (s # ss) =
     (if double_dot s then
        (if ss = [] then butlast path @ [[]] else resolve_segments (butlast path) ss)
      else if single_dot s then
        (if ss = [] then path @ [[]] else resolve_segments path ss)
      else resolve_segments (path @ [s]) ss)"

definition target_path :: "string \<Rightarrow> string list" where
  "target_path t = resolve_segments [] (tl (split_path (path_text t)))"

definition call_path :: "world \<Rightarrow> http_request \<Rightarrow> string list" where
  "call_path w c = target_path (drop (length (baseUrl w)) (req_url c))"




definition has_dot_segment :: "string \<Rightarrow> bool" where
  "has_dot_segment t \<longleftrightarrow>
     list_ex (\<lambda>s. single_dot s \<or> double_dot s) (split_path (path_text t))"

text \<open>
  The test the handler makes on the three embedded fields, the grid position of a panel
  and the order on positions, the offsets of a harvested panel and the order the
  specification describes for them.  A grid position is made of two plain numbers: numbers
  of at most 15 significant digits that are not below \<open>10\<^sup>-\<^sup>3\<^sup>0\<^sup>0\<close> in magnitude.  The
  64-bit floats of the engine tell two such numbers apart and put them in the order of
  their exact values, so the comparator of the harvester has the sign it has here.
\<close>

definition embedded_fields :: "export_request \<Rightarrow> bool" where
  "embedded_fields r \<longleftrightarrow>
     truthy (r_isEmbedded r) \<and> truthy (r_dashboardId r) \<and> truthy (r_panelIndex r)"

definition is_number :: "json \<Rightarrow> bool" where
  "is_number x = (case x of JNum i \<Rightarrow> True | JFrac neg q d k \<Rightarrow> True | _ \<Rightarrow> False)"

definition is_plain_number :: "json \<Rightarrow> bool" where
  "is_plain_number x =
     (case x of
        JNum i \<Rightarrow> \<bar>i\<bar> < 10 ^ 15
      | JFrac neg q d k \<Rightarrow> 10 * q + digit_of d < 10 ^ 15 \<and> k < 300
      | _ \<Rightarrow> False)"

definition grid_key :: "json \<Rightarrow> (real \<times> real) option" where
  "grid_key panel =
     (case (get_prop ''y'' (grid_of panel), get_prop ''x'' (grid_of panel)) of
        (Some y, Some x) \<Rightarrow>
          if is_plain_number y \<and> is_plain_number x
          then Some (number_value y, number_value x) else None
      | _ \<Rightarrow> None)"




definition pos_top :: "panel_info \<times> real \<times> real \<Rightarrow> real" where
  "pos_top a = fst (snd a)"

definition pos_left :: "panel_info \<times> real \<times> real \<Rightarrow> real" where
  "pos_left a = snd (snd a)"

definition same_row :: "panel_info \<times> real \<times> real \<Rightarrow> panel_info \<times> real \<times> real \<Rightarrow> bool" where
  "same_row a b \<longleftrightarrow> \<bar>pos_top a - pos_top b\<bar> \<le> 50"

definition dom_order :: "panel_info \<times> real \<times> real \<Rightarrow> panel_info \<times> real \<times> real \<Rightarrow> bool" where
  "dom_order a b = (if same_row a b then pos_left a \<le> pos_left b else pos_top a < pos_top b)"

text \<open>
  What it means for a pattern of the table to occur in a URL: its prefix is followed by
  at least one character that is not a stop character.  This is the meaning of the regular
  expression, stated without reference to how \<open>match_pattern\<close> scans.
\<close>

definition regex_matches :: "pattern \<Rightarrow> string \<Rightarrow> bool" where
  "regex_matches p url \<longleftrightarrow>
     (\<exists>pre c post. url = pre @ pat_prefix p @ c # post \<and> c \<notin> set (pat_stops p))"

text \<open>
  The identifier as the specification words it: the text between the known prefix and the
  first \<open>?\<close>, \<open>&\<close> or fragment mark \<open>#\<close>.
\<close>

fun after_prefix :: "string \<Rightarrow> string \<Rightarrow> string option" where
  "after_prefix p [] = (if p = [] then Some [] else None)"
| "after_prefix p (c # cs) =
     (if take (length p) (c # cs) = p then Some (drop (length p) (c # cs))
      else after_prefix p cs)"

definition claimed_id :: "string \<Rightarrow> string \<Rightarrow> string option" where
  "claimed_id p url = map_option (takeWhile (\<lambda>c. c \<notin> set ''?&#'')) (after_prefix p url)"





definition decoded :: "jsval \<Rightarrow> json option" where
  "decoded v = (case v of Some (JStr s) \<Rightarrow> JSON_parse s | _ \<Rightarrow> None)"



subsection \<open>Example pages and requests\<close>

text \<open>Concrete pages, dashboards and requests on which the theorems below are instantiated.\<close>

definition ok_response :: "string \<Rightarrow> http_response" where
  "ok_response body =
     \<lparr>resp_ok = True, resp_status = 200, resp_statusText = ''OK'', resp_text = body\<rparr>"

definition page ::
  "string \<Rightarrow> (http_request \<Rightarrow> http_response option) \<Rightarrow> (string \<Rightarrow> element list) \<Rightarrow> world" where
  "page url net els =
     \<lparr>href = url, baseUrl = ''https://kibana.example'', pageTitle = Some ''Sales overview'',
      fetch = net, querySelectorAll = els, now = ''2024-01-01T00:00:00.000Z'',
      randomUUID = ''123e4567-e89b-42d3-a456-426614174000'',
      sendMessage = (\<lambda>m. Inr (ExportSuccess (''export.'' @ dl_fileExtension m)))\<rparr>"

definition lens_panel :: json where
  "lens_panel =
     JObj [(''type'', JStr ''lens''), (''panelIndex'', JStr ''p1''),
           (''gridData'', JObj [(''x'', JNum 1), (''y'', JNum 0)]),
           (''embeddableConfig'',
              JObj [(''attributes'',
                       JObj [(''title'', JStr ''Sales''), (''description'', JStr ''Revenue''),
                             (''visualizationType'', JStr ''lnsXY''),
                             (''state'', JObj [(''query'', JStr ''a:b'')])])])]"

definition plain_request :: "string \<Rightarrow> jsval \<Rightarrow> jsval \<Rightarrow> export_request" where
  "plain_request ty ident flag =
     \<lparr>r_type = Some (JStr ty), r_id = ident, r_title = Some (JStr ''Sales overview''),
      r_panelIndex = None, r_dashboardId = None, r_isEmbedded = None,
      r_useAlternativeApi = flag\<rparr>"

definition serving :: "string \<Rightarrow> http_request \<Rightarrow> http_response option" where
  "serving body req = Some (ok_response body)"

definition dashboard_doc :: "json list \<Rightarrow> json" where
  "dashboard_doc panels =
     JObj [(''id'', JStr ''abc-123''), (''type'', JStr ''dashboard''),
           (''attributes'',
              JObj [(''title'', JStr ''Sales overview''),
                    (''panelsJSON'', JStr (JSON_stringify (JArr panels)))])]"

definition dash_url :: string where
  "dash_url = ''https://kibana.example/app/dashboards#/view/abc-123?x=1''"

definition dash_world :: world where
  "dash_world = page dash_url (serving (JSON_stringify (dashboard_doc [lens_panel]))) (\<lambda>sel. [])"



definition cases_url :: string where
  "cases_url = ''https://kibana.example/app/security/cases/42''"

definition home_url :: string where
  "home_url = ''https://kibana.example/app/home''"

definition offline :: "http_request \<Rightarrow> http_response option" where
  "offline req = None"

definition broken_element :: element where
  "broken_element = \<lparr>el_info = Inl TypeError, el_top = 0, el_left = 0\<rparr>"

definition bare_dashboard :: json where
  "bare_dashboard =
     JObj [(''id'', JStr ''abc-123''), (''type'', JStr ''dashboard''),
           (''attributes'', JObj [(''title'', JStr ''Sales overview'')])]"

definition dom_panel :: "string \<Rightarrow> panel_info" where
  "dom_panel name = \<lparr>pi_type = ''lens'', pi_id = None, pi_title = name\<rparr>"

definition element_at :: "panel_info \<Rightarrow> real \<Rightarrow> real \<Rightarrow> element" where
  "element_at info t l = \<lparr>el_info = Inr (Some info), el_top = t, el_left = l\<rparr>"

definition dashboard_descriptor :: detected where
  "dashboard_descriptor =
     \<lparr>d_type = ''dashboard'', d_id = ''abc-123'', d_title = Some ''Sales overview'',
      d_url = dash_url, d_useAlternativeApi = False, d_notExportable = False,
      d_notExportableReason = None\<rparr>"

definition grid_panel :: "string \<Rightarrow> int \<Rightarrow> int \<Rightarrow> json" where
  "grid_panel name y x =
     JObj [(''type'', JStr ''lens''), (''panelIndex'', JStr name),
           (''gridData'', JObj [(''x'', JNum x), (''y'', JNum y), (''w'', JNum 24), (''h'', JNum 15)]),
           (''embeddableConfig'', JObj [(''title'', JStr name)])]"



definition grid_resource :: "string \<Rightarrow> api_panel" where
  "grid_resource name =
     \<lparr>ap_type = Some (JStr ''lens''), ap_subType = SubNull, ap_id = Some JNull,
      ap_title = JStr name, ap_panelIndex = Some (JStr name),
      ap_dashboardId = Some (JStr ''abc-123''), ap_isEmbedded = True\<rparr>"

definition bare_grid_panel :: "string \<Rightarrow> json" where
  "bare_grid_panel name =
     JObj [(''type'', JStr ''lens''), (''panelIndex'', JStr name), (''gridData'', JObj []),
           (''embeddableConfig'', JObj [(''title'', JStr name)])]"

definition gap_panels :: "json list" where
  "gap_panels = [grid_panel ''row1'' 1 0, bare_grid_panel ''nogrid'', grid_panel ''row0'' 0 0]"

definition gap_world :: world where
  "gap_world = page dash_url (serving (JSON_stringify (dashboard_doc gap_panels))) (\<lambda>sel. [])"

definition half_panel :: "string \<Rightarrow> json \<Rightarrow> json" where
  "half_panel name y =
     JObj [(''type'', JStr ''lens''), (''panelIndex'', JStr name),
           (''gridData'', JObj [(''x'', JNum 0), (''y'', y)]),
           (''embeddableConfig'', JObj [(''title'', JStr name)])]"

definition half_row_text :: string where
  "half_row_text =
     ''[{\"type\":\"lens\",\"panelIndex\":\"low\",\"gridData\":{\"x\":0,\"y\":2.5e0},''
     @ ''\"embeddableConfig\":{\"title\":\"low\"}},''
     @ ''{\"type\":\"lens\",\"panelIndex\":\"high\",\"gridData\":{\"x\":0,\"y\":0.5},''
     @ ''\"embeddableConfig\":{\"title\":\"high\"}}]''"

definition text_dashboard :: "string \<Rightarrow> json" where
  "text_dashboard panelsText =
     JObj [(''id'', JStr ''abc-123''), (''type'', JStr ''dashboard''),
           (''attributes'',
              JObj [(''title'', JStr ''Sales overview''), (''panelsJSON'', JStr panelsText)])]"

definition half_row_world :: world where
  "half_row_world =
     page dash_url (serving (JSON_stringify (text_dashboard half_row_text))) (\<lambda>sel. [])"

definition staircase :: "string \<Rightarrow> element list" where
  "staircase sel =
     [element_at (dom_panel ''A'') 0 100, element_at (dom_panel ''B'') 40 50,
      element_at (dom_panel ''C'') 80 0]"

definition two_rows :: "string \<Rightarrow> element list" where
  "two_rows sel =
     [element_at (dom_panel ''right'') 0 200, element_at (dom_panel ''left'') 10 0,
      element_at (dom_panel ''below'') 300 50]"

definition slo_url :: string where
  "slo_url = ''https://kibana.example/app/slos/abc/history''"



section \<open>Properties\<close>

subsection \<open>\<open>JSON.parse\<close> inverts \<open>JSON.stringify\<close>\<close>

declare parse_value.simps [simp del] parse_elems.simps [simp del] parse_members.simps [simp del]

lemma is_digit_char_of: "d < 10 \<Longrightarrow> is_digit (char_of (48 + (d::nat)))"
  by (simp add: is_digit_def)

lemma digits_ne: "digits n \<noteq> []"
  by (subst digits.simps) simp

lemma digits_all: "c \<in> set (digits n) \<Longrightarrow> is_digit c"
proof (induction n arbitrary: c rule: digits.induct)
  case (1 n)
  show ?case
  proof (cases "n < 10")
    case True
    with "1.prems" show ?thesis
      by (subst (asm) digits.simps) (auto simp: is_digit_def)
  next
    case False
    with "1.prems" have "c \<in> set (digits (n div 10)) \<or> c = char_of (48 + n mod 10)"
      by (subst (asm) digits.simps) auto
    then show ?thesis
      using "1.IH" [OF False] by (auto simp: is_digit_char_of)
  qed
qed

lemma foldl_digits: "foldl digit_step acc (digits n) = acc * 10 ^ length (digits n) + n"
proof (induction n arbitrary: acc rule: digits.induct)
  case (1 n)
  show ?case
  proof (cases "n < 10")
    case True
    then show ?thesis
      by (subst (1 2) digits.simps) (simp add: digit_step_def)
  next
    case False
    have "foldl digit_step acc (digits n)
        = digit_step (foldl digit_step acc (digits (n div 10))) (char_of (48 + n mod 10))"
      using False by (subst digits.simps) simp
    also have "\<dots> = 10 * (acc * 10 ^ length (digits (n div 10)) + n div 10) + n mod 10"
      by (simp add: "1.IH" [OF False] digit_step_def)
    also have "\<dots> = acc * 10 ^ length (digits n) + n"
      using False by (subst (2) digits.simps) (simp add: algebra_simps)
    finally show ?thesis .
  qed
qed

lemma nat_of_digits_digits [simp]: "nat_of_digits (digits n) = n"
  by (simp add: nat_of_digits_def foldl_digits)

lemma foldl_digit_step:
  "foldl digit_step acc ds = acc * 10 ^ length ds + nat_of_digits ds"
proof (induction ds arbitrary: acc)
  case Nil
  show ?case by (simp add: nat_of_digits_def)
next
  case (Cons c cs)
  have "foldl digit_step acc (c # cs) = digit_step acc c * 10 ^ length cs + nat_of_digits cs"
    using Cons.IH [of "digit_step acc c"] by simp
  moreover have "nat_of_digits (c # cs) = digit_step 0 c * 10 ^ length cs + nat_of_digits cs"
    using Cons.IH [of "digit_step 0 c"] by (simp add: nat_of_digits_def)
  moreover have "digit_step acc c = acc * 10 + digit_step 0 c"
    by (simp add: digit_step_def)
  ultimately have "foldl digit_step acc (c # cs)
      = acc * 10 * 10 ^ length cs + nat_of_digits (c # cs)"
    by (simp only: algebra_simps)
  then show ?case by simp
qed

lemma nat_of_digits_append:
  "nat_of_digits (a @ b) = nat_of_digits a * 10 ^ length b + nat_of_digits b"
  using foldl_digit_step [of "nat_of_digits a" b] by (simp add: nat_of_digits_def)

lemma nat_of_digits_zeros [simp]: "nat_of_digits (replicate z CHR ''0'') = 0"
proof (induction z)
  case 0
  show ?case by (simp add: nat_of_digits_def)
next
  case (Suc z)
  have "nat_of_digits (CHR ''0'' # replicate z CHR ''0'')
          = nat_of_digits [CHR ''0''] * 10 ^ z + nat_of_digits (replicate z CHR ''0'')"
    using nat_of_digits_append [of "[CHR ''0'']" "replicate z CHR ''0''"] by simp
  then show ?case
    using Suc by (simp add: nat_of_digits_def digit_step_def)
qed

lemma digits_zero: "digits 0 = ''0''"
  by (subst digits.simps) (simp add: char_of_eq_iff)

lemma digits_hd_nonzero: "0 < n \<Longrightarrow> hd (digits n) \<noteq> CHR ''0''"
proof (induction n rule: digits.induct)
  case (1 n)
  show ?case
  proof (cases "n < 10")
    case True
    with "1.prems" show ?thesis
      by (subst digits.simps) (simp add: char_of_eq_iff take_bit_eq_mod)
  next
    case False
    then have "0 < n div 10" by simp
    from "1.IH" [OF False this] show ?thesis
      using False digits_ne [of "n div 10"] by (subst digits.simps) simp
  qed
qed

lemma span_digits:
  assumes "\<forall>c\<in>set ds. is_digit c" and "\<not> starts_with is_digit r"
  shows "takeWhile is_digit (ds @ r) = ds" and "dropWhile is_digit (ds @ r) = r"
proof -
  have "takeWhile is_digit r = []" "dropWhile is_digit r = r"
    using assms(2) by (cases r; simp add: starts_with_def)+
  then show "takeWhile is_digit (ds @ r) = ds" "dropWhile is_digit (ds @ r) = r"
    using assms(1) by (simp_all add: takeWhile_append2 dropWhile_append2)
qed

lemma parse_sign_text:
  assumes "ip \<noteq> []" and "\<forall>c\<in>set ip. is_digit c"
  shows "parse_sign ((if neg then ''-'' else []) @ ip @ t) = (neg, ip @ t)"
proof -
  obtain c cs where ip: "ip = c # cs" using assms(1) by (cases ip) auto
  then have "is_digit c" using assms(2) by simp
  then have "c \<noteq> CHR ''-''" by (auto simp: is_digit_def)
  then show ?thesis
    by (simp add: parse_sign_def ip)
qed

lemma parse_fraction_none:
  "\<not> starts_with (\<lambda>e. e = CHR ''.'') t \<Longrightarrow> parse_fraction t = Some ([], t)"
  by (cases t) (simp_all add: parse_fraction_def starts_with_def)

lemma parse_fraction_some:
  assumes "fp \<noteq> []" and "\<forall>c\<in>set fp. is_digit c" and "\<not> starts_with is_digit t"
  shows "parse_fraction (CHR ''.'' # fp @ t) = Some (fp, t)"
  using assms span_digits [OF assms(2,3)] by (simp add: parse_fraction_def)

lemma parse_exponent_none:
  "\<not> starts_with (\<lambda>e. e = CHR ''e'' \<or> e = CHR ''E'') r \<Longrightarrow> parse_exponent r = Some (0, r)"
  by (cases r) (simp_all add: parse_exponent_def starts_with_def)

lemma parse_exponent_some:
  assumes "\<not> starts_with is_digit r"
  shows "parse_exponent (CHR ''e'' # (if 0 \<le> x then CHR ''+'' else CHR ''-'') # digits (nat \<bar>x\<bar>) @ r)
           = Some (x, r)"
proof -
  have all: "\<forall>c\<in>set (digits (nat \<bar>x\<bar>)). is_digit c"
    using digits_all by blast
  note sp = span_digits [OF all assms]
  show ?thesis
    using sp digits_ne [of "nat \<bar>x\<bar>"]
    by (cases "0 \<le> x") (simp_all add: parse_exponent_def Let_def)
qed

lemma parse_number_parts:
  assumes ip: "ip \<noteq> []" "\<forall>c\<in>set ip. is_digit c" "hd ip = CHR ''0'' \<longrightarrow> tl ip = []"
    and fp: "\<forall>c\<in>set fp. is_digit c"
    and t: "parse_exponent t = Some (x, r)" "\<not> starts_with (\<lambda>e. is_digit e \<or> e = CHR ''.'') t"
  shows "parse_number ((if neg then ''-'' else []) @ ip @ (if fp = [] then [] else CHR ''.'' # fp) @ t)
           = Some (decimal neg (nat_of_digits (ip @ fp)) (x - int (length fp)), r)"
proof -
  let ?frac = "(if fp = [] then [] else CHR ''.'' # fp) @ t"
  have t_nd: "\<not> starts_with is_digit t" and t_ndot: "\<not> starts_with (\<lambda>e. e = CHR ''.'') t"
    using t(2) by (cases t; simp add: starts_with_def)+
  have frac_nd: "\<not> starts_with is_digit ?frac"
    using t_nd by (simp add: starts_with_def is_digit_def)
  have sign: "parse_sign ((if neg then ''-'' else []) @ ip @ ?frac) = (neg, ip @ ?frac)"
    by (rule parse_sign_text [OF ip(1,2)])
  have int_part: "takeWhile is_digit (ip @ ?frac) = ip" "dropWhile is_digit (ip @ ?frac) = ?frac"
    by (rule span_digits [OF ip(2) frac_nd])+
  have frac: "parse_fraction ?frac = Some (fp, t)"
  proof (cases "fp = []")
    case True
    then show ?thesis using parse_fraction_none [OF t_ndot] by simp
  next
    case False
    then show ?thesis using parse_fraction_some [OF False fp t_nd] by simp
  qed
  show ?thesis
    using ip(1,3) by (simp add: parse_number_def sign int_part frac t(1) Let_def)
qed

lemma strip_zeros_decomp:
  "strip_zeros ds @ replicate (length ds - length (strip_zeros ds)) CHR ''0'' = ds"
proof -
  let ?P = "\<lambda>c. c = CHR ''0''"
  let ?z = "takeWhile ?P (rev ds)"
  have z: "replicate (length ?z) CHR ''0'' = ?z"
    by (rule replicate_length_same) (auto dest: set_takeWhileD)
  have "strip_zeros ds @ rev ?z = rev (?z @ dropWhile ?P (rev ds))"
    by (simp only: strip_zeros_def rev_append)
  also have "\<dots> = rev (rev ds)"
    by (simp only: takeWhile_dropWhile_id)
  finally have split: "ds = strip_zeros ds @ rev ?z"
    by simp
  then have "length ds = length (strip_zeros ds) + length ?z"
    by (metis length_append length_rev)
  then have "replicate (length ds - length (strip_zeros ds)) CHR ''0'' = rev ?z"
    using z by (metis add_diff_cancel_left' rev_replicate)
  with split show ?thesis by simp
qed

lemma strip_zeros_ne: "ds \<noteq> [] \<Longrightarrow> hd ds \<noteq> CHR ''0'' \<Longrightarrow> strip_zeros ds \<noteq> []"
proof -
  assume "ds \<noteq> []" "hd ds \<noteq> CHR ''0''"
  then have "\<exists>x\<in>set (rev ds). x \<noteq> CHR ''0''"
    by (cases ds) auto
  then show ?thesis
    by (simp add: strip_zeros_def dropWhile_eq_Nil_conv)
qed

lemma strip_zeros_hd:
  assumes "ds \<noteq> []" and "hd ds \<noteq> CHR ''0''"
  shows "hd (strip_zeros ds) = hd ds"
  using strip_zeros_decomp [of ds] strip_zeros_ne [OF assms] by (metis hd_append2)

lemma strip_zeros_subset: "set (strip_zeros ds) \<subseteq> set ds"
  by (auto simp: strip_zeros_def dest: set_dropWhileD)

lemma strip_zeros_length: "length (strip_zeros ds) \<le> length ds"
  by (simp add: strip_zeros_def length_dropWhile_le [of _ "rev ds", simplified])

lemma digit_of_range: "0 < digit_of d" "digit_of d < 10"
  by (cases d; simp)+

lemma nzdigit_of_digit_of [simp]: "nzdigit_of (digit_of d) = d"
  by (cases d) (simp_all add: nzdigit_of_def)

lemma decimal_frac: "decimal neg (10 * q + digit_of d) (- int (Suc k)) = JFrac neg q d k"
proof -
  have "(10 * q + digit_of d) mod 10 = digit_of d" "(10 * q + digit_of d) div 10 = q"
    using digit_of_range [of d] by simp_all
  moreover have "decimal neg (10 * q + digit_of d) (- int (Suc k))
                   = scale_down neg (10 * q + digit_of d) (Suc k)"
    by (simp add: decimal_def del: of_nat_Suc)
  ultimately show ?thesis
    using digit_of_range [of d] by simp
qed

lemma num_delim_D:
  assumes "num_delim r"
  shows "\<not> starts_with is_digit r" "\<not> starts_with (\<lambda>e. e = CHR ''.'') r"
    "\<not> starts_with (\<lambda>e. e = CHR ''e'' \<or> e = CHR ''E'') r"
    "\<not> starts_with (\<lambda>e. is_digit e \<or> e = CHR ''.'') r"
  using assms by (cases r; simp add: num_delim_def starts_with_def)+

lemma exponent_tail:
  "\<not> starts_with (\<lambda>e. is_digit e \<or> e = CHR ''.'') (CHR ''e'' # t)"
  by (simp add: starts_with_def is_digit_def)

lemma parse_show_exponent:
  assumes ds: "ds \<noteq> []" "\<forall>c\<in>set ds. is_digit c" and r: "num_delim r"
  shows "parse_number ((if neg then ''-'' else []) @ show_exponent ds x @ r)
           = Some (decimal neg (nat_of_digits ds) (x - (int (length ds) - 1)), r)"
proof -
  obtain c cs where cc: "ds = c # cs" using ds(1) by (cases ds) auto
  let ?t = "CHR ''e'' # (if 0 \<le> x then CHR ''+'' else CHR ''-'') # digits (nat \<bar>x\<bar>) @ r"
  have ex: "parse_exponent ?t = Some (x, r)"
    by (rule parse_exponent_some [OF num_delim_D(1) [OF r]])
  have "parse_number ((if neg then ''-'' else []) @ [c] @ (if cs = [] then [] else CHR ''.'' # cs) @ ?t)
          = Some (decimal neg (nat_of_digits ([c] @ cs)) (x - int (length cs)), r)"
    by (rule parse_number_parts [OF _ _ _ _ ex exponent_tail]) (use ds(2) cc in simp_all)
  then show ?thesis
    by (simp add: show_exponent_def cc split del: if_split cong: if_cong)
qed

lemma parse_show_plain:
  assumes ip: "ip \<noteq> []" "\<forall>c\<in>set ip. is_digit c" "hd ip = CHR ''0'' \<longrightarrow> tl ip = []"
    and fp: "\<forall>c\<in>set fp. is_digit c" and r: "num_delim r"
  shows "parse_number ((if neg then ''-'' else []) @ ip @ (if fp = [] then [] else CHR ''.'' # fp) @ r)
           = Some (decimal neg (nat_of_digits (ip @ fp)) (- int (length fp)), r)"
  using parse_number_parts [OF ip fp parse_exponent_none [OF num_delim_D(3) [OF r]] num_delim_D(4) [OF r]]
  by simp

lemma parse_number_show_int:
  assumes r: "num_delim r"
  shows "parse_number (show_int i @ r) = Some (JNum i, r)"
proof (cases "i = 0")
  case True
  have "parse_number ((if False then ''-'' else []) @ ''0''
            @ (if ([] :: string) = [] then [] else CHR ''.'' # []) @ r)
          = Some (decimal False (nat_of_digits (''0'' @ [])) (- int (length ([] :: string))), r)"
    by (rule parse_show_plain [OF _ _ _ _ r]) (simp_all add: is_digit_def)
  then show ?thesis
    using True by (simp add: show_int_def decimal_def nat_of_digits_def digit_step_def)
next
  case False
  let ?a = "nat \<bar>i\<bar>"
  let ?D = "digits ?a"
  let ?ds = "strip_zeros ?D"
  let ?neg = "i < 0"
  have pos: "0 < ?a" using False by simp
  have D: "?D \<noteq> []" "\<forall>c\<in>set ?D. is_digit c" "hd ?D \<noteq> CHR ''0''"
    using digits_ne digits_all digits_hd_nonzero [OF pos] by blast+
  have ds: "?ds \<noteq> []" "\<forall>c\<in>set ?ds. is_digit c"
    using strip_zeros_ne [OF D(1,3)] strip_zeros_subset [of ?D] D(2) by blast+
  have decomp: "?ds @ replicate (length ?D - length ?ds) CHR ''0'' = ?D"
    by (rule strip_zeros_decomp)
  have le: "length ?ds \<le> length ?D"
    by (rule strip_zeros_length)
  have nval: "nat_of_digits ?ds * 10 ^ (length ?D - length ?ds) = ?a"
    using nat_of_digits_append [of ?ds "replicate (length ?D - length ?ds) CHR ''0''"]
    by (simp add: decomp)
  have sign: "(if ?neg then - int ?a else int ?a) = i"
    by simp
  show ?thesis
  proof (cases "length ?D \<le> 21")
    case True
    have printed: "show_int i = (if ?neg then ''-'' else []) @ ?D"
      using False True le decomp by (simp add: show_int_def show_decimal_def Let_def nat_diff_distrib')
    have "parse_number ((if ?neg then ''-'' else []) @ ?D
              @ (if ([] :: string) = [] then [] else CHR ''.'' # []) @ r)
            = Some (decimal ?neg (nat_of_digits (?D @ [])) (- int (length ([] :: string))), r)"
      by (rule parse_show_plain [OF _ _ _ _ r]) (use D in simp_all)
    then show ?thesis
      using sign by (simp add: printed decimal_def)
  next
    case long: False
    have n: "\<not> int (length ?D) \<le> 21" "\<not> int (length ?D) \<le> 0"
      using long by linarith+
    have printed: "show_int i = (if ?neg then ''-'' else []) @ show_exponent ?ds (int (length ?D) - 1)"
      using False n by (simp add: show_int_def show_decimal_def Let_def)
    have "parse_number ((if ?neg then ''-'' else []) @ show_exponent ?ds (int (length ?D) - 1) @ r)
            = Some (decimal ?neg (nat_of_digits ?ds)
                      (int (length ?D) - 1 - (int (length ?ds) - 1)), r)"
      by (rule parse_show_exponent [OF ds r])
    moreover have "decimal ?neg (nat_of_digits ?ds) (int (length ?D) - 1 - (int (length ?ds) - 1))
                     = JNum i"
    proof -
      have e: "int (length ?D) - 1 - (int (length ?ds) - 1) = int (length ?D - length ?ds)"
        using le by simp
      have "(if ?neg then - int (nat_of_digits ?ds) else int (nat_of_digits ?ds))
              * 10 ^ (length ?D - length ?ds)
            = (if ?neg then - int (nat_of_digits ?ds * 10 ^ (length ?D - length ?ds))
               else int (nat_of_digits ?ds * 10 ^ (length ?D - length ?ds)))"
        by simp
      also have "\<dots> = i"
        unfolding nval by simp
      finally show ?thesis
        by (simp add: decimal_def e del: of_nat_mult of_nat_power)
    qed
    ultimately show ?thesis
      by (simp add: printed)
  qed
qed

lemma parse_number_show_frac:
  assumes r: "num_delim r"
  shows "parse_number (show_frac neg q d k @ r) = Some (JFrac neg q d k, r)"
proof -
  let ?s = "10 * q + digit_of d"
  let ?ds = "digits ?s"
  let ?n = "int (length ?ds) - int k - 1"
  have pos: "0 < ?s" using digit_of_range [of d] by simp
  have ds: "?ds \<noteq> []" "\<forall>c\<in>set ?ds. is_digit c" "hd ?ds \<noteq> CHR ''0''"
    using digits_ne digits_all digits_hd_nonzero [OF pos] by blast+
  have printed: "show_frac neg q d k = (if neg then ''-'' else []) @ show_decimal ?ds ?n"
    by (simp add: show_frac_def Let_def)
  consider (point) "0 < ?n" "?n \<le> 21" | (small) "- 6 < ?n" "?n \<le> 0"
    | (expo) "\<not> (0 < ?n \<and> ?n \<le> 21)" "\<not> (- 6 < ?n \<and> ?n \<le> 0)"
    by linarith
  then show ?thesis
  proof cases
    case point
    let ?ip = "take (nat ?n) ?ds"
    let ?fp = "drop (nat ?n) ?ds"
    have lt: "nat ?n < length ?ds" using point by simp
    have ip: "?ip \<noteq> []" "\<forall>c\<in>set ?ip. is_digit c" "hd ?ip \<noteq> CHR ''0''"
      using point ds by (auto dest: in_set_takeD simp: hd_take)
    have fp: "?fp \<noteq> []" "\<forall>c\<in>set ?fp. is_digit c" "int (length ?fp) = int (Suc k)"
      using lt ds(2) point by (auto dest: in_set_dropD)
    have shown: "show_decimal ?ds ?n = ?ip @ (if ?fp = [] then [] else CHR ''.'' # ?fp)"
      using point fp(1) by (simp add: show_decimal_def Let_def)
    have "parse_number ((if neg then ''-'' else []) @ ?ip @ (if ?fp = [] then [] else CHR ''.'' # ?fp) @ r)
            = Some (decimal neg (nat_of_digits (?ip @ ?fp)) (- int (length ?fp)), r)"
      by (rule parse_show_plain [OF _ _ _ _ r]) (use ip fp in simp_all)
    then show ?thesis
      using decimal_frac [of neg q d k]
      by (simp only: printed shown fp(3) append_assoc append_take_drop_id nat_of_digits_digits)
  next
    case small
    let ?fp = "replicate (nat (- ?n)) CHR ''0'' @ ?ds"
    have fp: "\<forall>c\<in>set ?fp. is_digit c" "?fp \<noteq> []" "int (length ?fp) = int (Suc k)"
      using ds small by (auto simp: is_digit_def)
    have shown: "show_decimal ?ds ?n = ''0'' @ (if ?fp = [] then [] else CHR ''.'' # ?fp)"
      using small fp(2) by (simp add: show_decimal_def Let_def)
    have nval: "nat_of_digits (''0'' @ ?fp) = ?s"
      using nat_of_digits_append [of "CHR ''0'' # replicate (nat (- ?n)) CHR ''0''" ?ds]
        nat_of_digits_zeros [of "Suc (nat (- ?n))"]
      by simp
    have "parse_number ((if neg then ''-'' else []) @ ''0'' @ (if ?fp = [] then [] else CHR ''.'' # ?fp) @ r)
            = Some (decimal neg (nat_of_digits (''0'' @ ?fp)) (- int (length ?fp)), r)"
      by (rule parse_show_plain [OF _ _ _ _ r]) (use fp in \<open>simp_all add: is_digit_def\<close>)
    then show ?thesis
      using decimal_frac [of neg q d k]
      by (simp only: printed shown nval fp(3) append_assoc)
  next
    case expo
    have "\<not> (int (length ?ds) \<le> ?n \<and> ?n \<le> 21)"
      by simp
    then have shown: "show_decimal ?ds ?n = show_exponent ?ds (?n - 1)"
      using expo by (simp only: show_decimal_def Let_def if_False)
    have e: "?n - 1 - (int (length ?ds) - 1) = - int (Suc k)"
      by simp
    have "parse_number ((if neg then ''-'' else []) @ show_exponent ?ds (?n - 1) @ r)
            = Some (decimal neg (nat_of_digits ?ds) (?n - 1 - (int (length ?ds) - 1)), r)"
      by (rule parse_show_exponent [OF ds(1,2) r])
    then show ?thesis
      using decimal_frac [of neg q d k] by (simp only: printed shown e nat_of_digits_digits append_assoc)
  qed
qed

lemma hexval_hexdigit: "d < 16 \<Longrightarrow> hexval (hexdigit d) = Some d"
  by (auto simp: hexval_def hexdigit_def Let_def)

lemma hexsum: "((u div 4096 * 16 + u div 256 mod 16) * 16 + u div 16 mod 16) * 16 + u mod 16 = (u::nat)"
proof -
  have a: "u div 16 div 16 = u div 256" "u div 256 div 16 = u div 4096"
    by (simp_all add: div_mult2_eq [symmetric])
  have "u = u div 16 * 16 + u mod 16" by simp
  also have "u div 16 = u div 256 * 16 + u div 16 mod 16"
    using a(1) by (metis div_mult_mod_eq)
  also have "u div 256 = u div 4096 * 16 + u div 256 mod 16"
    using a(2) by (metis div_mult_mod_eq)
  finally show ?thesis by simp
qed

lemma hex4_unicode_escape:
  assumes "u < 65536"
  shows "hex4 [hexdigit (u div 4096), hexdigit (u div 256 mod 16), hexdigit (u div 16 mod 16),
               hexdigit (u mod 16)] = Some u"
proof -
  have "u div 4096 < 16" using assms by simp
  moreover have "((u div 4096 * 16 + u div 256 mod 16) * 16 + u div 16 mod 16) * 16 + u mod 16 = u"
    by (rule hexsum)
  ultimately show ?thesis
    by (simp add: hex4_def hexval_hexdigit)
qed

lemma parse_plain_char:
  "plain_char c \<Longrightarrow>
   parse_string_chars (c # rest) = map_option (apfst ((#) c)) (parse_string_chars rest)"
  by (simp add: plain_char_def)

lemma parse_unicode_escape:
  assumes "u < 65536"
  shows "parse_string_chars (unicode_escape u @ rest)
           = map_option (apfst ((@) (encode_unit u))) (parse_string_chars rest)"
  using hex4_unicode_escape [OF assms] by (simp add: unicode_escape_def)

lemma encode_control: "(of_char c :: nat) < 32 \<Longrightarrow> encode_unit (of_char c) = [c]"
  by (simp add: encode_unit_def)

lemma parse_escape_char:
  "parse_string_chars (escape_char c @ rest)
     = map_option (apfst ((#) c)) (parse_string_chars rest)"
proof -
  consider (short) "c \<in> {CHR 0x22, CHR 0x5C, CHR 0x08, CHR 0x09, CHR 0x0A, CHR 0x0C, CHR 0x0D}"
    | (ctl) "c \<notin> {CHR 0x22, CHR 0x5C, CHR 0x08, CHR 0x09, CHR 0x0A, CHR 0x0C, CHR 0x0D}"
        "(of_char c :: nat) < 32"
    | (plain) "c \<noteq> CHR 0x22" "c \<noteq> CHR 0x5C" "\<not> (of_char c :: nat) < 32"
    by auto
  then show ?thesis
  proof cases
    case short
    then show ?thesis
      by (auto simp: escape_char_def unescape_def)
  next
    case ctl
    have "parse_string_chars (unicode_escape (of_char c) @ rest)
            = map_option (apfst ((@) [c])) (parse_string_chars rest)"
      using parse_unicode_escape [of "of_char c" rest] ctl(2) by (simp add: encode_control)
    moreover have "(@) [c] = (#) c"
      by auto
    ultimately show ?thesis
      using ctl by (simp add: escape_char_def)
  next
    case plain
    then show ?thesis
      by (auto simp: escape_char_def)
  qed
qed

lemma surrogate_arith:
  fixes x y :: nat
  assumes "x < 64" and "y < 64"
  shows "(53248 + x * 64 + y) div 4096 = 13" and "(53248 + x * 64 + y) div 64 mod 64 = x"
    and "(53248 + x * 64 + y) mod 64 = y"
proof -
  have r: "x * 64 + y < 4096" using assms by linarith
  have e1: "53248 + x * 64 + y = 13 * 4096 + (x * 64 + y)" by simp
  have "(13 * 4096 + (x * 64 + y)) div 4096 = 13 + (x * 64 + y) div 4096"
    by (simp only: div_mult_self3)
  also have "\<dots> = 13" using r by simp
  finally show "(53248 + x * 64 + y) div 4096 = 13"
    by (simp only: e1)
  have e: "53248 + x * 64 + y = (832 + x) * 64 + y" by simp
  have "((832 + x) * 64 + y) div 64 = 832 + x + y div 64"
    by (simp only: div_mult_self3)
  also have "\<dots> = 832 + x" using assms(2) by simp
  finally have d: "(53248 + x * 64 + y) div 64 = 832 + x"
    by (simp only: e)
  have "(13 * 64 + x) mod 64 = x mod 64"
    by (simp only: mod_mult_self3)
  also have "\<dots> = x" using assms(1) by simp
  finally have "(832 + x) mod 64 = x" by simp
  then show "(53248 + x * 64 + y) div 64 mod 64 = x"
    by (simp only: d)
  have "((832 + x) * 64 + y) mod 64 = y mod 64"
    by (simp only: mod_mult_self3)
  also have "\<dots> = y" using assms(2) by simp
  finally show "(53248 + x * 64 + y) mod 64 = y"
    by (simp only: e)
qed

lemma surrogate_atD:
  assumes "surrogate_at s = Some u"
  shows "\<exists>a b c t. s = a # b # c # t \<and> plain_char a \<and> plain_char b \<and> plain_char c
            \<and> encode_unit u = [a, b, c] \<and> u < 65536
            \<and> 0xA0 \<le> (of_char b :: nat) \<and> (u < 0xDC00 \<longleftrightarrow> (of_char b :: nat) < 0xB0)"
proof -
  from assms obtain a b c t where s: "s = a # b # c # t"
    by (auto simp: surrogate_at_def split: list.splits)
  let ?x = "(of_char b :: nat) - 128" and ?y = "(of_char c :: nat) - 128"
  from assms s have a: "a = CHR 0xED" and b: "160 \<le> (of_char b :: nat)" "(of_char b :: nat) \<le> 191"
    and c: "128 \<le> (of_char c :: nat)" "(of_char c :: nat) \<le> 191"
    and u: "u = 53248 + ?x * 64 + ?y"
    by (auto simp: surrogate_at_def split: if_splits)
  have xy: "?x < 64" "?y < 64" using b c by simp_all
  note ar = surrogate_arith [OF xy]
  have "encode_unit u = [char_of (224 + 13 :: nat), char_of (128 + ?x), char_of (128 + ?y)]"
    using xy by (simp add: encode_unit_def u ar)
  moreover have "128 + ?x = of_char b" "128 + ?y = of_char c"
    using b c by simp_all
  moreover have "char_of (224 + 13 :: nat) = CHR 0xED"
    by (simp add: char_of_eq_iff)
  ultimately have enc: "encode_unit u = [a, b, c]"
    by (simp add: a)
  have "plain_char a" "plain_char b" "plain_char c"
    using a b c by (auto simp: plain_char_def)
  moreover have "u < 65536" "u < 0xDC00 \<longleftrightarrow> (of_char b :: nat) < 0xB0"
    using xy b by (auto simp: u)
  ultimately show ?thesis
    using s enc b by blast
qed

lemma parse_quote_chars:
  "parse_string_chars (quote_chars s @ CHR 0x22 # r) = Some (s, r)"
proof (induction s rule: quote_chars.induct)
  case 1
  show ?case by simp
next
  case (2 c cs)
  show ?case
  proof (cases "surrogate_at (c # cs)")
    case None
    have q: "quote_chars (c # cs) = escape_char c @ quote_chars cs"
      using None by simp
    have "parse_string_chars ((escape_char c @ quote_chars cs) @ CHR 0x22 # r) = Some (c # cs, r)"
      using "2.IH"(1) [OF None] by (simp add: parse_escape_char del: parse_string_chars.simps)
    then show ?thesis
      unfolding q .
  next
    case (Some u)
    from surrogate_atD [OF Some] obtain b c' t where
      cs: "cs = b # c' # t" and pl: "plain_char c" "plain_char b" "plain_char c'"
      and enc: "encode_unit u = [c, b, c']" and u: "u < 65536"
      by auto
    show ?thesis
    proof (cases "u < 0xDC00 \<and> trail_follows (drop 2 cs)")
      case True
      then obtain v where v: "surrogate_at t = Some v"
        by (auto simp: trail_follows_def cs split: option.splits)
      from surrogate_atD [OF v] obtain a2 b2 c2 t2 where
        t: "t = a2 # b2 # c2 # t2" and pl2: "plain_char a2" "plain_char b2" "plain_char c2"
        by auto
      have ih: "parse_string_chars (quote_chars t2 @ CHR 0x22 # r) = Some (t2, r)"
        using "2.IH"(2) [OF Some True] by (simp add: cs t)
      have q: "quote_chars (c # b # c' # a2 # b2 # c2 # t2)
                 = c # b # c' # a2 # b2 # c2 # quote_chars t2"
        using Some True by (simp add: cs t)
      have "parse_string_chars ((c # b # c' # a2 # b2 # c2 # quote_chars t2) @ CHR 0x22 # r)
              = Some (c # b # c' # a2 # b2 # c2 # t2, r)"
        using pl pl2 ih by (simp add: parse_plain_char del: parse_string_chars.simps)
      then show ?thesis
        unfolding cs t q .
    next
      case False
      have ih: "parse_string_chars (quote_chars t @ CHR 0x22 # r) = Some (t, r)"
        using "2.IH"(3) [OF Some False] by (simp add: cs)
      have q: "quote_chars (c # b # c' # t) = unicode_escape u @ quote_chars t"
        using Some False by (auto simp: cs)
      have "parse_string_chars ((unicode_escape u @ quote_chars t) @ CHR 0x22 # r)
              = Some (c # b # c' # t, r)"
        using parse_unicode_escape [OF u, of "quote_chars t @ CHR 0x22 # r"] ih
        by (simp add: enc del: parse_string_chars.simps)
      then show ?thesis
        unfolding cs q .
    qed
  qed
qed

lemma parse_string_chars_quote:
  "parse_string_chars (tl (quote s) @ r) = Some (s, r)"
  using parse_quote_chars [of s r] by (simp add: quote_def)

lemma quote_Cons: "quote s = CHR 0x22 # tl (quote s)"
  by (simp add: quote_def)

lemma skip_ws_start: "\<not> is_ws c \<Longrightarrow> skip_ws (c # cs) = c # cs"
  by (simp add: skip_ws_def)

lemma show_decimal_start:
  assumes "ds \<noteq> []" and "\<forall>c\<in>set ds. is_digit c"
  shows "\<exists>c cs. show_decimal ds n = c # cs \<and> is_digit c"
proof -
  obtain d ds' where dd: "ds = d # ds'" using assms(1) by (cases ds) auto
  then have d: "is_digit d" using assms(2) by simp
  have zero: "is_digit CHR ''0''" by (simp add: is_digit_def)
  consider (whole) "int (length ds) \<le> n" "n \<le> 21"
    | (point) "\<not> int (length ds) \<le> n" "0 < n" "n \<le> 21"
    | (small) "- 6 < n" "n \<le> 0"
    | (big) "21 < n"
    | (tiny) "n \<le> - 6"
    by linarith
  then show ?thesis
  proof cases
    case whole
    then have "show_decimal ds n = d # ds' @ replicate (nat (n - int (length ds))) CHR ''0''"
      by (simp add: show_decimal_def Let_def dd)
    with d show ?thesis by blast
  next
    case point
    then obtain m where m: "nat n = Suc m" by (cases "nat n") auto
    from point have "show_decimal ds n = take (nat n) ds @ CHR ''.'' # drop (nat n) ds"
      by (simp add: show_decimal_def Let_def)
    then have "show_decimal ds n = d # take m ds' @ CHR ''.'' # drop (nat n) ds"
      by (simp add: dd m)
    with d show ?thesis by blast
  next
    case small
    have "\<not> int (length ds) \<le> n" using small by (simp add: dd)
    with small have "show_decimal ds n = CHR ''0'' # CHR ''.'' # replicate (nat (- n)) CHR ''0'' @ ds"
      by (simp add: show_decimal_def Let_def)
    with zero show ?thesis by blast
  next
    case big
    then have "show_decimal ds n = show_exponent ds (n - 1)"
      by (simp add: show_decimal_def Let_def)
    then have "\<exists>cs. show_decimal ds n = d # cs"
      by (simp add: show_exponent_def dd)
    with d show ?thesis by blast
  next
    case tiny
    have "\<not> int (length ds) \<le> n" using tiny by (simp add: dd)
    with tiny have "show_decimal ds n = show_exponent ds (n - 1)"
      by (simp add: show_decimal_def Let_def)
    then have "\<exists>cs. show_decimal ds n = d # cs"
      by (simp add: show_exponent_def dd)
    with d show ?thesis by blast
  qed
qed

lemma signed_start:
  assumes "\<exists>c cs. body = c # cs \<and> is_digit c"
  shows "\<exists>c cs. (if neg then ''-'' else []) @ body = c # cs \<and> (c = CHR ''-'' \<or> is_digit c)"
  using assms by (cases neg) auto

lemma show_int_start:
  "\<exists>c cs. show_int i = c # cs \<and> (c = CHR ''-'' \<or> is_digit c)"
proof (cases "i = 0")
  case True
  then show ?thesis by (simp add: show_int_def is_digit_def)
next
  case False
  let ?D = "digits (nat \<bar>i\<bar>)"
  have pos: "0 < nat \<bar>i\<bar>" using False by simp
  have "strip_zeros ?D \<noteq> []" "\<forall>c\<in>set (strip_zeros ?D). is_digit c"
    using strip_zeros_ne [OF digits_ne digits_hd_nonzero [OF pos]]
      strip_zeros_subset [of ?D] digits_all by blast+
  then have "\<exists>c cs. show_decimal (strip_zeros ?D) (int (length ?D)) = c # cs \<and> is_digit c"
    by (rule show_decimal_start)
  then have "\<exists>c cs. (if i < 0 then ''-'' else []) @ show_decimal (strip_zeros ?D) (int (length ?D))
                 = c # cs \<and> (c = CHR ''-'' \<or> is_digit c)"
    by (rule signed_start)
  then show ?thesis
    using False by (simp only: show_int_def if_False)
qed

lemma show_frac_start:
  "\<exists>c cs. show_frac neg q d k = c # cs \<and> (c = CHR ''-'' \<or> is_digit c)"
proof -
  let ?ds = "digits (10 * q + digit_of d)"
  have "?ds \<noteq> []" "\<forall>c\<in>set ?ds. is_digit c"
    using digits_ne digits_all by blast+
  then have "\<exists>c cs. show_decimal ?ds (int (length ?ds) - int k - 1) = c # cs \<and> is_digit c"
    by (rule show_decimal_start)
  then have "\<exists>c cs. (if neg then ''-'' else []) @ show_decimal ?ds (int (length ?ds) - int k - 1)
                 = c # cs \<and> (c = CHR ''-'' \<or> is_digit c)"
    by (rule signed_start)
  then show ?thesis
    by (simp only: show_frac_def Let_def)
qed

lemma stringify_start: "\<exists>c cs. JSON_stringify v = c # cs \<and> value_start c"
proof (cases v)
  case (JNum i)
  obtain c cs where "show_int i = c # cs" "c = CHR ''-'' \<or> is_digit c"
    using show_int_start by blast
  then show ?thesis
    using JNum by (auto simp: value_start_def is_ws_def is_digit_def)
next
  case (JFrac neg q d k)
  obtain c cs where "show_frac neg q d k = c # cs" "c = CHR ''-'' \<or> is_digit c"
    using show_frac_start by blast
  then show ?thesis
    using JFrac by (auto simp: value_start_def is_ws_def is_digit_def)
qed (auto simp: value_start_def is_ws_def quote_def)

lemma stringify_elems_start:
  "xs \<noteq> [] \<Longrightarrow> \<exists>c cs. stringify_elems xs = c # cs \<and> value_start c"
proof (cases xs)
  case (Cons x ys)
  obtain c cs where "JSON_stringify x = c # cs" "value_start c"
    using stringify_start by blast
  then show ?thesis
    using Cons by (cases ys) auto
qed simp

lemma stringify_members_start:
  "kvs \<noteq> [] \<Longrightarrow> \<exists>cs. stringify_members kvs = CHR 0x22 # cs"
proof (cases kvs)
  case (Cons kv ms)
  then show ?thesis
    by (cases kv; cases ms) (auto simp: quote_def)
qed simp

lemma num_delim_simps [simp]:
  "num_delim []" "num_delim (CHR '']'' # r)" "num_delim (CHR ''}'' # r)" "num_delim (CHR '','' # r)"
  by (simp_all add: num_delim_def starts_with_def is_digit_def)

lemma parse_value_null: "parse_value (''null'' @ r) = Some (JNull, r)"
  by (simp add: parse_value.simps)

lemma parse_value_bool:
  "parse_value ((if b then ''true'' else ''false'') @ r) = Some (JBool b, r)"
  by (simp add: parse_value.simps)

lemma num_start_distinct:
  assumes "c = CHR ''-'' \<or> is_digit c"
  shows "c \<noteq> CHR ''[''" "c \<noteq> CHR ''{''" "c \<noteq> CHR 0x22"
    "c \<noteq> CHR ''n''" "c \<noteq> CHR ''t''" "c \<noteq> CHR ''f''"
  using assms by (auto simp: is_digit_def)

lemma parse_value_number:
  assumes "c = CHR ''-'' \<or> is_digit c"
  shows "parse_value (c # cs) = parse_number (c # cs)"
  by (simp add: parse_value.simps num_start_distinct [OF assms])

lemma parse_value_num:
  assumes "num_delim r"
  shows "parse_value (show_int i @ r) = Some (JNum i, r)"
proof -
  obtain c cs where cc: "show_int i = c # cs" and c: "c = CHR ''-'' \<or> is_digit c"
    using show_int_start by blast
  have "parse_value (c # cs @ r) = parse_number (c # cs @ r)"
    by (rule parse_value_number [OF c])
  then show ?thesis
    using parse_number_show_int [OF assms, of i] cc by simp
qed

lemma parse_value_frac:
  assumes "num_delim r"
  shows "parse_value (show_frac neg q d k @ r) = Some (JFrac neg q d k, r)"
proof -
  obtain c cs where cc: "show_frac neg q d k = c # cs" and c: "c = CHR ''-'' \<or> is_digit c"
    using show_frac_start by blast
  have "parse_value (c # cs @ r) = parse_number (c # cs @ r)"
    by (rule parse_value_number [OF c])
  then show ?thesis
    using parse_number_show_frac [OF assms, of neg q d k] cc by simp
qed

lemma parse_value_str: "parse_value (quote s @ r) = Some (JStr s, r)"
proof -
  have "parse_value (CHR 0x22 # tl (quote s) @ r) = Some (JStr s, r)"
    by (simp add: parse_value.simps parse_string_chars_quote)
  then show ?thesis
    using quote_Cons [of s] by (metis append_Cons)
qed

lemma value_start_D:
  "value_start c \<Longrightarrow> \<not> is_ws c \<and> c \<noteq> CHR '']'' \<and> c \<noteq> CHR ''}'' \<and> c \<noteq> CHR '','' \<and> c \<noteq> CHR '':''"
  by (simp add: value_start_def)

lemma skip_ws_value: "skip_ws (JSON_stringify v @ r) = JSON_stringify v @ r"
  using stringify_start [of v] by (auto simp: skip_ws_start value_start_def)

lemma skip_ws_elems: "xs \<noteq> [] \<Longrightarrow> skip_ws (stringify_elems xs @ r) = stringify_elems xs @ r"
  using stringify_elems_start [of xs] by (auto simp: skip_ws_start value_start_def)

lemma skip_ws_members:
  "kvs \<noteq> [] \<Longrightarrow> skip_ws (stringify_members kvs @ r) = stringify_members kvs @ r"
  using stringify_members_start [of kvs] by (auto simp: skip_ws_start is_ws_def)

lemma skip_ws_punct [simp]:
  "skip_ws (CHR '']'' # r) = CHR '']'' # r"
  "skip_ws (CHR ''}'' # r) = CHR ''}'' # r"
  "skip_ws (CHR '','' # r) = CHR '','' # r"
  "skip_ws (CHR '':'' # r) = CHR '':'' # r"
  by (simp_all add: skip_ws_def is_ws_def)

lemma parse_value_arr:
  assumes "xs \<noteq> [] \<Longrightarrow> parse_elems (stringify_elems xs @ r) = Some (xs, r)"
  shows "parse_value (CHR ''['' # stringify_elems xs @ r) = Some (JArr xs, r)"
proof (cases "xs = []")
  case True
  then show ?thesis by (simp add: parse_value.simps)
next
  case False
  obtain c cs where cc: "stringify_elems xs = c # cs" and c: "value_start c"
    using stringify_elems_start [OF False] by blast
  have "parse_value (CHR ''['' # c # cs @ r) = map_option (apfst JArr) (parse_elems (c # cs @ r))"
    using value_start_D [OF c] by (simp add: parse_value.simps skip_ws_start)
  then show ?thesis
    using assms [OF False] cc by simp
qed

lemma parse_value_obj:
  assumes "kvs \<noteq> [] \<Longrightarrow> parse_members (stringify_members kvs @ r) = Some (kvs, r)"
  shows "parse_value (CHR ''{'' # stringify_members kvs @ r) = Some (JObj kvs, r)"
proof (cases "kvs = []")
  case True
  then show ?thesis by (simp add: parse_value.simps)
next
  case False
  obtain cs where cc: "stringify_members kvs = CHR 0x22 # cs"
    using stringify_members_start [OF False] by blast
  have "parse_value (CHR ''{'' # CHR 0x22 # cs @ r)
          = map_option (apfst JObj) (parse_members (CHR 0x22 # cs @ r))"
    by (simp add: parse_value.simps skip_ws_start is_ws_def)
  then show ?thesis
    using assms [OF False] cc by simp
qed

lemma parse_elems_last:
  assumes "parse_value (JSON_stringify x @ CHR '']'' # r) = Some (x, CHR '']'' # r)"
  shows "parse_elems (JSON_stringify x @ CHR '']'' # r) = Some ([x], r)"
  by (subst parse_elems.simps) (simp add: assms)

lemma parse_elems_more:
  assumes "parse_value (JSON_stringify x @ CHR '','' # rest) = Some (x, CHR '','' # rest)"
    and "skip_ws rest = rest"
    and "parse_elems rest = Some (ys, r)"
  shows "parse_elems (JSON_stringify x @ CHR '','' # rest) = Some (x # ys, r)"
  by (subst parse_elems.simps) (simp add: assms)

lemma parse_members_last:
  assumes "parse_value (JSON_stringify v @ CHR ''}'' # r) = Some (v, CHR ''}'' # r)"
  shows "parse_members (quote k @ CHR '':'' # JSON_stringify v @ CHR ''}'' # r) = Some ([(k, v)], r)"
proof -
  have "parse_members (CHR 0x22 # tl (quote k) @ CHR '':'' # JSON_stringify v @ CHR ''}'' # r)
          = Some ([(k, v)], r)"
    by (subst parse_members.simps)
       (simp add: parse_string_chars_quote skip_ws_value assms)
  then show ?thesis
    using quote_Cons [of k] by (metis append_Cons)
qed

lemma parse_members_more:
  assumes "parse_value (JSON_stringify v @ CHR '','' # rest) = Some (v, CHR '','' # rest)"
    and "skip_ws rest = rest"
    and "parse_members rest = Some (ms, r)"
  shows "parse_members (quote k @ CHR '':'' # JSON_stringify v @ CHR '','' # rest)
           = Some ((k, v) # ms, r)"
proof -
  have "parse_members (CHR 0x22 # tl (quote k) @ CHR '':'' # JSON_stringify v @ CHR '','' # rest)
          = Some ((k, v) # ms, r)"
    by (subst parse_members.simps)
       (simp add: parse_string_chars_quote skip_ws_value assms)
  then show ?thesis
    using quote_Cons [of k] by (metis append_Cons)
qed

lemma parse_stringify:
  "num_delim r \<Longrightarrow> parse_value (JSON_stringify v @ r) = Some (v, r)"
  "xs \<noteq> [] \<Longrightarrow> parse_elems (stringify_elems xs @ r) = Some (xs, r)"
  "kvs \<noteq> [] \<Longrightarrow> parse_members (stringify_members kvs @ r) = Some (kvs, r)"
proof (induction v and xs and kvs arbitrary: r and r and r
    rule: JSON_stringify_stringify_elems_stringify_members.induct)
  case 1
  show ?case using parse_value_null [of r] by simp
next
  case (2 b)
  show ?case using parse_value_bool [of b r] by simp
next
  case (3 n)
  then show ?case by (simp add: parse_value_num)
next
  case (4 neg q d k)
  then show ?case by (simp add: parse_value_frac)
next
  case (5 s)
  show ?case by (simp add: parse_value_str)
next
  case (6 xs)
  show ?case using parse_value_arr [of xs r] "6.IH" by simp
next
  case (7 kvs)
  show ?case using parse_value_obj [of kvs r] "7.IH" by simp
next
  case 8
  then show ?case by simp
next
  case (9 x)
  show ?case using parse_elems_last [of x r] "9.IH" [of "CHR '']'' # r"] by simp
next
  case (10 x y ys)
  have "parse_elems (JSON_stringify x @ CHR '','' # (stringify_elems (y # ys) @ r))
          = Some (x # y # ys, r)"
    by (rule parse_elems_more) (simp_all add: "10.IH" skip_ws_elems)
  then show ?case by simp
next
  case 11
  then show ?case by simp
next
  case (12 k v)
  show ?case using parse_members_last [of v r k] "12.IH" [of "CHR ''}'' # r"] by simp
next
  case (13 k v m ms)
  have "parse_members (quote k @ CHR '':'' # JSON_stringify v @ CHR '','' # (stringify_members (m # ms) @ r))
          = Some ((k, v) # m # ms, r)"
    by (rule parse_members_more) (simp_all add: "13.IH" skip_ws_members)
  then show ?case by simp
qed

lemma JSON_parse_stringify: "JSON_parse (JSON_stringify v) = Some v"
proof -
  have "skip_ws (JSON_stringify v) = JSON_stringify v"
    using skip_ws_value [of v "[]"] by simp
  moreover have "parse_value (JSON_stringify v) = Some (v, [])"
    using parse_stringify(1) [of "[]" v] by simp
  moreover have "skip_ws [] = []"
    by (simp add: skip_ws_def)
  ultimately show ?thesis
    by (simp add: JSON_parse_def)
qed

subsection \<open>Export router\<close>

lemma get_prop_JObj [simp]: "get_prop k (JObj kvs) = map_of (rev kvs) k"
  by (simp add: get_prop_def)



lemma or_else_truthy [simp]: "truthy a \<Longrightarrow> or_else a d = the a"
  by (simp add: or_else_def)

lemma or_else_falsy [simp]: "\<not> truthy a \<Longrightarrow> or_else a d = d"
  by (simp add: or_else_def)


lemma exportEmbeddedPanel_calls:
  "fst (exportEmbeddedPanel w d p) = [dashboard_request w d]"
  by (simp add: exportEmbeddedPanel_def fetchDashboardData_def Let_def split: option.splits)



lemma export_content_cases:
  "export_content w r =
     (if embedded_fields r then
        (case exportEmbeddedPanel w (r_dashboardId r) (r_panelIndex r) of
           (calls, Inl e) \<Rightarrow> (calls, Inl e)
         | (calls, Inr content) \<Rightarrow> (calls, Inr (content, ''ndjson'')))
      else if truthy (r_useAlternativeApi r)
              \<and> lookup ALTERNATIVE_API_TYPES (template (r_type r)) \<noteq> Missing then
        (case exportViaAlternativeApi w (r_type r) (r_id r) of
           (calls, Inl e) \<Rightarrow> (calls, Inl e)
         | (calls, Inr content) \<Rightarrow>
             (calls,
              case lookup ALTERNATIVE_API_TYPES (template (r_type r)) of
                Own cfg \<Rightarrow>
                  Inr (content, if fileExtension cfg = [] then ''json'' else fileExtension cfg)
              | _ \<Rightarrow> Inr (content, ''json'')))
      else if truthy (r_id r) then
        (case exportSavedObject w (r_type r) (r_id r) of
           (calls, Inl e) \<Rightarrow> (calls, Inl e)
         | (calls, Inr content) \<Rightarrow> (calls, Inr (content, ''ndjson'')))
      else ([], Inl (Error ''No valid export target specified'')))"
  unfolding export_content_def embedded_fields_def by (rule refl)


lemma handle_calls: "fst (handle_exportSavedObject w r) = fst (export_content w r)"
  by (simp add: handle_exportSavedObject_def split: prod.splits sum.splits)



declare JSON_stringify.simps [simp del]

lemma fetch_served_dashboard:
  "fetchDashboardData (page u (serving (JSON_stringify d)) els) i
     = ([dashboard_request (page u (serving (JSON_stringify d)) els) i], Inr d)"
  by (simp add: fetchDashboardData_def page_def serving_def ok_response_def JSON_parse_stringify)

lemma panelsJSON_of_dashboard_doc:
  "panelsJSON_of (dashboard_doc panels) = Inr (Some (JStr (JSON_stringify (JArr panels))))"
  by (simp add: panelsJSON_of_def dashboard_doc_def opt_prop_def)

lemma parse_panels_stringify:
  "parse_panels (JStr (JSON_stringify (JArr panels))) = Inr panels"
  by (simp add: parse_panels_def JSON_parse_stringify)

lemma JSON_stringify_nonempty [simp]: "JSON_stringify v \<noteq> []"
  using stringify_start [of v] by auto



lemma exportSavedObject_calls: "fst (exportSavedObject w ty i) = [bulk_request w ty i]"
  by (simp add: exportSavedObject_def Let_def)

lemma exportViaAlternativeApi_calls:
  "fst (exportViaAlternativeApi w ty i) =
     (case lookup ALTERNATIVE_API_TYPES (template ty) of
        Own cfg \<Rightarrow> [alt_request w cfg i]
      | _ \<Rightarrow> [])"
  by (simp add: exportViaAlternativeApi_def Let_def split: table_entry.splits)

lemma export_calls:
  "fst (handle_exportSavedObject w r) =
     (if embedded_fields r then [dashboard_request w (r_dashboardId r)]
      else if truthy (r_useAlternativeApi r)
              \<and> lookup ALTERNATIVE_API_TYPES (template (r_type r)) \<noteq> Missing then
        (case lookup ALTERNATIVE_API_TYPES (template (r_type r)) of
           Own cfg \<Rightarrow> [alt_request w cfg (r_id r)]
         | _ \<Rightarrow> [])
      else if truthy (r_id r) then [bulk_request w (r_type r) (r_id r)]
      else [])"
  using exportEmbeddedPanel_calls [of w "r_dashboardId r" "r_panelIndex r"]
    exportSavedObject_calls [of w "r_type r" "r_id r"]
    exportViaAlternativeApi_calls [of w "r_type r" "r_id r"]
  by (auto simp: handle_calls export_content_cases split: prod.splits sum.splits)



















lemma traversal_has_dot_segment: "has_dot_segment ''../../observability/slos/x''"
  by code_simp




text \<open>
  The reads of the alternate branch are not confined to the alternate endpoints either: an
  identifier with dot segments sends the \<^verbatim>\<open>GET\<close> to any path, that of the export
  endpoint included.  It is not a bulk export call, which is a \<^verbatim>\<open>POST\<close>.
\<close>

lemma alternate_read_on_export_path:
  "fst (handle_exportSavedObject dash_world
          (plain_request ''slo'' (Some (JStr ''../../saved_objects/_export'')) (Some (JBool True))))
     = [alt_request dash_world
          \<lparr>apiPath = ''/api/observability/slos/'', fileExtension = ''json''\<rparr>
          (Some (JStr ''../../saved_objects/_export''))]
   \<and> req_method (alt_request dash_world
          \<lparr>apiPath = ''/api/observability/slos/'', fileExtension = ''json''\<rparr>
          (Some (JStr ''../../saved_objects/_export''))) = GET
   \<and> call_path dash_world (alt_request dash_world
          \<lparr>apiPath = ''/api/observability/slos/'', fileExtension = ''json''\<rparr>
          (Some (JStr ''../../saved_objects/_export'')))
       = [''api'', ''saved_objects'', ''_export'']"
proof -
  have "target_path ''/api/observability/slos/../../saved_objects/_export''
          = [''api'', ''saved_objects'', ''_export'']"
    by code_simp
  then show ?thesis
    by (simp add: export_calls plain_request_def embedded_fields_def template_def lookup_def
        ALTERNATIVE_API_TYPES_def call_path_def alt_request_def dash_world_def page_def)
qed

lemma detect_cases_page:
  "detectSavedObject (page cases_url offline (\<lambda>sel. [])) =
   Some \<lparr>d_type = ''cases'', d_id = ''42'', d_title = Some ''Sales overview'', d_url = cases_url,
         d_useAlternativeApi = False, d_notExportable = True,
         d_notExportableReason = Some ''Cases are not exportable via any known API''\<rparr>"
  by (simp add: detectSavedObject_def page_def cases_url_def KIBANA_PATTERNS_def
      ALTERNATIVE_API_TYPES_def NON_EXPORTABLE_TYPES_def Let_def)

lemma non_exportable_not_alternate:
  "map_of NON_EXPORTABLE_TYPES k = Some reason \<Longrightarrow> lookup ALTERNATIVE_API_TYPES k = Missing"
  by (auto simp: NON_EXPORTABLE_TYPES_def lookup_def ALTERNATIVE_API_TYPES_def
      Object_prototype_names_def split: if_splits)

text \<open>
  Claim C2, as amended.  Non-exportability is a flag of the classifier's descriptor: a
  page whose type is in the non-exportable table is described with \<open>notExportable\<close> set and
  the configured reason.  The export handler does not consult that table.  A request for
  such a type is answered without any network call only when it has no truthy \<open>id\<close> and is
  not an embedded-panel request, and the error is then the invalid-request message; with a
  truthy \<open>id\<close> it is sent to the bulk endpoint, and with the three embedded fields it reads
  the dashboard.
\<close>

theorem C2_non_exportable_types:
  "(detectSavedObject w = Some d \<and> map_of NON_EXPORTABLE_TYPES (d_type d) = Some reason \<longrightarrow>
      d_notExportable d \<and> d_notExportableReason d = Some reason)
   \<and> (map_of NON_EXPORTABLE_TYPES (template (r_type r)) = Some reason' \<longrightarrow>
        (\<not> embedded_fields r \<and> \<not> truthy (r_id r) \<longrightarrow>
           handle_exportSavedObject w r
             = ([], ExportFailure (Error ''No valid export target specified'')))
      \<and> (\<not> embedded_fields r \<and> truthy (r_id r) \<longrightarrow>
           fst (handle_exportSavedObject w r) = [bulk_request w (r_type r) (r_id r)])
      \<and> (embedded_fields r \<longrightarrow>
           fst (handle_exportSavedObject w r) = [dashboard_request w (r_dashboardId r)]))"
proof (intro conjI impI)
  assume "detectSavedObject w = Some d \<and> map_of NON_EXPORTABLE_TYPES (d_type d) = Some reason"
  then show "d_notExportable d" and "d_notExportableReason d = Some reason"
    by (auto simp: detectSavedObject_def split: option.splits prod.splits)
next
  assume ne: "map_of NON_EXPORTABLE_TYPES (template (r_type r)) = Some reason'"
  note missing = non_exportable_not_alternate [OF ne]
  {
    assume "\<not> embedded_fields r \<and> \<not> truthy (r_id r)"
    then show "handle_exportSavedObject w r
             = ([], ExportFailure (Error ''No valid export target specified''))"
      by (simp add: handle_exportSavedObject_def export_content_cases missing)
  next
    assume "\<not> embedded_fields r \<and> truthy (r_id r)"
    then show "fst (handle_exportSavedObject w r) = [bulk_request w (r_type r) (r_id r)]"
      by (simp add: export_calls missing)
  next
    assume "embedded_fields r"
    then show "fst (handle_exportSavedObject w r) = [dashboard_request w (r_dashboardId r)]"
      by (simp add: export_calls)
  }
qed

text \<open>
  The claim C2 as stated fails: an export request for the non-exportable type \<open>cases\<close>
  with an identifier is sent to the bulk endpoint, and the export succeeds when the
  backend answers.
\<close>

theorem C2_counterexample:
  "map_of NON_EXPORTABLE_TYPES ''cases'' = Some ''Cases are not exportable via any known API''
   \<and> handle_exportSavedObject dash_world (plain_request ''cases'' (Some (JStr ''42'')) None)
       = ([bulk_request dash_world (Some (JStr ''cases'')) (Some (JStr ''42''))],
          ExportSuccess ''export.ndjson'')"
  by (simp add: NON_EXPORTABLE_TYPES_def handle_exportSavedObject_def export_content_def
      plain_request_def exportSavedObject_def Let_def dash_world_def page_def serving_def
      ok_response_def template_def lookup_def ALTERNATIVE_API_TYPES_def)

theorem C2_witness:
  "map_option d_type (detectSavedObject (page cases_url offline (\<lambda>sel. []))) = Some ''cases''
   \<and> map_of NON_EXPORTABLE_TYPES ''cases'' = Some ''Cases are not exportable via any known API''
   \<and> map_option d_notExportable (detectSavedObject (page cases_url offline (\<lambda>sel. [])))
       = Some True
   \<and> map_option d_notExportableReason (detectSavedObject (page cases_url offline (\<lambda>sel. [])))
       = Some (Some ''Cases are not exportable via any known API'')
   \<and> map_of NON_EXPORTABLE_TYPES (template (r_type (plain_request ''cases'' None None)))
       = Some ''Cases are not exportable via any known API''
   \<and> \<not> embedded_fields (plain_request ''cases'' None None)
   \<and> \<not> truthy (r_id (plain_request ''cases'' None None))
   \<and> handle_exportSavedObject dash_world (plain_request ''cases'' None None)
       = ([], ExportFailure (Error ''No valid export target specified''))"
proof -
  let ?w = "page cases_url offline (\<lambda>sel. [])"
  let ?r = "plain_request ''cases'' None None"
  obtain d where det: "detectSavedObject ?w = Some d" and ty: "d_type d = ''cases''"
    using detect_cases_page by simp
  have tbl: "map_of NON_EXPORTABLE_TYPES ''cases''
               = Some ''Cases are not exportable via any known API''"
    by (simp add: NON_EXPORTABLE_TYPES_def)
  have rq: "map_of NON_EXPORTABLE_TYPES (template (r_type ?r))
              = Some ''Cases are not exportable via any known API''"
    "\<not> embedded_fields ?r" "\<not> truthy (r_id ?r)"
    by (simp_all add: plain_request_def template_def NON_EXPORTABLE_TYPES_def embedded_fields_def)
  from C2_non_exportable_types [where w = ?w and d = d] det ty tbl
  have flagged: "d_notExportable d"
    "d_notExportableReason d = Some ''Cases are not exportable via any known API''"
    by simp_all
  from C2_non_exportable_types [where w = dash_world and r = ?r] rq
  have refused: "handle_exportSavedObject dash_world ?r
       = ([], ExportFailure (Error ''No valid export target specified''))"
    by blast
  from det ty tbl rq flagged refused show ?thesis
    by simp
qed

subsection \<open>Scan handler\<close>

text \<open>
  Claim C9.  The response of the scan handler is always a list of resources.  When
  gathering the resources raises an error (which needs a dashboard page on which both the
  API harvest and the DOM harvest fail) the response is the empty list, the same response
  as on a page where nothing is recognized; otherwise it is the gathered list.
\<close>

theorem C9_scan_failure_is_empty_list:
  "(snd (getAllResources w) = Inl e \<longrightarrow>
      handle_getAllResources w = []
      \<and> (\<exists>m. detectSavedObject w = Some m \<and> js_includes ''/app/dashboards'' (href w)
             \<and> (\<exists>e'. snd (getEmbeddedPanelsFromAPI w (Some (JStr (d_id m)))) = Inl e')
             \<and> detectEmbeddedPanels w = Inl e))
   \<and> (detectSavedObject w' = None \<longrightarrow>
        snd (getAllResources w') = Inr [] \<and> handle_getAllResources w' = [])
   \<and> (\<forall>rs. snd (getAllResources w) = Inr rs \<longrightarrow> handle_getAllResources w = rs)"
proof (intro conjI impI allI)
  assume failed: "snd (getAllResources w) = Inl e"
  then show "handle_getAllResources w = []"
    by (simp add: handle_getAllResources_def)
  from failed show "\<exists>m. detectSavedObject w = Some m \<and> js_includes ''/app/dashboards'' (href w)
             \<and> (\<exists>e'. snd (getEmbeddedPanelsFromAPI w (Some (JStr (d_id m)))) = Inl e')
             \<and> detectEmbeddedPanels w = Inl e"
    by (auto simp: getAllResources_def Let_def
        split: option.splits if_splits prod.splits sum.splits)
next
  assume "detectSavedObject w' = None"
  then show "snd (getAllResources w') = Inr []" and "handle_getAllResources w' = []"
    by (simp_all add: getAllResources_def handle_getAllResources_def)
next
  fix rs
  assume "snd (getAllResources w) = Inr rs"
  then show "handle_getAllResources w = rs"
    by (simp add: handle_getAllResources_def)
qed

lemma detect_dash_url:
  "detectSavedObject (page dash_url net els) =
   Some \<lparr>d_type = ''dashboard'', d_id = ''abc-123'', d_title = Some ''Sales overview'',
         d_url = dash_url, d_useAlternativeApi = False, d_notExportable = False,
         d_notExportableReason = None\<rparr>"
  by (simp add: detectSavedObject_def page_def dash_url_def KIBANA_PATTERNS_def
      ALTERNATIVE_API_TYPES_def NON_EXPORTABLE_TYPES_def Let_def)

lemma dash_url_is_dashboard: "js_includes ''/app/dashboards'' dash_url"
  by (simp add: dash_url_def)

lemma detect_home_url: "detectSavedObject (page home_url net els) = None"
  by (simp add: detectSavedObject_def page_def home_url_def KIBANA_PATTERNS_def Let_def)

lemma fetch_offline:
  "fetchDashboardData (page u offline els) i
     = ([dashboard_request (page u offline els) i], Inl NetworkError)"
  by (simp add: fetchDashboardData_def page_def offline_def)

lemma page_fields [simp]:
  "href (page u net els) = u" "querySelectorAll (page u net els) = els"
  "fetch (page u net els) = net" "baseUrl (page u net els) = ''https://kibana.example''"
  by (simp_all add: page_def)

lemma getAllResources_broken_page:
  "snd (getAllResources (page dash_url offline (\<lambda>sel. [broken_element]))) = Inl TypeError"
  by (simp add: getAllResources_def detect_dash_url dash_url_is_dashboard
      getEmbeddedPanelsFromAPI_def fetch_offline detectEmbeddedPanels_def panelSelectors_def
      broken_element_def)

theorem C9_witness:
  "snd (getAllResources (page dash_url offline (\<lambda>sel. [broken_element]))) = Inl TypeError
   \<and> handle_getAllResources (page dash_url offline (\<lambda>sel. [broken_element])) = []
   \<and> detectEmbeddedPanels (page dash_url offline (\<lambda>sel. [broken_element])) = Inl TypeError
   \<and> detectSavedObject (page home_url offline (\<lambda>sel. [])) = None
   \<and> snd (getAllResources (page home_url offline (\<lambda>sel. []))) = Inr []
   \<and> handle_getAllResources (page home_url offline (\<lambda>sel. [])) = []"
  using C9_scan_failure_is_empty_list
    [of "page dash_url offline (\<lambda>sel. [broken_element])" TypeError
        "page home_url offline (\<lambda>sel. [])"]
    getAllResources_broken_page detect_home_url [of offline "\<lambda>sel. []"]
  by auto

subsection \<open>Resource aggregator\<close>

lemma match_pattern_nonempty: "match_pattern p url = Some seg \<Longrightarrow> seg \<noteq> []"
  by (induction url) (auto simp: Let_def split: if_splits)

lemma first_match_nonempty: "first_match ps url = Some (ty, seg) \<Longrightarrow> seg \<noteq> []"
  by (induction ps) (auto split: option.splits dest: match_pattern_nonempty)

lemma detected_id_nonempty: "detectSavedObject w = Some m \<Longrightarrow> d_id m \<noteq> []"
  by (auto simp: detectSavedObject_def split: option.splits dest: first_match_nonempty)

lemma getAllResources_dashboard:
  assumes "detectSavedObject w = Some m" and "js_includes ''/app/dashboards'' (href w)"
  shows "snd (getAllResources w) =
           (case snd (getEmbeddedPanelsFromAPI w (Some (JStr (d_id m)))) of
              Inr panels \<Rightarrow> Inr (Primary m # map EmbeddedPanel panels)
            | Inl e \<Rightarrow>
                (case detectEmbeddedPanels w of
                   Inl e' \<Rightarrow> Inl e'
                 | Inr domPanels \<Rightarrow> Inr (Primary m # map DomPanel domPanels)))"
  using assms detected_id_nonempty [OF assms(1)]
  by (simp add: getAllResources_def split: prod.splits sum.splits)

lemma api_harvest_result:
  "snd (getEmbeddedPanelsFromAPI w i) =
     (case fetch w (dashboard_request w i) of
        None \<Rightarrow> Inl NetworkError
      | Some r \<Rightarrow>
          if \<not> resp_ok r
          then Inl (Error (''Failed to fetch dashboard: '' @ digits (resp_status r)))
          else (case JSON_parse (resp_text r) of
                  None \<Rightarrow> Inl SyntaxError
                | Some dashboard \<Rightarrow>
                    (case panelsJSON_of dashboard of
                       Inl e \<Rightarrow> Inl e
                     | Inr panelsJSON \<Rightarrow>
                         if \<not> truthy panelsJSON then Inr []
                         else (case parse_panels (the panelsJSON) of
                                 Inl e \<Rightarrow> Inl e
                               | Inr panels \<Rightarrow>
                                   if JNull \<in> set panels then Inl TypeError
                                   else panel_resources i (js_sort grid_compare panels)))))"
  by (simp add: getEmbeddedPanelsFromAPI_def fetchDashboardData_def Let_def
      split: option.splits sum.splits)

text \<open>
  Claim C8, as amended.  On a dashboard page with an identifier, whenever the API
  harvest raises an error the aggregator runs the DOM harvester instead and, when that
  completes, returns the primary resource followed by the DOM panels.  A rejected fetch, a
  non-success status, a body that is not JSON, a panel-list text that is not JSON, a
  panel-list text whose value is not an array and a panel list with a \<^verbatim>\<open>null\<close> entry
  all raise such an error.  A missing or falsy panel-list field raises none: the API
  harvest then returns no panel, the DOM harvester is not run, and the result is the
  primary resource alone.
\<close>

theorem C8_api_failure_falls_back_to_dom:
  "detectSavedObject w = Some m \<and> js_includes ''/app/dashboards'' (href w) \<longrightarrow>
     (\<forall>e. snd (getEmbeddedPanelsFromAPI w (Some (JStr (d_id m)))) = Inl e \<longrightarrow>
        (\<forall>domPanels. detectEmbeddedPanels w = Inr domPanels \<longrightarrow>
           snd (getAllResources w) = Inr (Primary m # map DomPanel domPanels)))
   \<and> (fetch w (dashboard_request w (Some (JStr (d_id m)))) = None \<longrightarrow>
        snd (getEmbeddedPanelsFromAPI w (Some (JStr (d_id m)))) = Inl NetworkError)
   \<and> (\<forall>r. fetch w (dashboard_request w (Some (JStr (d_id m)))) = Some r \<longrightarrow>
        (\<not> resp_ok r \<longrightarrow>
           (\<exists>e. snd (getEmbeddedPanelsFromAPI w (Some (JStr (d_id m)))) = Inl e))
      \<and> (resp_ok r \<and> JSON_parse (resp_text r) = None \<longrightarrow>
           snd (getEmbeddedPanelsFromAPI w (Some (JStr (d_id m)))) = Inl SyntaxError)
      \<and> (\<forall>dashboard panelsJSON.
            resp_ok r \<and> JSON_parse (resp_text r) = Some dashboard
            \<and> panelsJSON_of dashboard = Inr panelsJSON \<longrightarrow>
              (truthy panelsJSON \<and> JSON_parse (js_toString (the panelsJSON)) = None \<longrightarrow>
                 snd (getEmbeddedPanelsFromAPI w (Some (JStr (d_id m)))) = Inl SyntaxError)
            \<and> (\<forall>v. truthy panelsJSON \<and> JSON_parse (js_toString (the panelsJSON)) = Some v
                    \<and> \<not> is_array v \<longrightarrow>
                 snd (getEmbeddedPanelsFromAPI w (Some (JStr (d_id m)))) = Inl TypeError)
            \<and> (\<forall>panels. truthy panelsJSON
                    \<and> JSON_parse (js_toString (the panelsJSON)) = Some (JArr panels)
                    \<and> JNull \<in> set panels \<longrightarrow>
                 snd (getEmbeddedPanelsFromAPI w (Some (JStr (d_id m)))) = Inl TypeError)
            \<and> (\<not> truthy panelsJSON \<longrightarrow>
                 snd (getEmbeddedPanelsFromAPI w (Some (JStr (d_id m)))) = Inr []
                 \<and> snd (getAllResources w) = Inr [Primary m])))"
proof (intro impI)
  assume page: "detectSavedObject w = Some m \<and> js_includes ''/app/dashboards'' (href w)"
  note agg = getAllResources_dashboard [of w m]
  show "(\<forall>e. snd (getEmbeddedPanelsFromAPI w (Some (JStr (d_id m)))) = Inl e \<longrightarrow>
        (\<forall>domPanels. detectEmbeddedPanels w = Inr domPanels \<longrightarrow>
           snd (getAllResources w) = Inr (Primary m # map DomPanel domPanels)))
   \<and> (fetch w (dashboard_request w (Some (JStr (d_id m)))) = None \<longrightarrow>
        snd (getEmbeddedPanelsFromAPI w (Some (JStr (d_id m)))) = Inl NetworkError)
   \<and> (\<forall>r. fetch w (dashboard_request w (Some (JStr (d_id m)))) = Some r \<longrightarrow>
        (\<not> resp_ok r \<longrightarrow>
           (\<exists>e. snd (getEmbeddedPanelsFromAPI w (Some (JStr (d_id m)))) = Inl e))
      \<and> (resp_ok r \<and> JSON_parse (resp_text r) = None \<longrightarrow>
           snd (getEmbeddedPanelsFromAPI w (Some (JStr (d_id m)))) = Inl SyntaxError)
      \<and> (\<forall>dashboard panelsJSON.
            resp_ok r \<and> JSON_parse (resp_text r) = Some dashboard
            \<and> panelsJSON_of dashboard = Inr panelsJSON \<longrightarrow>
              (truthy panelsJSON \<and> JSON_parse (js_toString (the panelsJSON)) = None \<longrightarrow>
                 snd (getEmbeddedPanelsFromAPI w (Some (JStr (d_id m)))) = Inl SyntaxError)
            \<and> (\<forall>v. truthy panelsJSON \<and> JSON_parse (js_toString (the panelsJSON)) = Some v
                    \<and> \<not> is_array v \<longrightarrow>
                 snd (getEmbeddedPanelsFromAPI w (Some (JStr (d_id m)))) = Inl TypeError)
            \<and> (\<forall>panels. truthy panelsJSON
                    \<and> JSON_parse (js_toString (the panelsJSON)) = Some (JArr panels)
                    \<and> JNull \<in> set panels \<longrightarrow>
                 snd (getEmbeddedPanelsFromAPI w (Some (JStr (d_id m)))) = Inl TypeError)
            \<and> (\<not> truthy panelsJSON \<longrightarrow>
                 snd (getEmbeddedPanelsFromAPI w (Some (JStr (d_id m)))) = Inr []
                 \<and> snd (getAllResources w) = Inr [Primary m])))"
  proof (intro conjI allI impI)
    fix e domPanels
    assume "snd (getEmbeddedPanelsFromAPI w (Some (JStr (d_id m)))) = Inl e"
      and "detectEmbeddedPanels w = Inr domPanels"
    then show "snd (getAllResources w) = Inr (Primary m # map DomPanel domPanels)"
      using agg page by simp
  next
    assume "fetch w (dashboard_request w (Some (JStr (d_id m)))) = None"
    then show "snd (getEmbeddedPanelsFromAPI w (Some (JStr (d_id m)))) = Inl NetworkError"
      by (simp add: api_harvest_result)
  next
    fix r
    assume "fetch w (dashboard_request w (Some (JStr (d_id m)))) = Some r" and "\<not> resp_ok r"
    then show "\<exists>e. snd (getEmbeddedPanelsFromAPI w (Some (JStr (d_id m)))) = Inl e"
      by (simp add: api_harvest_result)
  next
    fix r
    assume "fetch w (dashboard_request w (Some (JStr (d_id m)))) = Some r"
      and "resp_ok r \<and> JSON_parse (resp_text r) = None"
    then show "snd (getEmbeddedPanelsFromAPI w (Some (JStr (d_id m)))) = Inl SyntaxError"
      by (simp add: api_harvest_result)
  next
    fix r dashboard panelsJSON
    assume "fetch w (dashboard_request w (Some (JStr (d_id m)))) = Some r"
      and "resp_ok r \<and> JSON_parse (resp_text r) = Some dashboard
            \<and> panelsJSON_of dashboard = Inr panelsJSON"
      and "truthy panelsJSON \<and> JSON_parse (js_toString (the panelsJSON)) = None"
    then show "snd (getEmbeddedPanelsFromAPI w (Some (JStr (d_id m)))) = Inl SyntaxError"
      by (simp add: api_harvest_result parse_panels_def)
  next
    fix r dashboard panelsJSON v
    assume "fetch w (dashboard_request w (Some (JStr (d_id m)))) = Some r"
      and "resp_ok r \<and> JSON_parse (resp_text r) = Some dashboard
            \<and> panelsJSON_of dashboard = Inr panelsJSON"
      and "truthy panelsJSON \<and> JSON_parse (js_toString (the panelsJSON)) = Some v
            \<and> \<not> is_array v"
    then show "snd (getEmbeddedPanelsFromAPI w (Some (JStr (d_id m)))) = Inl TypeError"
      by (cases v) (simp_all add: api_harvest_result parse_panels_def is_array_def)
  next
    fix r dashboard panelsJSON panels
    assume "fetch w (dashboard_request w (Some (JStr (d_id m)))) = Some r"
      and "resp_ok r \<and> JSON_parse (resp_text r) = Some dashboard
            \<and> panelsJSON_of dashboard = Inr panelsJSON"
      and "truthy panelsJSON \<and> JSON_parse (js_toString (the panelsJSON)) = Some (JArr panels)
            \<and> JNull \<in> set panels"
    then show "snd (getEmbeddedPanelsFromAPI w (Some (JStr (d_id m)))) = Inl TypeError"
      by (simp add: api_harvest_result parse_panels_def)
  next
    fix r dashboard panelsJSON
    assume a: "fetch w (dashboard_request w (Some (JStr (d_id m)))) = Some r"
      "resp_ok r \<and> JSON_parse (resp_text r) = Some dashboard
            \<and> panelsJSON_of dashboard = Inr panelsJSON"
      "\<not> truthy panelsJSON"
    then show api: "snd (getEmbeddedPanelsFromAPI w (Some (JStr (d_id m)))) = Inr []"
      by (simp add: api_harvest_result)
    then show "snd (getAllResources w) = Inr [Primary m]"
      using agg page by simp
  qed
qed

lemma detect_dashboard_descriptor:
  "detectSavedObject (page dash_url net els) = Some dashboard_descriptor"
  by (simp add: detect_dash_url dashboard_descriptor_def)

lemma dom_single_panel:
  "detectEmbeddedPanels (page u net (\<lambda>sel. [element_at info t l])) = Inr [info]"
  by (simp add: detectEmbeddedPanels_def panelSelectors_def element_at_def js_sort_def)

text \<open>
  The claim C8 as stated fails for a missing panel-list field: the dashboard is fetched,
  its attributes hold no \<open>panelsJSON\<close>, the page shows a panel that the DOM harvester
  finds, and the scan returns the dashboard alone.
\<close>

theorem C8_counterexample:
  "panelsJSON_of bare_dashboard = Inr None
   \<and> detectEmbeddedPanels
        (page dash_url (serving (JSON_stringify bare_dashboard))
           (\<lambda>sel. [element_at (dom_panel ''Revenue'') 0 0]))
       = Inr [dom_panel ''Revenue'']
   \<and> snd (getAllResources
            (page dash_url (serving (JSON_stringify bare_dashboard))
               (\<lambda>sel. [element_at (dom_panel ''Revenue'') 0 0])))
       = Inr [Primary dashboard_descriptor]"
proof -
  have missing: "panelsJSON_of bare_dashboard = Inr None"
    by (simp add: panelsJSON_of_def bare_dashboard_def opt_prop_def)
  then show ?thesis
    by (simp add: dom_single_panel getAllResources_def detect_dashboard_descriptor
        dash_url_is_dashboard getEmbeddedPanelsFromAPI_def fetch_served_dashboard
        dashboard_descriptor_def)
qed

lemma panelsJSON_of_text_dashboard:
  "panelsJSON_of (text_dashboard t) = Inr (Some (JStr t))"
  by (simp add: panelsJSON_of_def text_dashboard_def opt_prop_def)

lemma parse_object_text: "JSON_parse ''{\"panels\":[]}'' = Some (JObj [(''panels'', JArr [])])"
  by code_simp

text \<open>
  Two failing harvests with a panel on the page: the fetch is rejected; and the panel-list
  text is the JSON object \<^verbatim>\<open>{"panels":[]}\<close>, which has no \<^verbatim>\<open>sort\<close> method.
\<close>

theorem C8_witness:
  "detectSavedObject (page dash_url offline (\<lambda>sel. [element_at (dom_panel ''Revenue'') 0 0]))
     = Some dashboard_descriptor
   \<and> js_includes ''/app/dashboards''
        (href (page dash_url offline (\<lambda>sel. [element_at (dom_panel ''Revenue'') 0 0])))
   \<and> snd (getEmbeddedPanelsFromAPI
            (page dash_url offline (\<lambda>sel. [element_at (dom_panel ''Revenue'') 0 0]))
            (Some (JStr (d_id dashboard_descriptor)))) = Inl NetworkError
   \<and> detectEmbeddedPanels (page dash_url offline (\<lambda>sel. [element_at (dom_panel ''Revenue'') 0 0]))
       = Inr [dom_panel ''Revenue'']
   \<and> snd (getAllResources (page dash_url offline (\<lambda>sel. [element_at (dom_panel ''Revenue'') 0 0])))
       = Inr [Primary dashboard_descriptor, DomPanel (dom_panel ''Revenue'')]
   \<and> JSON_parse (js_toString (JStr ''{\"panels\":[]}'')) = Some (JObj [(''panels'', JArr [])])
   \<and> \<not> is_array (JObj [(''panels'', JArr [])])
   \<and> snd (getEmbeddedPanelsFromAPI
            (page dash_url (serving (JSON_stringify (text_dashboard ''{\"panels\":[]}'')))
               (\<lambda>sel. [element_at (dom_panel ''Revenue'') 0 0]))
            (Some (JStr (d_id dashboard_descriptor)))) = Inl TypeError
   \<and> snd (getAllResources
            (page dash_url (serving (JSON_stringify (text_dashboard ''{\"panels\":[]}'')))
               (\<lambda>sel. [element_at (dom_panel ''Revenue'') 0 0])))
       = Inr [Primary dashboard_descriptor, DomPanel (dom_panel ''Revenue'')]"
proof -
  let ?els = "\<lambda>sel :: string. [element_at (dom_panel ''Revenue'') 0 0]"
  let ?w = "page dash_url offline ?els"
  let ?doc = "text_dashboard ''{\"panels\":[]}''"
  let ?r = "ok_response (JSON_stringify ?doc)"
  let ?v = "page dash_url (serving (JSON_stringify ?doc)) ?els"
  have det: "detectSavedObject ?w = Some dashboard_descriptor"
    "detectSavedObject ?v = Some dashboard_descriptor"
    by (rule detect_dashboard_descriptor)+
  have inc: "js_includes ''/app/dashboards'' (href ?w)" "js_includes ''/app/dashboards'' (href ?v)"
    by (simp_all add: dash_url_is_dashboard)
  have net: "fetch ?w (dashboard_request ?w (Some (JStr (d_id dashboard_descriptor)))) = None"
    by (simp add: offline_def)
  have domres: "detectEmbeddedPanels ?w = Inr [dom_panel ''Revenue'']"
    "detectEmbeddedPanels ?v = Inr [dom_panel ''Revenue'']"
    by (rule dom_single_panel)+
  note main = C8_api_failure_falls_back_to_dom [of ?w dashboard_descriptor]
  from main det inc net
  have api: "snd (getEmbeddedPanelsFromAPI ?w (Some (JStr (d_id dashboard_descriptor))))
               = Inl NetworkError"
    by blast
  from main det inc api domres
  have dom: "snd (getAllResources ?w)
               = Inr (Primary dashboard_descriptor # map DomPanel [dom_panel ''Revenue''])"
    by blast
  have served: "fetch ?v (dashboard_request ?v (Some (JStr (d_id dashboard_descriptor)))) = Some ?r"
    by (simp add: serving_def)
  have body: "resp_ok ?r" "JSON_parse (resp_text ?r) = Some ?doc"
    by (simp_all add: ok_response_def JSON_parse_stringify)
  have field: "panelsJSON_of ?doc = Inr (Some (JStr ''{\"panels\":[]}''))"
    "truthy (Some (JStr ''{\"panels\":[]}''))"
    by (simp_all add: panelsJSON_of_text_dashboard)
  have parsed: "JSON_parse (js_toString (the (Some (JStr ''{\"panels\":[]}''))))
                  = Some (JObj [(''panels'', JArr [])])"
    "\<not> is_array (JObj [(''panels'', JArr [])])"
    by (simp_all add: parse_object_text is_array_def)
  note other = C8_api_failure_falls_back_to_dom [of ?v dashboard_descriptor]
  from other det inc served body field parsed
  have api': "snd (getEmbeddedPanelsFromAPI ?v (Some (JStr (d_id dashboard_descriptor))))
               = Inl TypeError"
    by blast
  from other det inc api' domres
  have dom': "snd (getAllResources ?v)
               = Inr (Primary dashboard_descriptor # map DomPanel [dom_panel ''Revenue''])"
    by blast
  from det inc api domres dom parsed api' dom' show ?thesis
    by simp
qed

subsection \<open>The sort of the harvesters\<close>

lemma set_insert_sorted [simp]: "set (insert_sorted cmp a bs) = insert a (set bs)"
  by (induction bs) auto

lemma mset_insert_sorted [simp]: "mset (insert_sorted cmp a bs) = add_mset a (mset bs)"
  by (induction bs) auto

lemma mset_js_sort [simp]: "mset (js_sort cmp xs) = mset xs"
  by (induction xs) (simp_all add: js_sort_def)

lemma set_js_sort [simp]: "set (js_sort cmp xs) = set xs"
  by (induction xs) (simp_all add: js_sort_def)

lemma sorted_insert_sorted:
  assumes total: "\<forall>x\<in>S. \<forall>y\<in>S. sorts_after cmp x y \<longrightarrow> \<not> sorts_after cmp y x"
    and trans: "\<forall>x\<in>S. \<forall>y\<in>S. \<forall>z\<in>S.
                  \<not> sorts_after cmp x y \<longrightarrow> \<not> sorts_after cmp y z \<longrightarrow> \<not> sorts_after cmp x z"
    and "a \<in> S" and "set bs \<subseteq> S"
    and "sorted_wrt (\<lambda>x y. \<not> sorts_after cmp x y) bs"
  shows "sorted_wrt (\<lambda>x y. \<not> sorts_after cmp x y) (insert_sorted cmp a bs)"
  using assms(3-5)
proof (induction bs)
  case Nil
  then show ?case by simp
next
  case (Cons b bs)
  from Cons.prems have b: "b \<in> S" and bs: "set bs \<subseteq> S"
    and sorted_bs: "sorted_wrt (\<lambda>x y. \<not> sorts_after cmp x y) bs"
    and b_first: "\<forall>x\<in>set bs. \<not> sorts_after cmp b x"
    by simp_all
  show ?case
  proof (cases "sorts_after cmp a b")
    case True
    have ba: "\<not> sorts_after cmp b a"
      using total Cons.prems(1) b True by blast
    have rest: "sorted_wrt (\<lambda>x y. \<not> sorts_after cmp x y) (insert_sorted cmp a bs)"
      using Cons.IH [OF Cons.prems(1) bs sorted_bs] .
    have "\<forall>x\<in>set (insert_sorted cmp a bs). \<not> sorts_after cmp b x"
      using ba b_first by simp
    with rest True show ?thesis by simp
  next
    case False
    have "\<forall>x\<in>set bs. \<not> sorts_after cmp a x"
    proof
      fix x
      assume x: "x \<in> set bs"
      with b_first have "\<not> sorts_after cmp b x" by blast
      moreover from x bs have "x \<in> S" by blast
      ultimately show "\<not> sorts_after cmp a x"
        using trans Cons.prems(1) b False by blast
    qed
    with False b_first sorted_bs show ?thesis by simp
  qed
qed

lemma sorted_js_sort:
  assumes total: "\<forall>x\<in>set xs. \<forall>y\<in>set xs. sorts_after cmp x y \<longrightarrow> \<not> sorts_after cmp y x"
    and trans: "\<forall>x\<in>set xs. \<forall>y\<in>set xs. \<forall>z\<in>set xs.
                  \<not> sorts_after cmp x y \<longrightarrow> \<not> sorts_after cmp y z \<longrightarrow> \<not> sorts_after cmp x z"
  shows "sorted_wrt (\<lambda>x y. \<not> sorts_after cmp x y) (js_sort cmp xs)"
proof -
  have "set ys \<subseteq> set xs \<Longrightarrow> sorted_wrt (\<lambda>x y. \<not> sorts_after cmp x y) (js_sort cmp ys)" for ys
  proof (induction ys)
    case Nil
    show ?case by (simp add: js_sort_def)
  next
    case (Cons a ys)
    then have a: "a \<in> set xs" and ys: "set ys \<subseteq> set xs" by simp_all
    have "sorted_wrt (\<lambda>x y. \<not> sorts_after cmp x y) (insert_sorted cmp a (js_sort cmp ys))"
      by (rule sorted_insert_sorted [OF total trans a]) (simp_all add: ys Cons.IH)
    then show ?case by (simp add: js_sort_def)
  qed
  then show ?thesis by simp
qed



lemma sorted_wrt_strict_order:
  assumes "sorted_wrt R out" and "i < length out" and "j < length out"
    and "\<not> R (out ! j) (out ! i)" and "i \<noteq> j"
  shows "i < j"
proof (rule ccontr)
  assume "\<not> i < j"
  with assms(5) have "j < i" by simp
  with assms(1,2) have "R (out ! j) (out ! i)"
    by (simp add: sorted_wrt_iff_nth_less)
  with assms(4) show False by simp
qed

subsection \<open>Panel harvester, API path\<close>

lemma pow10_cancel_less:
  assumes "m * 10 ^ a = n * 10 ^ b" and "a < b" and "\<not> 10 dvd (m::nat)"
  shows False
proof -
  from assms(2) obtain j where b: "b = a + Suc j"
    using less_iff_Suc_add by auto
  have "m * 10 ^ a = (n * 10 ^ Suc j) * 10 ^ a"
    using assms(1) by (simp add: b power_add mult_ac)
  then have "m = n * 10 ^ Suc j"
    by simp
  then have "10 dvd m"
    by simp
  with assms(3) show False by simp
qed

lemma pow10_cancel:
  assumes "m * 10 ^ a = n * 10 ^ b" and "\<not> 10 dvd (m::nat)" and "\<not> 10 dvd n"
  shows "a = b \<and> m = n"
proof -
  have "\<not> a < b"
    using pow10_cancel_less [OF assms(1) _ assms(2)] by blast
  moreover have "\<not> b < a"
    using pow10_cancel_less [OF assms(1) [symmetric] _ assms(3)] by blast
  ultimately have "a = b" by simp
  with assms(1) show ?thesis by simp
qed

lemma mantissa_not_dvd: "\<not> 10 dvd (10 * q + digit_of d)"
proof
  assume "10 dvd (10 * q + digit_of d)"
  then have "10 dvd digit_of d"
    by (simp add: dvd_add_right_iff)
  then have "digit_of d mod 10 = 0"
    by simp
  with digit_of_range [of d] show False
    by simp
qed

lemma frac_not_integer: "number_value (JFrac neg q d k) \<noteq> of_int i"
proof
  assume eq: "number_value (JFrac neg q d k) = of_int i"
  let ?m = "10 * q + digit_of d"
  have "(if neg then - 1 else 1) * real ?m = of_int i * 10 ^ Suc k"
    using eq by (simp add: field_simps split: if_splits)
  then have "(of_int ((if neg then - 1 else 1) * int ?m) :: real) = of_int (i * 10 ^ Suc k)"
    by (simp split: if_splits)
  then have "(if neg then - 1 else 1) * int ?m = i * 10 ^ Suc k"
    using of_int_eq_iff by blast
  then have "10 dvd (if neg then - 1 else 1) * int ?m"
    by simp
  then have "10 dvd int ?m"
    by (cases neg) (simp_all only: if_True if_False mult_minus1 mult_1 dvd_minus_iff)
  then have "10 dvd ?m"
    by presburger
  with mantissa_not_dvd show False by blast
qed

lemma frac_value_inj:
  assumes "number_value (JFrac neg q d k) = number_value (JFrac neg' q' d' k')"
  shows "neg = neg' \<and> q = q' \<and> d = d' \<and> k = k'"
proof -
  let ?m = "10 * q + digit_of d" and ?n = "10 * q' + digit_of d'"
  define r where "r = real ?m / 10 ^ Suc k"
  define r' where "r' = real ?n / 10 ^ Suc k'"
  have v: "number_value (JFrac neg q d k) = (if neg then - r else r)"
    and v': "number_value (JFrac neg' q' d' k') = (if neg' then - r' else r')"
    by (simp_all add: r_def r'_def field_simps)
  have pos: "0 < r" "0 < r'"
    using digit_of_range(1) [of d] digit_of_range(1) [of d'] by (simp_all add: r_def r'_def)
  have "(if neg then - r else r) = (if neg' then - r' else r')"
    using assms unfolding v v' .
  with pos have sign: "neg = neg'" and "r = r'"
    by (auto split: if_splits)
  then have "real ?m / 10 ^ Suc k = real ?n / 10 ^ Suc k'"
    by (simp only: r_def r'_def)
  then have "real ?m * 10 ^ Suc k' = real ?n * 10 ^ Suc k"
    by (simp add: frac_eq_eq)
  then have "real (?m * 10 ^ Suc k') = real (?n * 10 ^ Suc k)"
    by simp
  then have "?m * 10 ^ Suc k' = ?n * 10 ^ Suc k"
    using of_nat_eq_iff by blast
  from pow10_cancel [OF this mantissa_not_dvd mantissa_not_dvd]
  have k: "k' = k" and m: "?m = ?n" by simp_all
  from m have "?m mod 10 = ?n mod 10" "?m div 10 = ?n div 10" by simp_all
  with digit_of_range [of d] digit_of_range [of d'] have dd: "digit_of d = digit_of d'"
    and qq: "q = q'"
    by simp_all
  from dd have "d = d'"
    by (metis nzdigit_of_digit_of)
  with sign k qq show ?thesis by simp
qed

lemma number_value_inj:
  assumes "is_number a" and "is_number b" and "number_value a = number_value b"
  shows "a = b"
proof (cases a)
  case (JNum i)
  show ?thesis
  proof (cases b)
    case (JNum j)
    with \<open>a = JNum i\<close> assms(3) show ?thesis by simp
  next
    case (JFrac neg q d k)
    with \<open>a = JNum i\<close> assms(3) frac_not_integer [of neg q d k i] show ?thesis by simp
  qed (use assms(2) in \<open>simp_all add: is_number_def\<close>)
next
  case (JFrac neg q d k)
  show ?thesis
  proof (cases b)
    case (JNum j)
    with \<open>a = JFrac neg q d k\<close> assms(3) frac_not_integer [of neg q d k j] show ?thesis by simp
  next
    case b: (JFrac neg' q' d' k')
    with JFrac assms(3) frac_value_inj [of neg q d k neg' q' d' k'] show ?thesis by simp
  qed (use assms(2) in \<open>simp_all add: is_number_def\<close>)
qed (use assms(1) in \<open>simp_all add: is_number_def\<close>)

lemma strict_eq_numbers:
  assumes "is_number a" and "is_number b"
  shows "strict_eq (Some a) (Some b) \<longleftrightarrow> number_value a = number_value b"
proof
  assume "strict_eq (Some a) (Some b)"
  with assms have "a = b"
    by (cases a; cases b) (simp_all add: strict_eq_def is_number_def)
  then show "number_value a = number_value b" by simp
next
  assume "number_value a = number_value b"
  with assms have "a = b" by (rule number_value_inj)
  moreover have "strict_eq (Some b) (Some b)"
    using assms(2) by (cases b) (simp_all add: strict_eq_def is_number_def)
  ultimately show "strict_eq (Some a) (Some b)" by simp
qed

lemma js_minus_numbers:
  assumes "is_number a" and "is_number b"
  shows "js_minus (Some a) (Some b) = Some (Finite (number_value a - number_value b))"
  using assms by (cases a; cases b) (simp_all add: js_minus_def is_number_def)

lemma plain_number_is_number: "is_plain_number x \<Longrightarrow> is_number x"
  by (cases x) (simp_all add: is_plain_number_def is_number_def)

lemma grid_key_props:
  assumes "grid_key a = Some (y, x)"
  shows "\<exists>vy vx. get_prop ''y'' (grid_of a) = Some vy \<and> get_prop ''x'' (grid_of a) = Some vx
           \<and> is_number vy \<and> is_number vx \<and> number_value vy = y \<and> number_value vx = x"
  using assms
  by (auto simp: grid_key_def plain_number_is_number split: option.splits if_splits)

lemma grid_compare_keys:
  assumes "grid_key a = Some (ya, xa)" and "grid_key b = Some (yb, xb)"
  shows "grid_compare a b = Some (Finite (if ya \<noteq> yb then ya - yb else xa - xb))"
proof -
  from grid_key_props [OF assms(1)] obtain ay ax where
    a: "get_prop ''y'' (grid_of a) = Some ay" "get_prop ''x'' (grid_of a) = Some ax"
       "is_number ay" "is_number ax" "number_value ay = ya" "number_value ax = xa"
    by blast
  from grid_key_props [OF assms(2)] obtain by' bx where
    b: "get_prop ''y'' (grid_of b) = Some by'" "get_prop ''x'' (grid_of b) = Some bx"
       "is_number by'" "is_number bx" "number_value by' = yb" "number_value bx = xb"
    by blast
  show ?thesis
    by (simp add: grid_compare_def Let_def a(1,2) b(1,2) strict_eq_numbers [OF a(3) b(3)]
        js_minus_numbers [OF a(3) b(3)] js_minus_numbers [OF a(4) b(4)] a(5,6) b(5,6))
qed

lemma positive_Finite [simp]: "0 < Finite r \<longleftrightarrow> 0 < r"
  by (simp add: less_extended_def zero_extended_def)






lemma grid_key_grid_panel [simp]:
  "\<bar>y\<bar> < 10 ^ 15 \<Longrightarrow> \<bar>x\<bar> < 10 ^ 15 \<Longrightarrow>
     grid_key (grid_panel name y x) = Some (real_of_int y, real_of_int x)"
  by (simp add: grid_key_def grid_of_def grid_panel_def is_plain_number_def)

lemma grid_panel_not_null [simp]:
  "grid_panel name y x \<noteq> JNull" "JNull \<noteq> grid_panel name y x"
  by (simp_all add: grid_panel_def)

lemma panel_resource_grid_panel:
  "name \<noteq> [] \<Longrightarrow>
   panel_resource (Some (JStr ''abc-123'')) (grid_panel name y x) = Inr (grid_resource name)"
  by (simp add: panel_resource_def extractPanelSubType_def extractPanelTitle_def Let_def
      grid_panel_def grid_resource_def opt_prop_def)



lemma panel_resource_bare_grid_panel:
  "name \<noteq> [] \<Longrightarrow>
   panel_resource (Some (JStr ''abc-123'')) (bare_grid_panel name) = Inr (grid_resource name)"
  by (simp add: panel_resource_def extractPanelSubType_def extractPanelTitle_def Let_def
      bare_grid_panel_def grid_resource_def opt_prop_def)

lemma gap_rows:
  "get_prop ''y'' (grid_of (grid_panel ''row1'' 1 0)) = Some (JNum 1)"
  "get_prop ''y'' (grid_of (bare_grid_panel ''nogrid'')) = None"
  "get_prop ''y'' (grid_of (grid_panel ''row0'' 0 0)) = Some (JNum 0)"
  by (simp_all add: grid_of_def grid_panel_def bare_grid_panel_def)

lemma gap_comparisons:
  "grid_compare (bare_grid_panel ''nogrid'') (grid_panel ''row0'' 0 0) = None"
  "grid_compare (grid_panel ''row1'' 1 0) (bare_grid_panel ''nogrid'') = None"
  by (simp_all add: grid_compare_def Let_def gap_rows strict_eq_def js_minus_def)

text \<open>
  The claim C6 as stated fails for a panel whose grid data has no coordinates: the
  comparator yields \<^verbatim>\<open>NaN\<close> against it, which counts as 0, so the panel of row 1 declared
  before it and the panel of row 0 declared after it both stay where they are, and the
  harvested list has row 1 before row 0.
\<close>

theorem C6_counterexample:
  "fetchDashboardData gap_world (Some (JStr ''abc-123''))
     = ([dashboard_request gap_world (Some (JStr ''abc-123''))], Inr (dashboard_doc gap_panels))
   \<and> panelsJSON_of (dashboard_doc gap_panels)
       = Inr (Some (JStr (JSON_stringify (JArr gap_panels))))
   \<and> parse_panels (JStr (JSON_stringify (JArr gap_panels))) = Inr gap_panels
   \<and> gap_panels = [grid_panel ''row1'' 1 0, bare_grid_panel ''nogrid'', grid_panel ''row0'' 0 0]
   \<and> get_prop ''gridData'' (bare_grid_panel ''nogrid'') = Some (JObj [])
   \<and> get_prop ''y'' (grid_of (grid_panel ''row1'' 1 0)) = Some (JNum 1)
   \<and> get_prop ''y'' (grid_of (grid_panel ''row0'' 0 0)) = Some (JNum 0)
   \<and> snd (getEmbeddedPanelsFromAPI gap_world (Some (JStr ''abc-123'')))
       = Inr [grid_resource ''row1'', grid_resource ''nogrid'', grid_resource ''row0'']
   \<and> map ap_panelIndex [grid_resource ''row1'', grid_resource ''nogrid'', grid_resource ''row0'']
       = [Some (JStr ''row1''), Some (JStr ''nogrid''), Some (JStr ''row0'')]"
proof -
  have harvest: "snd (getEmbeddedPanelsFromAPI gap_world (Some (JStr ''abc-123'')))
       = Inr [grid_resource ''row1'', grid_resource ''nogrid'', grid_resource ''row0'']"
    by (simp add: getEmbeddedPanelsFromAPI_def gap_world_def fetch_served_dashboard
        panelsJSON_of_dashboard_doc parse_panels_stringify gap_panels_def js_sort_def
        sorts_after_def gap_comparisons panel_resource_grid_panel
        panel_resource_bare_grid_panel)
       (simp add: bare_grid_panel_def)
  have "get_prop ''gridData'' (bare_grid_panel ''nogrid'') = Some (JObj [])"
    by (simp add: bare_grid_panel_def)
  with harvest show ?thesis
    by (simp add: gap_world_def fetch_served_dashboard panelsJSON_of_dashboard_doc
        parse_panels_stringify gap_rows grid_resource_def)
       (simp add: gap_panels_def)
qed

text \<open>
  Coordinates need not be integers: in a panel list whose text has the rows \<^verbatim>\<open>2.5e0\<close>
  and \<^verbatim>\<open>0.5\<close> the panel of row 0.5 is harvested first.
\<close>

lemma half_row_parse:
  "JSON_parse half_row_text
     = Some (JArr [half_panel ''low'' (JFrac False 2 D5 0),
                   half_panel ''high'' (JFrac False 0 D5 0)])"
  by code_simp

lemma half_row_keys:
  "grid_key (half_panel ''low'' (JFrac False 2 D5 0)) = Some (5 / 2, 0)"
  "grid_key (half_panel ''high'' (JFrac False 0 D5 0)) = Some (1 / 2, 0)"
  by (simp_all add: grid_key_def grid_of_def half_panel_def is_plain_number_def)

lemma half_row_harvest:
  "snd (getEmbeddedPanelsFromAPI half_row_world (Some (JStr ''abc-123'')))
     = Inr [grid_resource ''high'', grid_resource ''low'']"
proof -
  have r: "panel_resource (Some (JStr ''abc-123'')) (half_panel name y) = Inr (grid_resource name)"
    if "name \<noteq> []" for name y
    using that
    by (simp add: panel_resource_def extractPanelSubType_def extractPanelTitle_def Let_def
        half_panel_def grid_resource_def opt_prop_def)
  have n: "half_panel name y \<noteq> JNull" "JNull \<noteq> half_panel name y" for name y
    by (simp_all add: half_panel_def)
  have t: "half_row_text \<noteq> []"
    by (simp add: half_row_text_def)
  show ?thesis
    by (simp add: getEmbeddedPanelsFromAPI_def half_row_world_def fetch_served_dashboard
        panelsJSON_of_text_dashboard parse_panels_def half_row_parse js_sort_def
        sorts_after_def grid_compare_keys [OF half_row_keys(1) half_row_keys(2)] r n t)
qed

subsection \<open>Panel harvester, DOM path\<close>

lemma sorts_after_position:
  "sorts_after position_compare a b \<longleftrightarrow> \<not> dom_order a b"
  by (auto simp: sorts_after_def position_compare_def Let_def dom_order_def same_row_def
      pos_top_def pos_left_def)

lemma dom_order_total: "\<not> dom_order a b \<Longrightarrow> dom_order b a"
  by (auto simp: dom_order_def same_row_def split: if_splits)

lemma dom_order_trans:
  assumes "same_row x y \<Longrightarrow> same_row y z \<Longrightarrow> same_row x z"
    and "same_row y x \<Longrightarrow> same_row x z \<Longrightarrow> same_row y z"
    and "same_row x z \<Longrightarrow> same_row z y \<Longrightarrow> same_row x y"
    and "dom_order x y" and "dom_order y z"
  shows "dom_order x z"
proof -
  have sym: "same_row a b \<longleftrightarrow> same_row b a" for a b
    by (auto simp: same_row_def)
  consider (nn) "same_row x y" "same_row y z"
    | (nf) "same_row x y" "\<not> same_row y z"
    | (fn) "\<not> same_row x y" "same_row y z"
    | (ff) "\<not> same_row x y" "\<not> same_row y z"
    by blast
  then show ?thesis
  proof cases
    case nn
    with assms(1) have "same_row x z" by blast
    with nn assms(4,5) show ?thesis by (simp add: dom_order_def)
  next
    case nf
    have far: "\<not> same_row x z"
      using assms(2) nf sym by blast
    from nf assms(5) have "pos_top y < pos_top z" by (simp add: dom_order_def)
    with nf have "pos_top x < pos_top z"
      by (simp add: same_row_def)
    with far show ?thesis by (simp add: dom_order_def)
  next
    case fn
    have far: "\<not> same_row x z"
      using assms(3) fn sym by blast
    from fn assms(4) have "pos_top x < pos_top y" by (simp add: dom_order_def)
    with fn have "pos_top x < pos_top z"
      by (simp add: same_row_def)
    with far show ?thesis by (simp add: dom_order_def)
  next
    case ff
    with assms(4,5) have "pos_top x < pos_top y" "pos_top y < pos_top z"
      by (simp_all add: dom_order_def)
    with ff show ?thesis
      by (simp add: dom_order_def same_row_def)
  qed
qed

lemma position_sorted:
  assumes rows: "\<forall>a\<in>set ps. \<forall>b\<in>set ps. \<forall>c\<in>set ps. same_row a b \<and> same_row b c \<longrightarrow> same_row a c"
  shows "sorted_wrt dom_order (js_sort position_compare ps)"
proof -
  have total: "\<forall>x\<in>set ps. \<forall>y\<in>set ps.
                 sorts_after position_compare x y \<longrightarrow> \<not> sorts_after position_compare y x"
    using dom_order_total by (auto simp: sorts_after_position)
  have trans: "\<forall>x\<in>set ps. \<forall>y\<in>set ps. \<forall>z\<in>set ps.
                 \<not> sorts_after position_compare x y \<longrightarrow> \<not> sorts_after position_compare y z
                 \<longrightarrow> \<not> sorts_after position_compare x z"
  proof (intro ballI impI)
    fix x y z
    assume m: "x \<in> set ps" "y \<in> set ps" "z \<in> set ps"
      and o: "\<not> sorts_after position_compare x y" "\<not> sorts_after position_compare y z"
    have "dom_order x z"
    proof (rule dom_order_trans)
      show "dom_order x y" "dom_order y z"
        using o by (simp_all add: sorts_after_position)
    qed (use rows m in blast)+
    then show "\<not> sorts_after position_compare x z"
      by (simp add: sorts_after_position)
  qed
  have "sorted_wrt (\<lambda>x y. \<not> sorts_after position_compare x y) (js_sort position_compare ps)"
    by (rule sorted_js_sort [OF total trans])
  then show ?thesis
    by (simp add: sorts_after_position)
qed

text \<open>
  Claim C7, as amended.  The DOM harvester returns the descriptors alone, without
  positions, of the collected panels rearranged by its sort.  When "within 50 units of top
  offset" is transitive among the collected panels, so that they fall into rows, every
  panel that precedes another in the output has a left offset not greater than the other's
  if the two are within 50 units of top offset, and a strictly smaller top offset
  otherwise.
\<close>

theorem C7_dom_panels_sorted_by_rows:
  "collect_panels (first_nonempty (querySelectorAll w) panelSelectors) = Inr ps
   \<and> (\<forall>a\<in>set ps. \<forall>b\<in>set ps. \<forall>c\<in>set ps. same_row a b \<and> same_row b c \<longrightarrow> same_row a c)
   \<longrightarrow> (\<exists>out. detectEmbeddedPanels w = Inr (map fst out)
              \<and> mset out = mset ps
              \<and> sorted_wrt dom_order out
              \<and> (\<forall>i j. i < j \<and> j < length out \<longrightarrow>
                    (if \<bar>pos_top (out ! i) - pos_top (out ! j)\<bar> \<le> 50
                     then pos_left (out ! i) \<le> pos_left (out ! j)
                     else pos_top (out ! i) < pos_top (out ! j))))"
proof (intro impI)
  assume a: "collect_panels (first_nonempty (querySelectorAll w) panelSelectors) = Inr ps
   \<and> (\<forall>a\<in>set ps. \<forall>b\<in>set ps. \<forall>c\<in>set ps. same_row a b \<and> same_row b c \<longrightarrow> same_row a c)"
  let ?out = "js_sort position_compare ps"
  from a have res: "detectEmbeddedPanels w = Inr (map fst ?out)"
    by (simp add: detectEmbeddedPanels_def)
  from a have sorted: "sorted_wrt dom_order ?out"
    using position_sorted by blast
  then have "\<forall>i j. i < j \<and> j < length ?out \<longrightarrow> dom_order (?out ! i) (?out ! j)"
    by (simp add: sorted_wrt_iff_nth_less)
  then have pairwise: "\<forall>i j. i < j \<and> j < length ?out \<longrightarrow>
                    (if \<bar>pos_top (?out ! i) - pos_top (?out ! j)\<bar> \<le> 50
                     then pos_left (?out ! i) \<le> pos_left (?out ! j)
                     else pos_top (?out ! i) < pos_top (?out ! j))"
    by (simp add: dom_order_def same_row_def)
  from res sorted pairwise show "\<exists>out. detectEmbeddedPanels w = Inr (map fst out)
              \<and> mset out = mset ps
              \<and> sorted_wrt dom_order out
              \<and> (\<forall>i j. i < j \<and> j < length out \<longrightarrow>
                    (if \<bar>pos_top (out ! i) - pos_top (out ! j)\<bar> \<le> 50
                     then pos_left (out ! i) \<le> pos_left (out ! j)
                     else pos_top (out ! i) < pos_top (out ! j)))"
    by (intro exI [of _ ?out]) simp
qed

lemma collect_element_at:
  "collect_panels (map (\<lambda>(i, t, l). element_at i t l) ps) = Inr ps"
  by (induction ps) (auto simp: element_at_def)

lemma staircase_collected:
  "collect_panels (first_nonempty staircase panelSelectors)
     = Inr [(dom_panel ''A'', 0, 100), (dom_panel ''B'', 40, 50), (dom_panel ''C'', 80, 0)]"
  by (simp add: panelSelectors_def staircase_def element_at_def)

text \<open>
  Three panels at top offsets 0, 40 and 80 with left offsets 100, 50 and 0.  No
  arrangement of them follows the rule of claim C7, whatever the sorting algorithm: A and B
  are within 50 units, so B (left 50) must come before A (left 100); B and C are within 50
  units, so C (left 0) must come before B; A and C are 80 units apart, so A (top 0) must come
  before C.
\<close>

lemma staircase_has_no_row_order:
  assumes "sorted_wrt dom_order out"
    and "(dom_panel ''A'', 0, 100) \<in> set out" and "(dom_panel ''B'', 40, 50) \<in> set out"
    and "(dom_panel ''C'', 80, 0) \<in> set out"
  shows False
proof -
  let ?A = "(dom_panel ''A'', 0::real, 100::real)"
  let ?B = "(dom_panel ''B'', 40::real, 50::real)"
  let ?C = "(dom_panel ''C'', 80::real, 0::real)"
  obtain i j k where ijk: "i < length out" "out ! i = ?A" "j < length out" "out ! j = ?B"
    "k < length out" "out ! k = ?C"
    using assms(2-4) by (metis in_set_conv_nth)
  have before: "\<not> dom_order (out ! m) (out ! n) \<Longrightarrow> m < length out \<Longrightarrow> n < length out
                  \<Longrightarrow> out ! m \<noteq> out ! n \<Longrightarrow> n < m" for m n
    using sorted_wrt_strict_order [OF assms(1), of n m] by auto
  have "\<not> dom_order ?A ?B" "\<not> dom_order ?B ?C" "\<not> dom_order ?C ?A"
    by (simp_all add: dom_order_def same_row_def pos_top_def pos_left_def)
  moreover have "?A \<noteq> ?B" "?B \<noteq> ?C" "?C \<noteq> ?A"
    by simp_all
  ultimately have "j < i" "k < j" "i < k"
    using before [of i j] before [of j k] before [of k i] ijk by simp_all
  then show False by simp
qed

text \<open>
  The claim C7 as stated fails on those three panels: the order the harvester returns
  them in does not follow the rule.
\<close>

theorem C7_counterexample:
  "detectEmbeddedPanels (page dash_url offline staircase)
     = Inr (map fst (js_sort position_compare
         [(dom_panel ''A'', 0, 100), (dom_panel ''B'', 40, 50), (dom_panel ''C'', 80, 0)]))
   \<and> mset (js_sort position_compare
         [(dom_panel ''A'', 0, 100), (dom_panel ''B'', 40, 50), (dom_panel ''C'', 80, 0)])
       = mset [(dom_panel ''A'', 0, 100), (dom_panel ''B'', 40, 50), (dom_panel ''C'', 80, 0)]
   \<and> \<not> sorted_wrt dom_order
          (js_sort position_compare
             [(dom_panel ''A'', 0, 100), (dom_panel ''B'', 40, 50), (dom_panel ''C'', 80, 0)])"
proof -
  let ?ps = "[(dom_panel ''A'', 0::real, 100::real), (dom_panel ''B'', 40, 50),
              (dom_panel ''C'', 80, 0)]"
  have "detectEmbeddedPanels (page dash_url offline staircase)
          = Inr (map fst (js_sort position_compare ?ps))"
    by (simp add: detectEmbeddedPanels_def staircase_collected)
  moreover have "\<not> sorted_wrt dom_order (js_sort position_compare ?ps)"
  proof
    assume "sorted_wrt dom_order (js_sort position_compare ?ps)"
    then show False
      by (rule staircase_has_no_row_order) simp_all
  qed
  ultimately show ?thesis by simp
qed

lemma two_rows_collected:
  "collect_panels (first_nonempty two_rows panelSelectors)
     = Inr [(dom_panel ''right'', 0, 200), (dom_panel ''left'', 10, 0),
            (dom_panel ''below'', 300, 50)]"
  by (simp add: panelSelectors_def two_rows_def element_at_def)

theorem C7_witness:
  "collect_panels (first_nonempty (querySelectorAll (page dash_url offline two_rows)) panelSelectors)
     = Inr [(dom_panel ''right'', 0, 200), (dom_panel ''left'', 10, 0),
            (dom_panel ''below'', 300, 50)]
   \<and> same_row (dom_panel ''right'', 0, 200) (dom_panel ''left'', 10, 0)
   \<and> \<not> same_row (dom_panel ''right'', 0, 200) (dom_panel ''below'', 300, 50)
   \<and> \<not> same_row (dom_panel ''left'', 10, 0) (dom_panel ''below'', 300, 50)
   \<and> detectEmbeddedPanels (page dash_url offline two_rows)
       = Inr [dom_panel ''left'', dom_panel ''right'', dom_panel ''below'']
   \<and> (\<exists>out. map fst out = [dom_panel ''left'', dom_panel ''right'', dom_panel ''below'']
            \<and> sorted_wrt dom_order out)"
proof -
  let ?w = "page dash_url offline two_rows"
  let ?ps = "[(dom_panel ''right'', 0::real, 200::real), (dom_panel ''left'', 10, 0),
              (dom_panel ''below'', 300, 50)]"
  have collected: "collect_panels (first_nonempty (querySelectorAll ?w) panelSelectors) = Inr ?ps"
    by (simp add: two_rows_collected)
  have rows: "\<forall>a\<in>set ?ps. \<forall>b\<in>set ?ps. \<forall>c\<in>set ?ps. same_row a b \<and> same_row b c \<longrightarrow> same_row a c"
    by (simp add: same_row_def pos_top_def)
  have result: "detectEmbeddedPanels ?w
       = Inr [dom_panel ''left'', dom_panel ''right'', dom_panel ''below'']"
    by (simp add: detectEmbeddedPanels_def two_rows_collected js_sort_def sorts_after_def
        position_compare_def)
  from C7_dom_panels_sorted_by_rows [of ?w ?ps] collected rows
  obtain out where out: "detectEmbeddedPanels ?w = Inr (map fst out)" "sorted_wrt dom_order out"
    by blast
  from out(1) result have "map fst out = [dom_panel ''left'', dom_panel ''right'', dom_panel ''below'']"
    by simp
  with out(2) have "\<exists>out. map fst out = [dom_panel ''left'', dom_panel ''right'', dom_panel ''below'']
            \<and> sorted_wrt dom_order out"
    by (intro exI [of _ out] conjI)
  moreover have "same_row (dom_panel ''right'', 0, 200) (dom_panel ''left'', 10, 0)"
    "\<not> same_row (dom_panel ''right'', 0, 200) (dom_panel ''below'', 300, 50)"
    "\<not> same_row (dom_panel ''left'', 10, 0) (dom_panel ''below'', 300, 50)"
    by (simp_all add: same_row_def pos_top_def)
  ultimately show ?thesis
    using collected result by blast
qed

subsection \<open>URL classifier\<close>

lemma head_match_iff:
  "take (length pre) url = pre \<and> takeWhile P (drop (length pre) url) \<noteq> []
     \<longleftrightarrow> (\<exists>c post. url = pre @ c # post \<and> P c)"
proof
  assume a: "take (length pre) url = pre \<and> takeWhile P (drop (length pre) url) \<noteq> []"
  then obtain c post where d: "drop (length pre) url = c # post"
    by (cases "drop (length pre) url") auto
  with a have "P c" by (auto split: if_splits)
  moreover have "url = pre @ c # post"
    using a d append_take_drop_id [of "length pre" url] by simp
  ultimately show "\<exists>c post. url = pre @ c # post \<and> P c" by blast
next
  assume "\<exists>c post. url = pre @ c # post \<and> P c"
  then show "take (length pre) url = pre \<and> takeWhile P (drop (length pre) url) \<noteq> []"
    by auto
qed

lemma match_pattern_None: "match_pattern p url = None \<longleftrightarrow> \<not> regex_matches p url"
proof (induction url)
  case Nil
  show ?case by (simp add: regex_matches_def)
next
  case (Cons a url)
  let ?P = "\<lambda>x. x \<notin> set (pat_stops p)"
  let ?head = "take (length (pat_prefix p)) (a # url) = pat_prefix p
                 \<and> takeWhile ?P (drop (length (pat_prefix p)) (a # url)) \<noteq> []"
  have step: "regex_matches p (a # url) \<longleftrightarrow> ?head \<or> regex_matches p url"
  proof
    assume "regex_matches p (a # url)"
    then obtain pre c post where m: "a # url = pre @ pat_prefix p @ c # post" "?P c"
      by (auto simp: regex_matches_def)
    show "?head \<or> regex_matches p url"
    proof (cases pre)
      case Nil
      with m have "\<exists>c post. a # url = pat_prefix p @ c # post \<and> ?P c" by auto
      then have ?head by (simp only: head_match_iff)
      then show ?thesis ..
    next
      case (Cons b pre')
      with m have "url = pre' @ pat_prefix p @ c # post" by simp
      with m(2) have "regex_matches p url" by (auto simp: regex_matches_def)
      then show ?thesis ..
    qed
  next
    assume "?head \<or> regex_matches p url"
    then show "regex_matches p (a # url)"
    proof
      assume ?head
      then have "\<exists>c post. a # url = pat_prefix p @ c # post \<and> ?P c"
        by (simp only: head_match_iff)
      then obtain c post where "a # url = [] @ pat_prefix p @ c # post" "?P c" by auto
      then show ?thesis unfolding regex_matches_def by blast
    next
      assume "regex_matches p url"
      then obtain pre c post where "url = pre @ pat_prefix p @ c # post" "?P c"
        by (auto simp: regex_matches_def)
      then have "a # url = (a # pre) @ pat_prefix p @ c # post" by simp
      with \<open>?P c\<close> show ?thesis unfolding regex_matches_def by blast
    qed
  qed
  show ?case
    using Cons.IH step by (auto simp: Let_def)
qed

lemma match_pattern_Some:
  assumes "match_pattern p url = Some seg"
  shows "\<exists>pre post. url = pre @ pat_prefix p @ seg @ post \<and> seg \<noteq> []
           \<and> (\<forall>c\<in>set seg. c \<notin> set (pat_stops p))
           \<and> (post = [] \<or> hd post \<in> set (pat_stops p))
           \<and> (\<forall>pre' c post'. url = pre' @ pat_prefix p @ c # post' \<and> c \<notin> set (pat_stops p)
                  \<longrightarrow> length pre \<le> length pre')"
  using assms
proof (induction url)
  case Nil
  then show ?case by simp
next
  case (Cons a url)
  let ?P = "\<lambda>x. x \<notin> set (pat_stops p)"
  let ?rest = "drop (length (pat_prefix p)) (a # url)"
  let ?head = "take (length (pat_prefix p)) (a # url) = pat_prefix p \<and> takeWhile ?P ?rest \<noteq> []"
  show ?case
  proof (cases ?head)
    case True
    with Cons.prems have seg: "seg = takeWhile ?P ?rest"
      by (simp add: Let_def)
    have "a # url = [] @ pat_prefix p @ seg @ dropWhile ?P ?rest"
      using True seg append_take_drop_id [of "length (pat_prefix p)" "a # url"]
      by (simp del: append_take_drop_id)
    moreover have "seg \<noteq> []" using True seg by simp
    moreover have "\<forall>c\<in>set seg. ?P c"
      using seg by (auto dest: set_takeWhileD)
    moreover have "dropWhile ?P ?rest = [] \<or> hd (dropWhile ?P ?rest) \<in> set (pat_stops p)"
      using hd_dropWhile [of ?P ?rest] by auto
    ultimately show ?thesis
      by (intro exI [of _ "[]"] exI [of _ "dropWhile ?P ?rest"]) simp
  next
    case False
    with Cons.prems have "match_pattern p url = Some seg"
      by (simp add: Let_def)
    from Cons.IH [OF this] obtain pre post where
      ih: "url = pre @ pat_prefix p @ seg @ post" "seg \<noteq> []" "\<forall>c\<in>set seg. ?P c"
        "post = [] \<or> hd post \<in> set (pat_stops p)"
        "\<forall>pre' c post'. url = pre' @ pat_prefix p @ c # post' \<and> ?P c \<longrightarrow> length pre \<le> length pre'"
      by blast
    have leftmost: "\<forall>pre' c post'. a # url = pre' @ pat_prefix p @ c # post' \<and> ?P c
                      \<longrightarrow> length (a # pre) \<le> length pre'"
    proof (intro allI impI)
      fix pre' c post'
      assume m: "a # url = pre' @ pat_prefix p @ c # post' \<and> ?P c"
      show "length (a # pre) \<le> length pre'"
      proof (cases pre')
        case Nil
        with m have "\<exists>c post. a # url = pat_prefix p @ c # post \<and> ?P c" by auto
        then have ?head by (simp only: head_match_iff)
        with False show ?thesis by blast
      next
        case (Cons b pre'')
        with m have "url = pre'' @ pat_prefix p @ c # post' \<and> ?P c" by simp
        with ih(5) have "length pre \<le> length pre''" by blast
        with Cons show ?thesis by simp
      qed
    qed
    from ih(1) have "a # url = (a # pre) @ pat_prefix p @ seg @ post" by simp
    with ih(2-4) leftmost show ?thesis by blast
  qed
qed

lemma first_match_None:
  "first_match table url = None \<longleftrightarrow> (\<forall>e\<in>set table. \<not> regex_matches (snd e) url)"
  by (induction table) (auto simp: match_pattern_None [symmetric] split: option.splits)

lemma first_match_Some:
  assumes "first_match table url = Some (ty, seg)"
  shows "\<exists>before p after. table = before @ (ty, p) # after
           \<and> match_pattern p url = Some seg
           \<and> (\<forall>e\<in>set before. \<not> regex_matches (snd e) url)"
  using assms
proof (induction table)
  case Nil
  then show ?case by simp
next
  case (Cons entry table)
  obtain ty0 p0 where entry: "entry = (ty0, p0)" by (cases entry)
  show ?case
  proof (cases "match_pattern p0 url")
    case None
    with Cons.prems entry have "first_match table url = Some (ty, seg)" by simp
    from Cons.IH [OF this] obtain before p after where
      ih: "table = before @ (ty, p) # after" "match_pattern p url = Some seg"
      "\<forall>e\<in>set before. \<not> regex_matches (snd e) url"
      by blast
    from None have "\<not> regex_matches (snd entry) url"
      by (simp add: match_pattern_None entry)
    with ih(3) have "\<forall>e\<in>set (entry # before). \<not> regex_matches (snd e) url"
      by simp
    moreover from ih(1) have "entry # table = (entry # before) @ (ty, p) # after"
      by simp
    ultimately show ?thesis
      using ih(2) by blast
  next
    case (Some s)
    with Cons.prems entry have "ty = ty0" "seg = s" by simp_all
    with Some entry have "entry # table = [] @ (ty, p0) # table" "match_pattern p0 url = Some seg"
      by simp_all
    moreover have "\<forall>e\<in>set []. \<not> regex_matches (snd e) url"
      by simp
    ultimately show ?thesis by blast
  qed
qed

lemma pattern_table_entry:
  assumes "(ty, p) \<in> set KIBANA_PATTERNS"
  shows "pat_stops p = (if ty = ''slo'' then ''?&/'' else ''?&'')"
    and "ty = ''dashboard'' \<Longrightarrow> pat_prefix p = ''/app/dashboards#/view/''"
  using assms by (auto simp: KIBANA_PATTERNS_def)

text \<open>
  Claim C3, as amended.  The classifier answers with the first type, in table order,
  whose pattern occurs in the URL, and with the identifier found at the leftmost occurrence
  of that pattern: the longest non-empty run of characters after the pattern's prefix that
  contains none of the pattern's stop characters.  The stop characters are \<open>?\<close> and
  \<open>&\<close>, and for the type \<open>slo\<close> also \<open>/\<close>; the character \<open>#\<close> is not a stop
  character.  The classifier answers null exactly when no pattern occurs in the URL.  The URL
  of Scenario A is classified as the dashboard \<open>abc-123\<close>.
\<close>

theorem C3_classifier_first_pattern_leftmost_segment:
  "(detectSavedObject w = Some d \<longrightarrow>
      (\<exists>before p after pre post.
          KIBANA_PATTERNS = before @ (d_type d, p) # after
        \<and> (\<forall>e\<in>set before. \<not> regex_matches (snd e) (href w))
        \<and> href w = pre @ pat_prefix p @ d_id d @ post
        \<and> d_id d \<noteq> []
        \<and> (\<forall>c\<in>set (d_id d). c \<notin> set (pat_stops p))
        \<and> (post = [] \<or> hd post \<in> set (pat_stops p))
        \<and> (\<forall>pre' c post'. href w = pre' @ pat_prefix p @ c # post' \<and> c \<notin> set (pat_stops p)
               \<longrightarrow> length pre \<le> length pre')
        \<and> pat_stops p = (if d_type d = ''slo'' then ''?&/'' else ''?&'')))
   \<and> (detectSavedObject w = None
        \<longleftrightarrow> (\<forall>e\<in>set KIBANA_PATTERNS. \<not> regex_matches (snd e) (href w)))
   \<and> map_option (\<lambda>d. (d_type d, d_id d))
        (detectSavedObject
           (w\<lparr>href := ''https://kibana.example/app/dashboards#/view/abc-123?x=1''\<rparr>))
       = Some (''dashboard'', ''abc-123'')"
proof (intro conjI impI)
  assume det: "detectSavedObject w = Some d"
  then have fm: "first_match KIBANA_PATTERNS (href w) = Some (d_type d, d_id d)"
    by (auto simp: detectSavedObject_def split: option.splits)
  from first_match_Some [OF fm] obtain before p after where
    tbl: "KIBANA_PATTERNS = before @ (d_type d, p) # after" and
    mp: "match_pattern p (href w) = Some (d_id d)" and
    earlier: "\<forall>e\<in>set before. \<not> regex_matches (snd e) (href w)"
    by blast
  from match_pattern_Some [OF mp] obtain pre post where
    seg: "href w = pre @ pat_prefix p @ d_id d @ post" "d_id d \<noteq> []"
      "\<forall>c\<in>set (d_id d). c \<notin> set (pat_stops p)"
      "post = [] \<or> hd post \<in> set (pat_stops p)"
      "\<forall>pre' c post'. href w = pre' @ pat_prefix p @ c # post' \<and> c \<notin> set (pat_stops p)
               \<longrightarrow> length pre \<le> length pre'"
    by blast
  from tbl have "(d_type d, p) \<in> set KIBANA_PATTERNS"
    by (metis in_set_conv_decomp)
  then have stops: "pat_stops p = (if d_type d = ''slo'' then ''?&/'' else ''?&'')"
    by (rule pattern_table_entry)
  from tbl earlier seg stops
  show "\<exists>before p after pre post.
          KIBANA_PATTERNS = before @ (d_type d, p) # after
        \<and> (\<forall>e\<in>set before. \<not> regex_matches (snd e) (href w))
        \<and> href w = pre @ pat_prefix p @ d_id d @ post
        \<and> d_id d \<noteq> []
        \<and> (\<forall>c\<in>set (d_id d). c \<notin> set (pat_stops p))
        \<and> (post = [] \<or> hd post \<in> set (pat_stops p))
        \<and> (\<forall>pre' c post'. href w = pre' @ pat_prefix p @ c # post' \<and> c \<notin> set (pat_stops p)
               \<longrightarrow> length pre \<le> length pre')
        \<and> pat_stops p = (if d_type d = ''slo'' then ''?&/'' else ''?&'')"
    by blast
next
  show "detectSavedObject w = None
        \<longleftrightarrow> (\<forall>e\<in>set KIBANA_PATTERNS. \<not> regex_matches (snd e) (href w))"
    using first_match_None [of KIBANA_PATTERNS "href w"]
    by (auto simp: detectSavedObject_def split: option.splits)
next
  show "map_option (\<lambda>d. (d_type d, d_id d))
        (detectSavedObject
           (w\<lparr>href := ''https://kibana.example/app/dashboards#/view/abc-123?x=1''\<rparr>))
       = Some (''dashboard'', ''abc-123'')"
    by (simp add: detectSavedObject_def KIBANA_PATTERNS_def Let_def)
qed

text \<open>
  The claim C3 as stated fails for the type \<open>slo\<close>, whose pattern also stops at
  \<open>/\<close>: the identifier is \<open>abc\<close>, while the text between the prefix and the first
  \<open>?\<close>, \<open>&\<close> or \<open>#\<close> is \<open>abc/history\<close>.
\<close>

theorem C3_counterexample:
  "map_option (\<lambda>d. (d_type d, d_id d)) (detectSavedObject (page slo_url offline (\<lambda>sel. [])))
     = Some (''slo'', ''abc'')
   \<and> claimed_id ''/app/slos/'' slo_url = Some ''abc/history''"
  by (simp add: detectSavedObject_def page_def slo_url_def KIBANA_PATTERNS_def Let_def
      claimed_id_def)

theorem C3_witness:
  "detectSavedObject (page dash_url offline (\<lambda>sel. [])) = Some dashboard_descriptor
   \<and> d_type dashboard_descriptor = ''dashboard''
   \<and> d_id dashboard_descriptor = ''abc-123''
   \<and> (\<exists>pre post. dash_url = pre @ ''/app/dashboards#/view/'' @ ''abc-123'' @ post)
   \<and> detectSavedObject (page home_url offline (\<lambda>sel. [])) = None"
proof -
  let ?w = "page dash_url offline (\<lambda>sel. [])"
  have det: "detectSavedObject ?w = Some dashboard_descriptor"
    by (rule detect_dashboard_descriptor)
  from C3_classifier_first_pattern_leftmost_segment [of ?w dashboard_descriptor] det
  obtain before p after pre post where
    tbl: "KIBANA_PATTERNS = before @ (d_type dashboard_descriptor, p) # after" and
    seg: "href ?w = pre @ pat_prefix p @ d_id dashboard_descriptor @ post"
    by blast
  from tbl have "(d_type dashboard_descriptor, p) \<in> set KIBANA_PATTERNS"
    by (metis in_set_conv_decomp)
  then have "(''dashboard'', p) \<in> set KIBANA_PATTERNS"
    by (simp add: dashboard_descriptor_def)
  then have pre: "pat_prefix p = ''/app/dashboards#/view/''"
    by (rule pattern_table_entry) simp
  from seg pre have "dash_url = pre @ ''/app/dashboards#/view/'' @ ''abc-123'' @ post"
    by (simp add: dashboard_descriptor_def)
  then have "\<exists>pre post. dash_url = pre @ ''/app/dashboards#/view/'' @ ''abc-123'' @ post"
    by blast
  moreover have "d_type dashboard_descriptor = ''dashboard''" "d_id dashboard_descriptor = ''abc-123''"
    by (simp_all add: dashboard_descriptor_def)
  ultimately show ?thesis
    using det detect_home_url [of offline "\<lambda>sel. []"] by blast
qed

subsection \<open>Record synthesizer\<close>

lemma decoded_stringify [simp]: "decoded (Some (JStr (JSON_stringify v))) = Some v"
  by (simp add: decoded_def JSON_parse_stringify)














end
